(* ===== verification/Prelude.thy ===== *)
theory Prelude
  imports Main "HOL-Library.Word"
begin

text \<open>
  Shared vocabulary of the development.

  The first part names the types the components share: identifiers, points in time,
  byte strings.  The second part is the computation type of the asynchronous Rust
  functions: a function from a state to a result (\<open>Inl\<close> the error, \<open>Inr\<close> the value, as
  in \<open>Result<T, E>\<close>) and the state after it; \<open>bindE\<close> is the \<open>?\<close> operator, \<open>attempt\<close> is a
  call whose \<open>Result\<close> is inspected with \<open>match\<close>.  Its calculus is equational: \<open>wp\<close> is the
  weakest precondition with one postcondition per outcome, and the collection
  \<open>wp_simps\<close> computes it through every combinator.  The third part is the small algebra of
  SQL tables (lists of rows) the repositories use, with the lemmas on keys every table
  invariant rests on.
\<close>

named_theorems wp_simps \<open>weakest preconditions of the combinators and of the primitive operations\<close>
named_theorems keeps_intros \<open>preservation of a state predicate by a computation\<close>
named_theorems fails_intros \<open>the errors a computation may end with\<close>
named_theorems table_simps \<open>reads of a table after an update of it\<close>

section \<open>Types\<close>

text \<open>\<open>uuid::Uuid\<close> is a 128-bit value, ordered and compared as such.\<close>

type_synonym uuid = "128 word"

text \<open>\<open>DateTime<Utc>\<close> as microseconds since the epoch, the granularity of \<open>timestamptz\<close>.\<close>

type_synonym timestamp = int

type_synonym bytes = "8 word list"

abbreviation millis :: "int \<Rightarrow> int" where
  "millis n \<equiv> n * 1000"

abbreviation secs :: "int \<Rightarrow> int" where
  "secs n \<equiv> n * 1000000"

abbreviation mins :: "int \<Rightarrow> int" where
  "mins n \<equiv> n * 60000000"

abbreviation hours :: "int \<Rightarrow> int" where
  "hours n \<equiv> n * 3600000000"

abbreviation days :: "int \<Rightarrow> int" where
  "days n \<equiv> n * 86400000000"

section \<open>Computations over a state that may fail\<close>

type_synonym ('s, 'e, 'a) io = "'s \<Rightarrow> ('e + 'a) \<times> 's"

definition ret :: "'a \<Rightarrow> ('s, 'e, 'a) io" where
  "ret a = (\<lambda>s. (Inr a, s))"

definition throw :: "'e \<Rightarrow> ('s, 'e, 'a) io" where
  "throw e = (\<lambda>s. (Inl e, s))"

definition bindE :: "('s, 'e, 'a) io \<Rightarrow> ('a \<Rightarrow> ('s, 'e, 'b) io) \<Rightarrow> ('s, 'e, 'b) io" where
  "bindE m f = (\<lambda>s. case m s of (Inr a, s') \<Rightarrow> f a s' | (Inl e, s') \<Rightarrow> (Inl e, s'))"

abbreviation thenE :: "('s, 'e, 'a) io \<Rightarrow> ('s, 'e, 'b) io \<Rightarrow> ('s, 'e, 'b) io" where
  "thenE m k \<equiv> bindE m (\<lambda>_. k)"

text \<open>\<open>From\<close> conversions of the \<open>?\<close> operator.\<close>

definition map_err :: "('e \<Rightarrow> 'f) \<Rightarrow> ('s, 'e, 'a) io \<Rightarrow> ('s, 'f, 'a) io" where
  "map_err g m = (\<lambda>s. case m s of (Inr a, s') \<Rightarrow> (Inr a, s') | (Inl e, s') \<Rightarrow> (Inl (g e), s'))"

definition attempt :: "('s, 'e, 'a) io \<Rightarrow> ('s, 'f, 'e + 'a) io" where
  "attempt m = (\<lambda>s. case m s of (r, s') \<Rightarrow> (Inr r, s'))"

definition gets :: "('s \<Rightarrow> 'a) \<Rightarrow> ('s, 'e, 'a) io" where
  "gets g = (\<lambda>s. (Inr (g s), s))"

definition modifyE :: "('s \<Rightarrow> 's) \<Rightarrow> ('s, 'e, unit) io" where
  "modifyE g = (\<lambda>s. (Inr (), g s))"

definition of_result :: "'e + 'a \<Rightarrow> ('s, 'e, 'a) io" where
  "of_result r = (\<lambda>s. (r, s))"

definition ok_or :: "'e \<Rightarrow> 'a option \<Rightarrow> 'e + 'a" where
  "ok_or e x = (case x of None \<Rightarrow> Inl e | Some a \<Rightarrow> Inr a)"

lemma ok_or_simps [simp]: "ok_or e None = Inl e" "ok_or e (Some a) = Inr a"
  by (simp_all add: ok_or_def)

fun for_each :: "('a \<Rightarrow> ('s, 'e, unit) io) \<Rightarrow> 'a list \<Rightarrow> ('s, 'e, unit) io" where
  "for_each f [] = ret ()"
| "for_each f (x # xs) = thenE (f x) (for_each f xs)"

lemma map_sum_eq_Inr [simp]: "map_sum g f r = Inr y \<longleftrightarrow> (\<exists>x. r = Inr x \<and> y = f x)"
  by (cases r) auto

lemma map_sum_eq_Inl [simp]: "map_sum g f r = Inl e \<longleftrightarrow> (\<exists>x. r = Inl x \<and> e = g x)"
  by (cases r) auto

lemma map_err_bindE: "map_err g (bindE m f) = bindE (map_err g m) (\<lambda>a. map_err g (f a))"
  by (auto simp: fun_eq_iff map_err_def bindE_def split: prod.splits sum.splits)

lemma map_err_ret [simp]: "map_err g (ret a) = ret a"
  by (simp add: fun_eq_iff map_err_def ret_def)

subsection \<open>Weakest preconditions\<close>

definition wp :: "('s, 'e, 'a) io \<Rightarrow> ('a \<Rightarrow> 's \<Rightarrow> bool) \<Rightarrow> ('e \<Rightarrow> 's \<Rightarrow> bool) \<Rightarrow> 's \<Rightarrow> bool" where
  "wp m Q R s = (case m s of (Inr a, s') \<Rightarrow> Q a s' | (Inl e, s') \<Rightarrow> R e s')"

lemma wp_ret [wp_simps]: "wp (ret a) Q R s = Q a s"
  by (simp add: wp_def ret_def)

lemma wp_ret_eta: "wp (ret a) Q R = Q a"
  by (simp add: fun_eq_iff wp_def ret_def)

lemma wp_throw_eta: "wp (throw e) Q R = R e"
  by (simp add: fun_eq_iff wp_def throw_def)

lemma wp_throw [wp_simps]: "wp (throw e) Q R s = R e s"
  by (simp add: wp_def throw_def)

lemma wp_bindE [wp_simps]: "wp (bindE m f) Q R s = wp m (\<lambda>a. wp (f a) Q R) R s"
  by (auto simp: wp_def bindE_def split: prod.splits sum.splits)

lemma wp_map_err [wp_simps]: "wp (map_err g m) Q R s = wp m Q (\<lambda>e. R (g e)) s"
  by (auto simp: wp_def map_err_def split: prod.splits sum.splits)

lemma wp_attempt [wp_simps]: "wp (attempt m) Q R s = wp m (\<lambda>a. Q (Inr a)) (\<lambda>e. Q (Inl e)) s"
  by (auto simp: wp_def attempt_def split: prod.splits sum.splits)

lemma wp_gets [wp_simps]: "wp (gets g) Q R s = Q (g s) s"
  by (simp add: wp_def gets_def)

lemma wp_modifyE [wp_simps]: "wp (modifyE g) Q R s = Q () (g s)"
  by (simp add: wp_def modifyE_def)

lemma wp_of_result [wp_simps]:
  "wp (of_result r) Q R s = (case r of Inr a \<Rightarrow> Q a s | Inl e \<Rightarrow> R e s)"
  by (simp add: wp_def of_result_def split: sum.splits)

lemma wp_ok_or [wp_simps]:
  "wp (of_result (ok_or e x)) Q R s = (case x of Some a \<Rightarrow> Q a s | None \<Rightarrow> R e s)"
  by (simp add: wp_of_result ok_or_def split: option.splits)

lemma wp_if [wp_simps]:
  "wp (if b then m else m') Q R s = (if b then wp m Q R s else wp m' Q R s)"
  by simp

lemma wp_case_option [wp_simps]:
  "wp (case x of None \<Rightarrow> m | Some a \<Rightarrow> f a) Q R s
   = (case x of None \<Rightarrow> wp m Q R s | Some a \<Rightarrow> wp (f a) Q R s)"
  by (simp split: option.splits)

lemma wp_case_sum [wp_simps]:
  "wp (case x of Inl e \<Rightarrow> f e | Inr a \<Rightarrow> g a) Q R s
   = (case x of Inl e \<Rightarrow> wp (f e) Q R s | Inr a \<Rightarrow> wp (g a) Q R s)"
  by (simp split: sum.splits)

lemma wp_mono:
  assumes "wp m Q R s"
    and "\<And>a s'. Q a s' \<Longrightarrow> Q' a s'"
    and "\<And>e s'. R e s' \<Longrightarrow> R' e s'"
  shows "wp m Q' R' s"
  using assms by (auto simp: wp_def split: prod.splits sum.splits)

lemma wp_bindI:
  assumes "wp m Q' R s" and "\<And>a s'. Q' a s' \<Longrightarrow> wp (f a) Q R s'"
  shows "wp (bindE m f) Q R s"
  using assms by (auto simp: wp_bindE intro: wp_mono)

lemma wp_map_errI: "wp m Q (\<lambda>e. R (g e)) s \<Longrightarrow> wp (map_err g m) Q R s"
  by (simp add: wp_map_err)

lemma wp_conj:
  "wp m Q R s \<Longrightarrow> wp m Q' R' s \<Longrightarrow> wp m (\<lambda>a s. Q a s \<and> Q' a s) (\<lambda>e s. R e s \<and> R' e s) s"
  by (auto simp: wp_def split: prod.splits sum.splits)

lemma wp_Inr: "wp m Q R s \<Longrightarrow> m s = (Inr a, s') \<Longrightarrow> Q a s'"
  by (simp add: wp_def)

lemma wp_Inl: "wp m Q R s \<Longrightarrow> m s = (Inl e, s') \<Longrightarrow> R e s'"
  by (simp add: wp_def)

lemma wp_snd: "wp m (\<lambda>_. P) (\<lambda>_. P) s \<longleftrightarrow> P (snd (m s))"
  by (auto simp: wp_def split: prod.splits sum.splits)

lemma wp_iff: "wp m Q R s \<longleftrightarrow> (\<forall>a s'. m s = (Inr a, s') \<longrightarrow> Q a s') \<and> (\<forall>e s'. m s = (Inl e, s') \<longrightarrow> R e s')"
  by (auto simp: wp_def split: prod.splits sum.splits)

subsection \<open>Preservation of a state predicate\<close>

definition keeps :: "('s \<Rightarrow> bool) \<Rightarrow> ('s, 'e, 'a) io \<Rightarrow> bool" where
  "keeps P m \<longleftrightarrow> (\<forall>s. P s \<longrightarrow> P (snd (m s)))"

lemma keepsI [intro?]: "(\<And>s. P s \<Longrightarrow> P (snd (m s))) \<Longrightarrow> keeps P m"
  by (simp add: keeps_def)

lemma keepsD: "keeps P m \<Longrightarrow> P s \<Longrightarrow> P (snd (m s))"
  by (simp add: keeps_def)

lemma keeps_wp: "keeps P m \<Longrightarrow> P s \<Longrightarrow> wp m (\<lambda>_. P) (\<lambda>_. P) s"
  by (simp add: wp_snd keeps_def)

lemma wp_keeps: "(\<And>s. P s \<Longrightarrow> wp m (\<lambda>_. P) (\<lambda>_. P) s) \<Longrightarrow> keeps P m"
  by (simp add: wp_snd keeps_def)

lemma keeps_ret [keeps_intros]: "keeps P (ret a)"
  by (simp add: keeps_def ret_def)

lemma keeps_throw [keeps_intros]: "keeps P (throw e)"
  by (simp add: keeps_def throw_def)

lemma keeps_gets [keeps_intros]: "keeps P (gets g)"
  by (simp add: keeps_def gets_def)

lemma keeps_of_result [keeps_intros]: "keeps P (of_result r)"
  by (simp add: keeps_def of_result_def)

lemma keeps_bindE [keeps_intros]:
  assumes "keeps P m" and "\<And>a. keeps P (f a)"
  shows "keeps P (bindE m f)"
proof
  fix s assume "P s"
  with assms show "P (snd (bindE m f s))"
    by (cases "m s") (fastforce simp: bindE_def keeps_def split: sum.splits)
qed

lemma keeps_map_err [keeps_intros]: "keeps P m \<Longrightarrow> keeps P (map_err g m)"
  by (fastforce simp: keeps_def map_err_def split: prod.splits sum.splits)

lemma keeps_attempt [keeps_intros]: "keeps P m \<Longrightarrow> keeps P (attempt m)"
  by (fastforce simp: keeps_def attempt_def split: prod.splits)

lemma keeps_if [keeps_intros]:
  "(b \<Longrightarrow> keeps P m) \<Longrightarrow> (\<not> b \<Longrightarrow> keeps P m') \<Longrightarrow> keeps P (if b then m else m')"
  by simp

lemma keeps_case_option [keeps_intros]:
  "(x = None \<Longrightarrow> keeps P m) \<Longrightarrow> (\<And>a. x = Some a \<Longrightarrow> keeps P (f a))
   \<Longrightarrow> keeps P (case x of None \<Rightarrow> m | Some a \<Rightarrow> f a)"
  by (simp split: option.splits)

lemma keeps_case_sum [keeps_intros]:
  "(\<And>e. x = Inl e \<Longrightarrow> keeps P (f e)) \<Longrightarrow> (\<And>a. x = Inr a \<Longrightarrow> keeps P (g a))
   \<Longrightarrow> keeps P (case x of Inl e \<Rightarrow> f e | Inr a \<Rightarrow> g a)"
  by (simp split: sum.splits)

lemma keeps_for_each [keeps_intros]:
  "(\<And>x. x \<in> set xs \<Longrightarrow> keeps P (f x)) \<Longrightarrow> keeps P (for_each f xs)"
  by (induction xs) (auto intro!: keeps_intros)

subsection \<open>The errors of a computation\<close>

definition fails_with :: "('e \<Rightarrow> bool) \<Rightarrow> ('s, 'e, 'a) io \<Rightarrow> bool" where
  "fails_with P m \<longleftrightarrow> (\<forall>s. wp m (\<lambda>_ _. True) (\<lambda>e _. P e) s)"

lemma fails_wp: "fails_with P m \<Longrightarrow> wp m (\<lambda>_ _. True) (\<lambda>e _. P e) s"
  by (simp add: fails_with_def)

lemma fails_ret [fails_intros]: "fails_with P (ret a)"
  by (simp add: fails_with_def wp_ret)

lemma fails_throw [fails_intros]: "P e \<Longrightarrow> fails_with P (throw e)"
  by (simp add: fails_with_def wp_throw)

lemma fails_gets [fails_intros]: "fails_with P (gets g)"
  by (simp add: fails_with_def wp_gets)

lemma fails_bindE [fails_intros]:
  "fails_with P m \<Longrightarrow> (\<And>a. fails_with P (f a)) \<Longrightarrow> fails_with P (bindE m f)"
  by (auto simp: fails_with_def intro!: wp_bindI [of m "\<lambda>_ _. True"])

lemma fails_map_err [fails_intros]: "fails_with (\<lambda>e. P (g e)) m \<Longrightarrow> fails_with P (map_err g m)"
  by (simp add: fails_with_def wp_map_err)

lemma fails_map_err_any: "(\<And>e. P (g e)) \<Longrightarrow> fails_with P (map_err g m)"
  unfolding fails_with_def wp_map_err by (auto simp: wp_def split: sum.splits prod.splits)

lemma fails_of_result: "(\<And>e. r = Inl e \<Longrightarrow> P e) \<Longrightarrow> fails_with P (of_result r)"
  by (auto simp: fails_with_def wp_of_result split: sum.splits)

lemma fails_if [fails_intros]: "fails_with P m \<Longrightarrow> fails_with P m' \<Longrightarrow> fails_with P (if b then m else m')"
  by simp

lemma fails_case_option [fails_intros]:
  "(x = None \<Longrightarrow> fails_with P m) \<Longrightarrow> (\<And>a. x = Some a \<Longrightarrow> fails_with P (f a))
   \<Longrightarrow> fails_with P (case x of None \<Rightarrow> m | Some a \<Rightarrow> f a)"
  by (simp split: option.splits)

lemma bindE_cong [fundef_cong]:
  assumes "m s = m' s'" and "\<And>a t. m' s' = (Inr a, t) \<Longrightarrow> f a t = f' a t"
  shows "bindE m f s = bindE m' f' s'"
  using assms by (auto simp: bindE_def split: prod.splits sum.splits)

section \<open>Tables\<close>

text \<open>\<open>UPDATE t SET ... WHERE P\<close>.\<close>

definition upd_where :: "('r \<Rightarrow> bool) \<Rightarrow> ('r \<Rightarrow> 'r) \<Rightarrow> 'r list \<Rightarrow> 'r list" where
  "upd_where P f t = map (\<lambda>r. if P r then f r else r) t"

text \<open>\<open>DELETE FROM t WHERE P\<close>.\<close>

definition del_where :: "('r \<Rightarrow> bool) \<Rightarrow> 'r list \<Rightarrow> 'r list" where
  "del_where P t = filter (\<lambda>r. \<not> P r) t"

text \<open>\<open>INSERT ... ON CONFLICT (key) DO NOTHING\<close>.\<close>

definition ins_ignore :: "('r \<Rightarrow> 'k) \<Rightarrow> 'r \<Rightarrow> 'r list \<Rightarrow> 'r list" where
  "ins_ignore k r t = (if k r \<in> set (map k t) then t else t @ [r])"

text \<open>\<open>INSERT ... ON CONFLICT (key) DO UPDATE\<close>: the existing row is rewritten by \<open>f\<close>.\<close>

definition upsert :: "('r \<Rightarrow> 'k) \<Rightarrow> ('r \<Rightarrow> 'r) \<Rightarrow> 'r \<Rightarrow> 'r list \<Rightarrow> 'r list" where
  "upsert k f r t
   = (if k r \<in> set (map k t) then upd_where (\<lambda>x. k x = k r) f t else t @ [r])"

lemma upd_where_Nil [simp]: "upd_where P f [] = []"
  by (simp add: upd_where_def)

lemma upd_where_Cons [simp]:
  "upd_where P f (r # t) = (if P r then f r else r) # upd_where P f t"
  by (simp add: upd_where_def)

lemma del_where_Nil [simp]: "del_where P [] = []"
  by (simp add: del_where_def)

lemma del_where_Cons [simp]:
  "del_where P (r # t) = (if P r then del_where P t else r # del_where P t)"
  by (simp add: del_where_def)

lemma set_upd_where: "set (upd_where P f t) = (\<lambda>r. if P r then f r else r) ` set t"
  by (simp add: upd_where_def)

lemma set_del_where [table_simps]: "set (del_where P t) = {r \<in> set t. \<not> P r}"
  by (simp add: del_where_def)

lemma map_key_upd_where [table_simps]:
  "(\<And>r. P r \<Longrightarrow> k (f r) = k r) \<Longrightarrow> map k (upd_where P f t) = map k t"
  by (simp add: upd_where_def)

lemma distinct_map_del_where: "distinct (map k t) \<Longrightarrow> distinct (map k (del_where P t))"
  by (simp add: del_where_def distinct_map_filter)

lemma distinct_map_ins_ignore: "distinct (map k t) \<Longrightarrow> distinct (map k (ins_ignore k r t))"
  by (auto simp: ins_ignore_def)

lemma set_ins_ignore_mono: "set t \<subseteq> set (ins_ignore k r t)"
  by (auto simp: ins_ignore_def)

lemma ins_ignore_has_key: "\<exists>r' \<in> set (ins_ignore k r t). k r' = k r"
  by (auto simp: ins_ignore_def)

lemma key_inj:
  "distinct (map k t) \<Longrightarrow> r \<in> set t \<Longrightarrow> r' \<in> set t \<Longrightarrow> k r = k r' \<Longrightarrow> r = r'"
  by (meson distinct_map inj_on_def)

text \<open>The first row with a given key, as \<open>fetch_optional\<close> on a key returns it.\<close>

definition find_row :: "('r \<Rightarrow> bool) \<Rightarrow> 'r list \<Rightarrow> 'r option" where
  "find_row P t = List.find P t"

lemma find_row_Nil [simp]: "find_row P [] = None"
  by (simp add: find_row_def)

lemma find_row_Cons [simp]: "find_row P (r # t) = (if P r then Some r else find_row P t)"
  by (simp add: find_row_def)

lemma find_row_None [table_simps]: "find_row P t = None \<longleftrightarrow> (\<forall>r \<in> set t. \<not> P r)"
  by (induction t) auto

lemma find_row_SomeD: "find_row P t = Some r \<Longrightarrow> r \<in> set t \<and> P r"
  by (induction t) (auto split: if_splits)

lemma find_row_key:
  "distinct (map k t) \<Longrightarrow> r \<in> set t \<Longrightarrow> k r = v \<Longrightarrow> find_row (\<lambda>x. k x = v) t = Some r"
proof (induction t)
  case (Cons a t)
  then show ?case by (auto simp: image_iff)
qed simp

lemma find_row_append: "find_row P (t @ u) = (case find_row P t of None \<Rightarrow> find_row P u | Some r \<Rightarrow> Some r)"
  by (induction t) auto

lemma find_row_upd_where_other:
  "(\<And>r. r \<in> set t \<Longrightarrow> P (if C r then f r else r) = P r) \<Longrightarrow>
   find_row P (upd_where C f t) = map_option (\<lambda>r. if C r then f r else r) (find_row P t)"
  by (induction t) auto

lemma filter_upd_where:
  "(\<And>r. P r \<Longrightarrow> P (f r)) \<Longrightarrow> filter P (upd_where P f t) = map f (filter P t)"
  by (induction t) auto

lemma in_set_map_filter: "y \<in> set (List.map_filter f xs) \<longleftrightarrow> (\<exists>x \<in> set xs. f x = Some y)"
  by (induction xs) (auto simp: List.map_filter_simps split: option.splits)

section \<open>Strings\<close>

text \<open>\<open>str::split_once\<close> at the first occurrence of a character.\<close>

fun split_once :: "char \<Rightarrow> string \<Rightarrow> (string \<times> string) option" where
  "split_once c [] = None"
| "split_once c (x # xs) = (if x = c then Some ([], xs)
     else map_option (\<lambda>(a, b). (x # a, b)) (split_once c xs))"

lemma split_once_Some: "split_once c s = Some (a, b) \<longleftrightarrow> s = a @ c # b \<and> c \<notin> set a"
proof (induction s arbitrary: a)
  case (Cons x xs)
  then show ?case by (cases a) auto
qed simp

lemma split_once_None: "split_once c s = None \<longleftrightarrow> c \<notin> set s"
  by (induction s) auto

section \<open>Ordered selection\<close>

text \<open>\<open>ORDER BY k LIMIT n\<close>: Postgres leaves the order of equal keys open; the model keeps
  the table's.\<close>

definition top_by :: "('r \<Rightarrow> 'k :: linorder) \<Rightarrow> nat \<Rightarrow> 'r list \<Rightarrow> 'r list" where
  "top_by k n t = take n (sort_key k t)"

lemma length_top_by: "length (top_by k n t) = min n (length t)"
  by (simp add: top_by_def)

lemma set_top_by: "set (top_by k n t) \<subseteq> set t"
  by (metis set_sort set_take_subset top_by_def)

lemma top_by_all: "length t \<le> n \<Longrightarrow> set (top_by k n t) = set t"
  by (simp add: top_by_def)

lemma distinct_map_top_by: "distinct (map g t) \<Longrightarrow> distinct (map g (top_by k n t))"
  by (metis distinct_map distinct_sort distinct_take set_sort set_take_subset inj_on_subset top_by_def)

text \<open>Whatever the selection leaves out sorts no earlier than anything it takes.\<close>

lemma top_by_least:
  assumes "x \<in> set (top_by k n t)" and "y \<in> set t" and "y \<notin> set (top_by k n t)"
  shows "k x \<le> k y"
proof -
  let ?s = "sort_key k t"
  have split: "?s = take n ?s @ drop n ?s" by simp
  have "y \<in> set (drop n ?s)"
    using assms(2,3) by (metis Un_iff append_take_drop_id set_append set_sort top_by_def)
  moreover have "sorted (map k (take n ?s) @ map k (drop n ?s))"
    by (metis split map_append sorted_sort_key)
  ultimately show ?thesis
    using assms(1) by (auto simp: sorted_append top_by_def)
qed

text \<open>Reading back what an upsert wrote.\<close>

lemma find_row_upsert:
  assumes "\<And>x. k x = k r \<Longrightarrow> k (f x) = k r"
  shows "\<exists>x. find_row (\<lambda>x. k x = k r) (upsert k f r t) = Some x \<and> (x = r \<or> (\<exists>y. k y = k r \<and> x = f y))"
proof (cases "k r \<in> set (map k t)")
  case True
  then obtain x where "x \<in> set t" "k x = k r" by auto
  then have "find_row (\<lambda>x. k x = k r) (upd_where (\<lambda>x. k x = k r) f t) \<noteq> None"
    using assms by (auto simp: find_row_None upd_where_def)
  then obtain z where z: "find_row (\<lambda>x. k x = k r) (upd_where (\<lambda>x. k x = k r) f t) = Some z" by blast
  from find_row_SomeD [OF z] have "z \<in> set (upd_where (\<lambda>x. k x = k r) f t)" "k z = k r" by auto
  then obtain y where "y \<in> set t" "z = (if k y = k r then f y else y)" by (auto simp: upd_where_def)
  with \<open>k z = k r\<close> have "\<exists>y. k y = k r \<and> z = f y" by (auto split: if_splits)
  with z True show ?thesis by (simp add: upsert_def)
next
  case False
  then have "find_row (\<lambda>x. k x = k r) t = None" by (force simp: find_row_None image_iff)
  with False show ?thesis by (simp add: upsert_def find_row_append)
qed

lemma upsert_fits:
  assumes "\<And>x. k x = k r \<Longrightarrow> k (f x) = k r" and "fits r" and "\<And>y. k y = k r \<Longrightarrow> fits (f y)"
  shows "\<exists>x. find_row (\<lambda>x. k x = k r) (upsert k f r t) = Some x \<and> fits x"
  using find_row_upsert [of k r f t] assms by blast

lemma image_upd_where: "(\<And>r. k (f r) = k r) \<Longrightarrow> k ` set (upd_where P f t) = k ` set t"
  unfolding upd_where_def set_map image_image by (rule image_cong) auto

end
