(* ===== verification/Schema.thy ===== *)
theory Schema
  imports Prelude
begin

text \<open>
  The two databases the components share, and the primitive operations on them.

  A table is the list of its rows, a row a record with the columns of the Rust \<open>FromRow\<close>
  struct (which mirror the migrations).  Two records hold the tables: \<open>tenant_db\<close> for the
  per-tenant database and \<open>control_db\<close> for the control database.

  Everything a process meets outside its own memory is a record \<open>env\<close> of functions indexed
  by the number of interactions so far: the clock, the outcome of each database round
  trip, what other sessions committed before it, which rows they hold locked, the
  random numbers drawn, and the monotonic clock.  One SQL statement, and one transaction, is one call of \<open>stmt\<close> (on
  the tenant database) or \<open>ctl_stmt\<close> (on the control database): other sessions may commit
  first, then the statement runs atomically, and it either reports its result, or fails
  having changed nothing, or fails to report although it was applied (the reply is lost).
  Theorems hold for every \<open>env\<close> unless they say otherwise.
\<close>

section \<open>Rows of the tenant database\<close>

record kill_switch =
  ks_id :: uuid
  ks_scope :: string
  ks_scope_key :: "string option"
  ks_on_queued :: string
  ks_engaged_by :: string
  ks_engaged_at :: timestamp
  ks_reason :: string
  ks_released_by :: "string option"
  ks_released_at :: "timestamp option"

record outbox_row =
  ob_comms_request_id :: uuid
  ob_created_at :: timestamp
  ob_channel :: string
  ob_class :: string
  ob_priority :: int
  ob_customer_id :: uuid
  ob_address_id :: uuid
  ob_producer_id :: uuid
  ob_campaign_id :: "string option"
  ob_next_attempt_at :: timestamp
  ob_expires_at :: "timestamp option"
  ob_cancelled_at :: "timestamp option"
  ob_attempts :: int
  ob_leased_until :: "timestamp option"

record comms_request_row =
  cr_tenant_id :: uuid
  cr_id :: uuid
  cr_created_at :: timestamp
  cr_customer_id :: uuid
  cr_channel :: string
  cr_class :: string
  cr_template_id :: string
  cr_template_version :: int
  cr_campaign_id :: "string option"
  cr_destination_hmac :: bytes
  cr_destination_ciphertext :: bytes
  cr_payload_ciphertext :: "bytes option"
  cr_producer_id :: uuid
  cr_scheduled_for :: "timestamp option"
  cr_expires_at :: "timestamp option"
  cr_final_status :: "string option"
  cr_finalized_at :: "timestamp option"

record comms_event_row =
  ev_comms_request_id :: uuid
  ev_customer_id :: uuid
  ev_occurred_at :: timestamp
  ev_event_type :: string
  ev_provider_ref :: string
  ev_provider_status :: "string option"
  ev_provider_payload_ciphertext :: "bytes option"

record idempotency_row =
  ik_producer_id :: uuid
  ik_key :: string
  ik_comms_request_id :: uuid
  ik_expires_at :: timestamp

record suppression_row =
  su_destination_hmac :: bytes
  su_reason :: string
  su_added_at :: timestamp
  su_review_at :: timestamp

record consent_row =
  co_address_id :: uuid
  co_class :: string
  co_opted_in :: bool
  co_source :: string
  co_updated_at :: timestamp

record customer_row =
  cu_id :: uuid
  cu_locale :: string
  cu_timezone :: string
  cu_provisional :: bool
  cu_source_system :: "string option"
  cu_source_updated_at :: "timestamp option"
  cu_created_at :: timestamp

record customer_external_id_row =
  cx_customer_id :: uuid
  cx_system :: string
  cx_external_id :: string

record customer_address_row =
  ca_id :: uuid
  ca_customer_id :: uuid
  ca_kind :: string
  ca_value_ciphertext :: bytes
  ca_value_hmac :: bytes
  ca_rank :: int
  ca_label :: "string option"
  ca_verified_at :: "timestamp option"
  ca_active_from :: timestamp
  ca_active_to :: "timestamp option"
  ca_source_updated_at :: timestamp

record customer_alias_row =
  al_old_customer_id :: uuid
  al_customer_id :: uuid
  al_merged_at :: timestamp

record customer_dek_row =
  dk_customer_id :: uuid
  dk_wrapped_dek :: string
  dk_created_at :: timestamp
  dk_shredded_at :: "timestamp option"

record template_row =
  te_template_id :: string
  te_version :: int
  te_channel :: string
  te_locale :: string
  te_body :: string
  te_approved_by :: string
  te_approved_at :: timestamp

record producer_quota_row =
  pq_producer_id :: uuid
  pq_channel :: string
  pq_class :: string
  pq_per_minute :: "int option"
  pq_per_day :: "int option"
  pq_enforcement :: string

record producer_quota_override_row =
  po_id :: uuid
  po_producer_id :: uuid
  po_channel :: string
  po_class :: string
  po_per_day :: int
  po_valid_from :: timestamp
  po_valid_to :: timestamp
  po_approved_by :: string
  po_reason :: string

record usage_row =
  us_producer_id :: uuid
  us_channel :: string
  us_class :: string
  us_granularity :: string
  us_window_start :: timestamp
  us_sent :: int
  us_blocked :: int

record orphan_event_row =
  or_id :: uuid
  or_received_at :: timestamp
  or_provider :: string
  or_provider_ref :: string
  or_occurred_at :: timestamp
  or_event_type :: string
  or_provider_status :: "string option"
  or_provider_payload_raw :: "string option"
  or_reconcile_attempts :: int

record webhook_receipt_row =
  wr_id :: uuid
  wr_received_at :: timestamp
  wr_provider :: string
  wr_provider_ref :: string
  wr_occurred_at :: timestamp
  wr_event_type :: string
  wr_provider_status :: "string option"
  wr_provider_payload_raw :: string

record producer_row =
  pr_id :: uuid
  pr_name :: string
  pr_cert_subject :: string
  pr_owner_team :: string
  pr_contact :: string
  pr_enabled :: bool
  pr_created_at :: timestamp

record tenant_config =
  tc_retention_years :: int
  tc_default_timezone :: string
  tc_default_locale :: string
  tc_schedule_horizon_days :: int
  tc_quota_day_boundary_tz :: string
  tc_verification_mode :: string
  tc_kill_switch_release_rate :: int
  tc_reconcile_attempts_cap :: int

record provider_config =
  pv_channel :: string
  pv_priority :: int
  pv_provider :: string
  pv_credential_path :: string
  pv_rate_limit_per_sec :: int

record quiet_hours_policy =
  qh_scope :: string
  qh_scope_key :: string
  qh_start_local :: int
  qh_end_local :: int

record access_audit_row =
  aa_id :: uuid
  aa_occurred_at :: timestamp
  aa_actor :: string
  aa_role :: string
  aa_route :: string
  aa_customer_id :: "uuid option"
  aa_query_params :: string

text \<open>\<open>tenant_config\<close> is a table of at most one row.\<close>

record tenant_db =
  t_kill_switch :: "kill_switch list"
  t_outbox :: "outbox_row list"
  t_comms_request :: "comms_request_row list"
  t_comms_event :: "comms_event_row list"
  t_idempotency :: "idempotency_row list"
  t_suppression :: "suppression_row list"
  t_consent :: "consent_row list"
  t_customer :: "customer_row list"
  t_customer_external_id :: "customer_external_id_row list"
  t_customer_address :: "customer_address_row list"
  t_customer_alias :: "customer_alias_row list"
  t_customer_dek :: "customer_dek_row list"
  t_template :: "template_row list"
  t_producer_quota :: "producer_quota_row list"
  t_producer_quota_override :: "producer_quota_override_row list"
  t_producer_usage :: "usage_row list"
  t_orphan_event :: "orphan_event_row list"
  t_webhook_receipt :: "webhook_receipt_row list"
  t_producer :: "producer_row list"
  t_tenant_config :: "tenant_config option"
  t_provider_config :: "provider_config list"
  t_quiet_hours_policy :: "quiet_hours_policy list"
  t_access_audit :: "access_audit_row list"

section \<open>Rows of the control database\<close>

record tenant_row =
  tn_id :: uuid
  tn_slug :: string
  tn_region :: string
  tn_database_name :: string
  tn_vault_mount :: string
  tn_webhook_token :: string
  tn_status :: string
  tn_created_at :: timestamp
  tn_vault_role_id :: "string option"
  tn_vault_pepper_wrapped :: "string option"
  tn_auth_enabled :: bool

record producer_cert_row =
  pc_cert_subject :: string
  pc_tenant_id :: uuid
  pc_producer_id :: uuid
  pc_enabled :: bool

record platform_kill_switch =
  pk_id :: uuid
  pk_scope :: string
  pk_tenant_id :: "uuid option"
  pk_engaged_by :: string
  pk_engaged_at :: timestamp
  pk_reason :: string
  pk_released_by :: "string option"
  pk_released_at :: "timestamp option"

text \<open>\<open>platform_audit.detail\<close> is a flat JSON object.\<close>

datatype json = JNull | JStr string | JUuid uuid | JInt int | JBool bool | JTime timestamp

primrec json_opt :: "string option \<Rightarrow> json" where
  "json_opt None = JNull"
| "json_opt (Some s) = JStr s"

record platform_audit_row =
  pa_id :: uuid
  pa_actor :: string
  pa_action :: string
  pa_tenant_id :: "uuid option"
  pa_detail :: "(string \<times> json) list"
  pa_at :: timestamp

record schema_version_row =
  sv_tenant_id :: uuid
  sv_version :: int
  sv_applied_at :: timestamp

record control_db =
  c_tenant :: "tenant_row list"
  c_producer_cert :: "producer_cert_row list"
  c_platform_kill_switch :: "platform_kill_switch list"
  c_platform_audit :: "platform_audit_row list"
  c_schema_version :: "schema_version_row list"

section \<open>The world outside the process\<close>

text \<open>\<open>sqlx::Error\<close>, as far as the callers distinguish it: a failed round trip, a missing row
  under \<open>fetch_one\<close>, a violated constraint (by name), a value out of its column's range, and
  the \<open>Configuration\<close> error the configuration commands build for a rejected input.  A panic
  (\<open>expect\<close>, \<open>assert_eq!\<close>) inside a function with this error type ends the call as well; it is
  the last constructor.\<close>

datatype sqlx_error =
    Io
  | RowNotFound
  | Constraint string
  | OutOfRange
  | Configuration string
  | Panic string

datatype fault = NoFault | NotApplied | ReplyLost

record env =
  e_clock :: "nat \<Rightarrow> timestamp"
  e_fault :: "nat \<Rightarrow> fault"
  e_interfere :: "nat \<Rightarrow> tenant_db \<Rightarrow> tenant_db"
  e_ctl_interfere :: "nat \<Rightarrow> control_db \<Rightarrow> control_db"
  e_locked :: "nat \<Rightarrow> uuid \<Rightarrow> bool"
  e_random :: "nat \<Rightarrow> nat"
  e_new_uuid :: "nat \<Rightarrow> uuid"
  e_instant :: "nat \<Rightarrow> int"

record world =
  w_db :: tenant_db
  w_ctl :: control_db
  w_tick :: nat

text \<open>One statement or one transaction on the tenant database.  The body sees the number of
  the interaction (for \<open>now()\<close> and for row locks) and the database, and yields either an error
  that leaves the database alone (a violated constraint aborts the transaction) or its
  result and the database after commit.\<close>

definition stmt :: "env \<Rightarrow> (nat \<Rightarrow> tenant_db \<Rightarrow> sqlx_error + 'a \<times> tenant_db)
    \<Rightarrow> ('z world_scheme, sqlx_error, 'a) io" where
  "stmt E f w = (let n = w_tick w; d = e_interfere E n (w_db w);
      w' = w\<lparr>w_tick := Suc n, w_db := d\<rparr> in
    case f n d of
      Inl e \<Rightarrow> (Inl e, w')
    | Inr (a, d') \<Rightarrow> (case e_fault E n of
          NoFault \<Rightarrow> (Inr a, w'\<lparr>w_db := d'\<rparr>)
        | NotApplied \<Rightarrow> (Inl Io, w')
        | ReplyLost \<Rightarrow> (Inl Io, w'\<lparr>w_db := d'\<rparr>)))"

definition ctl_stmt :: "env \<Rightarrow> (nat \<Rightarrow> control_db \<Rightarrow> sqlx_error + 'a \<times> control_db)
    \<Rightarrow> ('z world_scheme, sqlx_error, 'a) io" where
  "ctl_stmt E f w = (let n = w_tick w; d = e_ctl_interfere E n (w_ctl w);
      w' = w\<lparr>w_tick := Suc n, w_ctl := d\<rparr> in
    case f n d of
      Inl e \<Rightarrow> (Inl e, w')
    | Inr (a, d') \<Rightarrow> (case e_fault E n of
          NoFault \<Rightarrow> (Inr a, w'\<lparr>w_ctl := d'\<rparr>)
        | NotApplied \<Rightarrow> (Inl Io, w')
        | ReplyLost \<Rightarrow> (Inl Io, w'\<lparr>w_ctl := d'\<rparr>)))"

text \<open>\<open>INSERT\<close> into a table with a primary key: a duplicate key is a constraint violation.\<close>

definition ins_pk :: "string \<Rightarrow> ('r \<Rightarrow> 'k) \<Rightarrow> 'r \<Rightarrow> 'r list \<Rightarrow> sqlx_error + 'r list" where
  "ins_pk name k r t = (if k r \<in> set (map k t) then Inl (Constraint name) else Inr (t @ [r]))"

text \<open>A query changes nothing; a lost reply and a failed query are the same to it.\<close>

definition query :: "env \<Rightarrow> (nat \<Rightarrow> tenant_db \<Rightarrow> 'a) \<Rightarrow> ('z world_scheme, sqlx_error, 'a) io" where
  "query E f = stmt E (\<lambda>n d. Inr (f n d, d))"

definition ctl_query :: "env \<Rightarrow> (nat \<Rightarrow> control_db \<Rightarrow> 'a) \<Rightarrow> ('z world_scheme, sqlx_error, 'a) io" where
  "ctl_query E f = ctl_stmt E (\<lambda>n d. Inr (f n d, d))"

text \<open>A statement that always succeeds when it is run.\<close>

definition exec :: "env \<Rightarrow> (nat \<Rightarrow> tenant_db \<Rightarrow> tenant_db) \<Rightarrow> ('z world_scheme, sqlx_error, unit) io" where
  "exec E f = stmt E (\<lambda>n d. Inr ((), f n d))"

definition ctl_exec :: "env \<Rightarrow> (nat \<Rightarrow> control_db \<Rightarrow> control_db) \<Rightarrow> ('z world_scheme, sqlx_error, unit) io" where
  "ctl_exec E f = ctl_stmt E (\<lambda>n d. Inr ((), f n d))"

text \<open>\<open>Utc::now()\<close>, \<open>Uuid::new_v4()\<close> and \<open>random_range(0..=n)\<close>.\<close>

definition utc_now :: "env \<Rightarrow> ('z world_scheme, 'e, timestamp) io" where
  "utc_now E w = (Inr (e_clock E (w_tick w)), w\<lparr>w_tick := Suc (w_tick w)\<rparr>)"

definition new_uuid :: "env \<Rightarrow> ('z world_scheme, 'e, uuid) io" where
  "new_uuid E w = (Inr (e_new_uuid E (w_tick w)), w\<lparr>w_tick := Suc (w_tick w)\<rparr>)"

definition random_upto :: "env \<Rightarrow> int \<Rightarrow> ('z world_scheme, 'e, int) io" where
  "random_upto E n w = (Inr (int (e_random E (w_tick w)) mod (n + 1)), w\<lparr>w_tick := Suc (w_tick w)\<rparr>)"

text \<open>\<open>Instant::now()\<close>.\<close>

definition instant_now :: "env \<Rightarrow> ('z world_scheme, 'e, int) io" where
  "instant_now E w = (Inr (e_instant E (w_tick w)), w\<lparr>w_tick := Suc (w_tick w)\<rparr>)"

section \<open>Weakest preconditions of the primitives\<close>

lemma wp_stmt [wp_simps]:
  "wp (stmt E f) Q R w = (let n = w_tick w; d = e_interfere E n (w_db w);
      w' = w\<lparr>w_tick := Suc n, w_db := d\<rparr> in
    case f n d of
      Inl e \<Rightarrow> R e w'
    | Inr (a, d') \<Rightarrow> (case e_fault E n of
          NoFault \<Rightarrow> Q a (w'\<lparr>w_db := d'\<rparr>)
        | NotApplied \<Rightarrow> R Io w'
        | ReplyLost \<Rightarrow> R Io (w'\<lparr>w_db := d'\<rparr>)))"
  by (simp add: wp_def stmt_def Let_def split: sum.splits prod.splits fault.splits)

lemma wp_ctl_stmt [wp_simps]:
  "wp (ctl_stmt E f) Q R w = (let n = w_tick w; d = e_ctl_interfere E n (w_ctl w);
      w' = w\<lparr>w_tick := Suc n, w_ctl := d\<rparr> in
    case f n d of
      Inl e \<Rightarrow> R e w'
    | Inr (a, d') \<Rightarrow> (case e_fault E n of
          NoFault \<Rightarrow> Q a (w'\<lparr>w_ctl := d'\<rparr>)
        | NotApplied \<Rightarrow> R Io w'
        | ReplyLost \<Rightarrow> R Io (w'\<lparr>w_ctl := d'\<rparr>)))"
  by (simp add: wp_def ctl_stmt_def Let_def split: sum.splits prod.splits fault.splits)

lemma wp_query [wp_simps]:
  "wp (query E f) Q R w = (let n = w_tick w; d = e_interfere E n (w_db w);
      w' = w\<lparr>w_tick := Suc n, w_db := d\<rparr> in
    if e_fault E n = NoFault then Q (f n d) w' else R Io w')"
  by (simp add: query_def wp_stmt Let_def split: fault.splits)

lemma wp_ctl_query [wp_simps]:
  "wp (ctl_query E f) Q R w = (let n = w_tick w; d = e_ctl_interfere E n (w_ctl w);
      w' = w\<lparr>w_tick := Suc n, w_ctl := d\<rparr> in
    if e_fault E n = NoFault then Q (f n d) w' else R Io w')"
  by (simp add: ctl_query_def wp_ctl_stmt Let_def split: fault.splits)

lemma wp_exec [wp_simps]:
  "wp (exec E f) Q R w = (let n = w_tick w; d = e_interfere E n (w_db w);
      w' = w\<lparr>w_tick := Suc n, w_db := d\<rparr> in
    case e_fault E n of
      NoFault \<Rightarrow> Q () (w'\<lparr>w_db := f n d\<rparr>)
    | NotApplied \<Rightarrow> R Io w'
    | ReplyLost \<Rightarrow> R Io (w'\<lparr>w_db := f n d\<rparr>))"
  by (simp add: exec_def wp_stmt Let_def)

lemma wp_ctl_exec [wp_simps]:
  "wp (ctl_exec E f) Q R w = (let n = w_tick w; d = e_ctl_interfere E n (w_ctl w);
      w' = w\<lparr>w_tick := Suc n, w_ctl := d\<rparr> in
    case e_fault E n of
      NoFault \<Rightarrow> Q () (w'\<lparr>w_ctl := f n d\<rparr>)
    | NotApplied \<Rightarrow> R Io w'
    | ReplyLost \<Rightarrow> R Io (w'\<lparr>w_ctl := f n d\<rparr>))"
  by (simp add: ctl_exec_def wp_ctl_stmt Let_def)

lemma wp_utc_now [wp_simps]:
  "wp (utc_now E) Q R w = Q (e_clock E (w_tick w)) (w\<lparr>w_tick := Suc (w_tick w)\<rparr>)"
  by (simp add: wp_def utc_now_def)

lemma wp_instant_now [wp_simps]:
  "wp (instant_now E) Q R w = Q (e_instant E (w_tick w)) (w\<lparr>w_tick := Suc (w_tick w)\<rparr>)"
  by (simp add: wp_def instant_now_def)

lemma wp_new_uuid [wp_simps]:
  "wp (new_uuid E) Q R w = Q (e_new_uuid E (w_tick w)) (w\<lparr>w_tick := Suc (w_tick w)\<rparr>)"
  by (simp add: wp_def new_uuid_def)

lemma wp_random_upto [wp_simps]:
  "wp (random_upto E n) Q R w
   = Q (int (e_random E (w_tick w)) mod (n + 1)) (w\<lparr>w_tick := Suc (w_tick w)\<rparr>)"
  by (simp add: wp_def random_upto_def)

section \<open>Invariants of the database under concurrency\<close>

text \<open>A predicate on the tenant database that other sessions keep.  A theorem about one process
  that relies on it names it as a hypothesis.\<close>

definition db_stable :: "env \<Rightarrow> (tenant_db \<Rightarrow> bool) \<Rightarrow> bool" where
  "db_stable E P \<longleftrightarrow> (\<forall>n d. P d \<longrightarrow> P (e_interfere E n d))"

lemma stableD: "db_stable E P \<Longrightarrow> P d \<Longrightarrow> P (e_interfere E n d)"
  by (simp add: db_stable_def)

lemma stable_conj: "db_stable E P \<Longrightarrow> db_stable E P' \<Longrightarrow> db_stable E (\<lambda>d. P d \<and> P' d)"
  by (simp add: db_stable_def)

definition db_inv :: "(tenant_db \<Rightarrow> bool) \<Rightarrow> 'z world_scheme \<Rightarrow> bool" where
  "db_inv P w \<longleftrightarrow> P (w_db w)"

lemma keeps_dbD: "keeps (db_inv P) m \<Longrightarrow> P (w_db w) \<Longrightarrow> P (w_db (snd (m w)))"
  by (auto simp: keeps_def db_inv_def)

lemma keeps_stmt:
  assumes "db_stable E P" and "\<And>n d a d'. P d \<Longrightarrow> f n d = Inr (a, d') \<Longrightarrow> P d'"
  shows "keeps (db_inv P) (stmt E f)"
  by (rule wp_keeps)
    (auto simp: db_inv_def wp_simps Let_def stableD [OF assms(1)] split: sum.splits fault.splits
      dest: stableD [OF assms(1)] intro: assms(2))

lemma keeps_exec [keeps_intros]:
  assumes "db_stable E P" and "\<And>n d. P d \<Longrightarrow> P (f n d)"
  shows "keeps (db_inv P) (exec E f)"
  unfolding exec_def by (rule keeps_stmt) (auto simp: assms)

lemma keeps_query [keeps_intros]: "db_stable E P \<Longrightarrow> keeps (db_inv P) (query E f)"
  unfolding query_def by (rule keeps_stmt) auto

lemma keeps_ctl_stmt [keeps_intros]: "keeps (db_inv P) (ctl_stmt E f)"
  by (rule wp_keeps) (auto simp: db_inv_def wp_simps Let_def split: sum.splits fault.splits)

lemma keeps_ctl_exec [keeps_intros]: "keeps (db_inv P) (ctl_exec E f)"
  unfolding ctl_exec_def by (rule keeps_ctl_stmt)

lemma keeps_ctl_query [keeps_intros]: "keeps (db_inv P) (ctl_query E f)"
  unfolding ctl_query_def by (rule keeps_ctl_stmt)

lemma keeps_utc_now [keeps_intros]: "keeps (db_inv P) (utc_now E)"
  by (rule wp_keeps) (simp add: db_inv_def wp_simps)

lemma keeps_instant_now [keeps_intros]: "keeps (db_inv P) (instant_now E)"
  by (rule wp_keeps) (simp add: db_inv_def wp_simps)

lemma keeps_new_uuid [keeps_intros]: "keeps (db_inv P) (new_uuid E)"
  by (rule wp_keeps) (simp add: db_inv_def wp_simps)

lemma keeps_random_upto [keeps_intros]: "keeps (db_inv P) (random_upto E n)"
  by (rule wp_keeps) (simp add: db_inv_def wp_simps)

text \<open>The same for the control database.\<close>

definition ctl_stable :: "env \<Rightarrow> (control_db \<Rightarrow> bool) \<Rightarrow> bool" where
  "ctl_stable E P \<longleftrightarrow> (\<forall>n c. P c \<longrightarrow> P (e_ctl_interfere E n c))"

definition ctl_inv :: "(control_db \<Rightarrow> bool) \<Rightarrow> 'z world_scheme \<Rightarrow> bool" where
  "ctl_inv P w \<longleftrightarrow> P (w_ctl w)"

lemma ctl_keeps_stmt:
  assumes "ctl_stable E P" and "\<And>n c a c'. P c \<Longrightarrow> f n c = Inr (a, c') \<Longrightarrow> P c'"
  shows "keeps (ctl_inv P) (ctl_stmt E f)"
proof -
  have st: "P (e_ctl_interfere E n c)" if "P c" for n c using assms(1) that by (simp add: ctl_stable_def)
  show ?thesis
    by (rule wp_keeps) (auto simp: ctl_inv_def wp_simps Let_def st split: sum.splits fault.splits dest: st intro: assms(2))
qed

lemma ctl_keeps_exec [keeps_intros]:
  assumes "ctl_stable E P" and "\<And>n c. P c \<Longrightarrow> P (f n c)"
  shows "keeps (ctl_inv P) (ctl_exec E f)"
  unfolding ctl_exec_def by (rule ctl_keeps_stmt) (auto simp: assms)

lemma ctl_keeps_query [keeps_intros]: "ctl_stable E P \<Longrightarrow> keeps (ctl_inv P) (ctl_query E f)"
  unfolding ctl_query_def by (rule ctl_keeps_stmt) auto

lemma ctl_keeps_tenant_side [keeps_intros]:
  "keeps (ctl_inv P) (stmt E f)" "keeps (ctl_inv P) (exec E g)" "keeps (ctl_inv P) (query E h)"
  by (rule wp_keeps, auto simp: ctl_inv_def wp_simps Let_def split: sum.splits fault.splits)+

lemma ctl_keeps_draws [keeps_intros]:
  "keeps (ctl_inv P) (utc_now E)" "keeps (ctl_inv P) (instant_now E)" "keeps (ctl_inv P) (new_uuid E)"
  "keeps (ctl_inv P) (random_upto E n)"
  by (rule wp_keeps, simp add: ctl_inv_def wp_simps)+

text \<open>Errors of the primitives: a failed round trip, or what the body of a statement raises.\<close>

lemma fails_stmt:
  assumes "P Io" and "\<And>n d e. f n d = Inl e \<Longrightarrow> P e"
  shows "fails_with P (stmt E f)"
  using assms by (auto simp: fails_with_def wp_simps Let_def split: sum.splits fault.splits)

lemma fails_query [fails_intros]: "P Io \<Longrightarrow> fails_with P (query E f)"
  unfolding query_def by (rule fails_stmt) simp_all

lemma fails_exec [fails_intros]: "P Io \<Longrightarrow> fails_with P (exec E f)"
  unfolding exec_def by (rule fails_stmt) simp_all

lemma fails_ctl_query [fails_intros]: "P Io \<Longrightarrow> fails_with P (ctl_query E f)"
  by (simp add: fails_with_def wp_simps Let_def)

lemma fails_clock [fails_intros]:
  "fails_with P (utc_now E)" "fails_with P (new_uuid E)" "fails_with P (instant_now E)"
  by (simp_all add: fails_with_def wp_simps)

section \<open>A quiet environment\<close>

text \<open>An environment in which nothing fails and no other session writes; the witnesses run in
  it, and so do the lemmas on the functional behaviour of an undisturbed operation.\<close>

definition quiet :: "env \<Rightarrow> bool" where
  "quiet E \<longleftrightarrow> (\<forall>n. e_fault E n = NoFault) \<and> (\<forall>n d. e_interfere E n d = d)
     \<and> (\<forall>n d. e_ctl_interfere E n d = d) \<and> (\<forall>n k. \<not> e_locked E n k)"

definition quiet_env :: "timestamp \<Rightarrow> env" where
  "quiet_env t = \<lparr>e_clock = \<lambda>_. t, e_fault = \<lambda>_. NoFault, e_interfere = \<lambda>_ d. d,
     e_ctl_interfere = \<lambda>_ d. d, e_locked = \<lambda>_ _. False, e_random = \<lambda>_. 0,
     e_new_uuid = \<lambda>n. word_of_nat n, e_instant = \<lambda>_. 0\<rparr>"

lemma quiet_quiet_env [simp]: "quiet (quiet_env t)"
  by (simp add: quiet_def quiet_env_def)

lemma quietD [simp]:
  assumes "quiet E"
  shows "e_fault E n = NoFault" "e_interfere E n d = d" "e_ctl_interfere E n c = c"
    "\<not> e_locked E n k"
  using assms by (auto simp: quiet_def)

lemma quiet_stable: "quiet E \<Longrightarrow> db_stable E P"
  by (simp add: db_stable_def)

lemma quiet_env_sel [simp]:
  "e_clock (quiet_env t) n = t" "e_random (quiet_env t) n = 0"
  "e_new_uuid (quiet_env t) n = word_of_nat n" "e_instant (quiet_env t) n = 0"
  by (simp_all add: quiet_env_def)

text \<open>An empty database, the starting point of the concrete runs.\<close>

definition empty_db :: tenant_db where
  "empty_db = \<lparr>t_kill_switch = [], t_outbox = [], t_comms_request = [], t_comms_event = [],
     t_idempotency = [], t_suppression = [], t_consent = [], t_customer = [],
     t_customer_external_id = [], t_customer_address = [], t_customer_alias = [],
     t_customer_dek = [], t_template = [], t_producer_quota = [],
     t_producer_quota_override = [], t_producer_usage = [], t_orphan_event = [],
     t_webhook_receipt = [], t_producer = [], t_tenant_config = None, t_provider_config = [],
     t_quiet_hours_policy = [], t_access_audit = []\<rparr>"

definition empty_ctl :: control_db where
  "empty_ctl = \<lparr>c_tenant = [], c_producer_cert = [], c_platform_kill_switch = [],
     c_platform_audit = [], c_schema_version = []\<rparr>"

end
