(* ===== verification/PlatformAudit.thy ===== *)
theory PlatformAudit
  imports Schema
begin

text \<open>
  The control database's audit trail (\<open>platform_audit.rs\<close>): one append-only row per outcome of
  every administrative action, written either on its own (\<open>record\<close>) or inside the
  transaction of the action it describes (\<open>record_tx\<close>).
\<close>

definition record_tx :: "uuid \<Rightarrow> timestamp \<Rightarrow> string \<Rightarrow> string \<Rightarrow> uuid option \<Rightarrow> (string \<times> json) list
    \<Rightarrow> control_db \<Rightarrow> sqlx_error + control_db" where
  "record_tx fresh now actor action tenant detail c =
     map_sum id (\<lambda>t. c\<lparr>c_platform_audit := t\<rparr>)
       (ins_pk ''platform_audit_pkey'' pa_id
         \<lparr>pa_id = fresh, pa_actor = actor, pa_action = action, pa_tenant_id = tenant,
          pa_detail = detail, pa_at = now\<rparr> (c_platform_audit c))"

definition audit_record :: "env \<Rightarrow> string \<Rightarrow> string \<Rightarrow> uuid option \<Rightarrow> (string \<times> json) list
    \<Rightarrow> ('z world_scheme, sqlx_error, unit) io" where
  "audit_record E actor action tenant detail =
     bindE (new_uuid E) (\<lambda>fresh. bindE (utc_now E) (\<lambda>now.
       ctl_stmt E (\<lambda>_ c. map_sum id (Pair ()) (record_tx fresh now actor action tenant detail c))))"

text \<open>Both writers only ever append one row, and leave every other control table alone.\<close>

lemma record_tx_appends:
  "record_tx fresh now actor action tenant detail c = Inr c' \<Longrightarrow>
   c' = c\<lparr>c_platform_audit := c_platform_audit c @
     [\<lparr>pa_id = fresh, pa_actor = actor, pa_action = action, pa_tenant_id = tenant,
       pa_detail = detail, pa_at = now\<rparr>]\<rparr>"
  by (auto simp: record_tx_def ins_pk_def split: if_splits)

lemma keeps_audit_record [keeps_intros]: "keeps (db_inv P) (audit_record E actor action tenant detail)"
  unfolding audit_record_def by (intro keeps_intros)

text \<open>A property of the control database that does not look at the audit trail.\<close>

definition ignores_audit :: "(control_db \<Rightarrow> bool) \<Rightarrow> bool" where
  "ignores_audit P \<longleftrightarrow> (\<forall>c t. P c \<longrightarrow> P (c\<lparr>c_platform_audit := t\<rparr>))"

lemma ctl_keeps_audit_record [keeps_intros]:
  assumes "ctl_stable E P" and "ignores_audit P"
  shows "keeps (ctl_inv P) (audit_record E actor action tenant detail)"
  unfolding audit_record_def
  by (intro keeps_intros ctl_keeps_stmt assms(1))
    (use assms(2) in \<open>auto simp: ignores_audit_def record_tx_def ins_pk_def split: if_splits\<close>)

text \<open>Writing the audit row never touches the tenant database beyond what other sessions do.\<close>

lemma audit_record_db: "w_db (snd (audit_record E actor action tenant detail w)) = w_db w"
proof -
  have "keeps (db_inv (\<lambda>d. d = w_db w)) (audit_record E actor action tenant detail)"
    by (rule keeps_audit_record)
  from keepsD [OF this, of w] show ?thesis by (simp add: db_inv_def)
qed

lemma wp_audit_record_db:
  assumes "\<And>w'. w_db w' = w_db w \<Longrightarrow> Q () w'"
    and "\<And>e w'. w_db w' = w_db w \<Longrightarrow> e = Io \<or> (\<exists>c. e = Constraint c) \<Longrightarrow> R e w'"
  shows "wp (audit_record E actor action tenant detail) Q R w"
proof -
  have "wp (audit_record E actor action tenant detail) (\<lambda>_ _. True)
      (\<lambda>e _. e = Io \<or> (\<exists>c. e = Constraint c)) w"
    by (auto simp: audit_record_def wp_simps Let_def record_tx_def ins_pk_def
        split: sum.splits fault.splits if_splits)
  with audit_record_db [of E actor action tenant detail w] assms show ?thesis
    by (auto simp: wp_def split: prod.splits sum.splits)
qed

end
