(* ===== verification/KillSwitch.thy ===== *)
theory KillSwitch
  imports PlatformAudit
begin

text \<open>
  Tenant kill switches (\<open>kill_switch/model.rs\<close>, \<open>repo.rs\<close>, \<open>configure.rs\<close>): what a switch
  matches, the live switches of a tenant, the blast radius an operator is shown before
  engaging, and the engage and release operations with their audit rows.

  \<open>Uuid::parse_str\<close> belongs to the \<open>uuid\<close> crate and is the parameter \<open>pu\<close> of every definition
  that reads a producer id out of a \<open>scope_key\<close>.
\<close>

section \<open>The model\<close>

abbreviation GLOBAL :: string where "GLOBAL \<equiv> ''global''"
abbreviation CHANNEL :: string where "CHANNEL \<equiv> ''channel''"
abbreviation PRODUCER :: string where "PRODUCER \<equiv> ''producer''"
abbreviation PRODUCER_CHANNEL :: string where "PRODUCER_CHANNEL \<equiv> ''producer_channel''"
abbreviation CAMPAIGN :: string where "CAMPAIGN \<equiv> ''campaign''"

abbreviation HOLD :: string where "HOLD \<equiv> ''hold''"
abbreviation DISCARD :: string where "DISCARD \<equiv> ''discard''"

type_synonym uuid_parser = "string \<Rightarrow> uuid option"

definition split_producer_channel :: "uuid_parser \<Rightarrow> string \<Rightarrow> (uuid \<times> string) option" where
  "split_producer_channel pu scope_key =
     (case split_once CHR '':'' scope_key of
        None \<Rightarrow> None
      | Some (producer, channel) \<Rightarrow>
          (case pu producer of None \<Rightarrow> None | Some producer_id \<Rightarrow> Some (producer_id, channel)))"

definition is_active :: "kill_switch \<Rightarrow> bool" where
  "is_active s \<longleftrightarrow> ks_released_at s = None"

definition switch_producer_id :: "uuid_parser \<Rightarrow> kill_switch \<Rightarrow> uuid option" where
  "switch_producer_id pu s = (case ks_scope_key s of None \<Rightarrow> None | Some k \<Rightarrow> pu k)"

definition producer_channel_parts :: "uuid_parser \<Rightarrow> kill_switch \<Rightarrow> (uuid \<times> string) option" where
  "producer_channel_parts pu s =
     (case ks_scope_key s of None \<Rightarrow> None | Some k \<Rightarrow> split_producer_channel pu k)"

definition matches :: "uuid_parser \<Rightarrow> kill_switch \<Rightarrow> string \<Rightarrow> uuid \<Rightarrow> string option \<Rightarrow> bool" where
  "matches pu s channel producer_id campaign_id =
     (if ks_scope s = GLOBAL then True
      else if ks_scope s = CHANNEL then ks_scope_key s = Some channel
      else if ks_scope s = PRODUCER then
        (case switch_producer_id pu s of None \<Rightarrow> False | Some i \<Rightarrow> i = producer_id)
      else if ks_scope s = PRODUCER_CHANNEL then
        (case producer_channel_parts pu s of None \<Rightarrow> False
         | Some (i, ch) \<Rightarrow> i = producer_id \<and> ch = channel)
      else if ks_scope s = CAMPAIGN then campaign_id \<noteq> None \<and> ks_scope_key s = campaign_id
      else False)"

text \<open>A switch against an outbox row.\<close>

definition matches_row :: "uuid_parser \<Rightarrow> kill_switch \<Rightarrow> outbox_row \<Rightarrow> bool" where
  "matches_row pu s r = matches pu s (ob_channel r) (ob_producer_id r) (ob_campaign_id r)"

section \<open>Reads\<close>

definition list_active :: "env \<Rightarrow> ('z world_scheme, sqlx_error, kill_switch list) io" where
  "list_active E = query E (\<lambda>_ d. filter is_active (t_kill_switch d))"

text \<open>The \<open>WHERE\<close> clause \<open>blast_radius\<close> assembles for a scope; \<open>None\<close> where it returns no rows
  without asking the database.\<close>

definition scope_filter :: "uuid_parser \<Rightarrow> string \<Rightarrow> string option \<Rightarrow> (outbox_row \<Rightarrow> bool) option" where
  "scope_filter pu scope scope_key =
     (if scope = GLOBAL then Some (\<lambda>_. True)
      else if scope = CHANNEL then
        (case scope_key of None \<Rightarrow> None | Some channel \<Rightarrow> Some (\<lambda>r. ob_channel r = channel))
      else if scope = PRODUCER then
        (case (case scope_key of None \<Rightarrow> None | Some k \<Rightarrow> pu k) of None \<Rightarrow> None
         | Some producer_id \<Rightarrow> Some (\<lambda>r. ob_producer_id r = producer_id))
      else if scope = PRODUCER_CHANNEL then
        (case (case scope_key of None \<Rightarrow> None | Some k \<Rightarrow> split_producer_channel pu k) of None \<Rightarrow> None
         | Some (producer_id, channel) \<Rightarrow>
             Some (\<lambda>r. ob_producer_id r = producer_id \<and> ob_channel r = channel))
      else if scope = CAMPAIGN then
        (case scope_key of None \<Rightarrow> None
         | Some campaign_id \<Rightarrow> Some (\<lambda>r. ob_campaign_id r = Some campaign_id))
      else None)"

text \<open>\<open>SELECT class, count(*) ... GROUP BY class\<close>.\<close>

definition count_by_class :: "outbox_row list \<Rightarrow> (string \<times> nat) list" where
  "count_by_class rows = map (\<lambda>c. (c, length (filter (\<lambda>r. ob_class r = c) rows)))
     (remdups (map ob_class rows))"

definition blast_radius :: "env \<Rightarrow> uuid_parser \<Rightarrow> string \<Rightarrow> string option
    \<Rightarrow> ('z world_scheme, sqlx_error, (string \<times> nat) list) io" where
  "blast_radius E pu scope scope_key =
     (case scope_filter pu scope scope_key of
        None \<Rightarrow> ret []
      | Some p \<Rightarrow> query E (\<lambda>_ d. count_by_class
          (filter (\<lambda>r. ob_cancelled_at r = None \<and> p r) (t_outbox d))))"

section \<open>Engage and release\<close>

datatype configure_error = CE_Database sqlx_error | AlreadyEngaged

definition coalesce_key :: "string option \<Rightarrow> string" where
  "coalesce_key k = (case k of None \<Rightarrow> '''' | Some s \<Rightarrow> s)"

definition valid_scope :: "string \<Rightarrow> bool" where
  "valid_scope s \<longleftrightarrow> s = GLOBAL \<or> s = CHANNEL \<or> s = PRODUCER \<or> s = PRODUCER_CHANNEL \<or> s = CAMPAIGN"

definition valid_on_queued :: "string \<Rightarrow> bool" where
  "valid_on_queued q \<longleftrightarrow> q = HOLD \<or> q = DISCARD"

text \<open>The unique index on \<open>(scope, COALESCE(scope_key, '')) WHERE released_at IS NULL\<close>.\<close>

definition live_conflict :: "kill_switch \<Rightarrow> kill_switch list \<Rightarrow> bool" where
  "live_conflict s t \<longleftrightarrow> (\<exists>x \<in> set t. is_active x \<and> ks_scope x = ks_scope s
     \<and> coalesce_key (ks_scope_key x) = coalesce_key (ks_scope_key s))"

abbreviation ALREADY_ENGAGED_CONSTRAINT :: string where
  "ALREADY_ENGAGED_CONSTRAINT \<equiv> ''kill_switch_scope_coalesce_idx''"

definition insert_switch :: "kill_switch \<Rightarrow> tenant_db \<Rightarrow> sqlx_error + unit \<times> tenant_db" where
  "insert_switch s d =
     (if ks_id s \<in> set (map ks_id (t_kill_switch d)) then Inl (Constraint ''kill_switch_pkey'')
      else if live_conflict s (t_kill_switch d) then Inl (Constraint ALREADY_ENGAGED_CONSTRAINT)
      else Inr ((), d\<lparr>t_kill_switch := t_kill_switch d @ [s]\<rparr>))"

definition audit_engage :: "env \<Rightarrow> string \<Rightarrow> uuid \<Rightarrow> string \<Rightarrow> string option \<Rightarrow> string \<Rightarrow> string \<Rightarrow> string
    \<Rightarrow> ('z world_scheme, sqlx_error, unit) io" where
  "audit_engage E actor tenant_id scope scope_key on_queued reason outcome =
     audit_record E actor ''kill_switch.engage'' (Some tenant_id)
       [(''scope'', JStr scope), (''scope_key'', json_opt scope_key),
        (''on_queued'', JStr on_queued), (''reason'', JStr reason), (''outcome'', JStr outcome)]"

definition engage :: "env \<Rightarrow> uuid \<Rightarrow> string \<Rightarrow> string option \<Rightarrow> string \<Rightarrow> string \<Rightarrow> string
    \<Rightarrow> ('z world_scheme, configure_error, uuid) io" where
  "engage E tenant_id scope scope_key on_queued reason actor =
    (if \<not> valid_scope scope \<or> \<not> valid_on_queued on_queued then
       thenE (map_err CE_Database
               (audit_engage E actor tenant_id scope scope_key on_queued reason ''rejected''))
         (throw (CE_Database (Configuration
            (if \<not> valid_scope scope then ''unrecognised kill_switch scope''
             else ''unrecognised kill_switch on_queued value''))))
     else
       bindE (new_uuid E) (\<lambda>new.
       bindE (attempt (stmt E (\<lambda>n. insert_switch
           \<lparr>ks_id = new, ks_scope = scope, ks_scope_key = scope_key, ks_on_queued = on_queued,
            ks_engaged_by = actor, ks_engaged_at = e_clock E n, ks_reason = reason,
            ks_released_by = None, ks_released_at = None\<rparr>))) (\<lambda>result.
       case result of
         Inr _ \<Rightarrow> thenE (map_err CE_Database
                    (audit_engage E actor tenant_id scope scope_key on_queued reason ''engaged''))
                  (ret new)
       | Inl e \<Rightarrow>
           (if e = Constraint ALREADY_ENGAGED_CONSTRAINT then
              thenE (map_err CE_Database
                  (audit_engage E actor tenant_id scope scope_key on_queued reason ''already_engaged''))
                (throw AlreadyEngaged)
            else throw (CE_Database e)))))"

definition release_switch :: "uuid \<Rightarrow> string \<Rightarrow> timestamp \<Rightarrow> tenant_db \<Rightarrow> bool \<times> tenant_db" where
  "release_switch i actor now d =
     (\<exists>s \<in> set (t_kill_switch d). ks_id s = i \<and> is_active s,
      d\<lparr>t_kill_switch := upd_where (\<lambda>s. ks_id s = i \<and> is_active s)
          (\<lambda>s. s\<lparr>ks_released_by := Some actor, ks_released_at := Some now\<rparr>) (t_kill_switch d)\<rparr>)"

definition release :: "env \<Rightarrow> uuid \<Rightarrow> uuid \<Rightarrow> string
    \<Rightarrow> ('z world_scheme, configure_error, string) io" where
  "release E tenant_id i actor =
     map_err CE_Database
      (bindE (stmt E (\<lambda>n d. Inr (release_switch i actor (e_clock E n) d))) (\<lambda>released.
       let outcome = (if released then ''released'' else ''idempotent'') in
       thenE (audit_record E actor ''kill_switch.release'' (Some tenant_id)
                [(''id'', JUuid i), (''outcome'', JStr outcome)])
         (ret outcome)))"

section \<open>Facts about matching\<close>

text \<open>The documented key format \<open>"<producer_id>:<channel>"\<close> is read back as written.\<close>

lemma split_producer_channel_format:
  assumes "CHR '':'' \<notin> set p" and "pu p = Some i"
  shows "split_producer_channel pu (p @ CHR '':'' # channel) = Some (i, channel)"
proof -
  have "split_once CHR '':'' (p @ CHR '':'' # channel) = Some (p, channel)"
    using assms(1) by (simp add: split_once_Some)
  with assms(2) show ?thesis by (simp add: split_producer_channel_def)
qed

text \<open>The clause \<open>blast_radius\<close> assembles selects exactly the rows a switch of that scope matches.\<close>

lemma scope_filter_matches:
  assumes "ks_scope s = scope" and "ks_scope_key s = scope_key"
  shows "(case scope_filter pu scope scope_key of None \<Rightarrow> False | Some p \<Rightarrow> p r) = matches_row pu s r"
  using assms by (auto simp: scope_filter_def matches_row_def matches_def switch_producer_id_def
      producer_channel_parts_def split: option.splits)

lemma map_of_count_by_class:
  "map_of (count_by_class rows) c =
     (let n = length (filter (\<lambda>r. ob_class r = c) rows) in if n = 0 then None else Some n)"
proof -
  let ?f = "\<lambda>c. length (filter (\<lambda>r. ob_class r = c) rows)"
  have "map_of (map (\<lambda>c. (c, ?f c)) cs) c = (if c \<in> set cs then Some (?f c) else None)" for cs
    by (induction cs) auto
  moreover have "c \<in> ob_class ` set rows \<longleftrightarrow> ?f c \<noteq> 0"
    by (auto simp: filter_empty_conv)
  ultimately show ?thesis by (simp add: count_by_class_def Let_def)
qed

section \<open>The live-switch invariant\<close>

definition switch_key :: "kill_switch \<Rightarrow> string \<times> string" where
  "switch_key s = (ks_scope s, coalesce_key (ks_scope_key s))"

definition switches_ok :: "tenant_db \<Rightarrow> bool" where
  "switches_ok d \<longleftrightarrow> distinct (map ks_id (t_kill_switch d))
     \<and> distinct (map switch_key (filter is_active (t_kill_switch d)))"

lemma live_conflict_key:
  "live_conflict s t \<longleftrightarrow> switch_key s \<in> switch_key ` set (filter is_active t)"
  by (auto simp: live_conflict_def switch_key_def image_iff)

lemma insert_switch_ok:
  "switches_ok d \<Longrightarrow> insert_switch s d = Inr (u, d') \<Longrightarrow> switches_ok d'"
  by (auto simp: insert_switch_def switches_ok_def live_conflict_key split: if_splits)

lemma release_upd_active:
  "filter is_active (upd_where (\<lambda>s. ks_id s = i \<and> is_active s)
      (\<lambda>s. s\<lparr>ks_released_by := Some a, ks_released_at := Some t\<rparr>) ss)
   = filter (\<lambda>s. is_active s \<and> ks_id s \<noteq> i) ss"
  by (induction ss) (auto simp: is_active_def)

lemma release_switch_ok: "switches_ok d \<Longrightarrow> switches_ok (snd (release_switch i actor now d))"
  by (simp add: switches_ok_def release_switch_def release_upd_active map_key_upd_where
      distinct_map_filter flip: filter_filter)

lemma keeps_switches_ok_engage [keeps_intros]:
  "db_stable E switches_ok \<Longrightarrow> keeps (db_inv switches_ok) (engage E tenant scope key oq reason actor)"
  unfolding engage_def audit_engage_def
  by (intro keeps_intros keeps_stmt) (assumption | erule (1) insert_switch_ok)+

lemma keeps_switches_ok_release [keeps_intros]:
  "db_stable E switches_ok \<Longrightarrow> keeps (db_inv switches_ok) (release E tenant i actor)"
  unfolding release_def Let_def
  by (intro keeps_intros keeps_stmt) (auto dest: release_switch_ok [of _ i actor] simp: release_switch_def)

section \<open>Properties\<close>

text \<open>The blast radius an operator is shown before engaging a switch counts, per message class,
  exactly the queued and not cancelled rows that switch would match; a class with no such row
  is absent.  A malformed scope key counts nothing, as it matches nothing.\<close>

theorem blast_radius_counts_matches:
  "wp (blast_radius E pu (ks_scope s) (ks_scope_key s))
     (\<lambda>counts w'. \<forall>c. map_of counts c =
        (let n = length (filter (\<lambda>r. ob_class r = c \<and> ob_cancelled_at r = None \<and> matches_row pu s r)
                   (t_outbox (w_db w')))
         in if n = 0 then None else Some n))
     (\<lambda>e _. e = Io) w"
proof (cases "scope_filter pu (ks_scope s) (ks_scope_key s)")
  case None
  then have "\<not> matches_row pu s r" for r
    using scope_filter_matches [where s = s and pu = pu and r = r, OF refl refl] by simp
  with None show ?thesis by (simp add: blast_radius_def wp_simps)
next
  case (Some p)
  then have "p = matches_row pu s"
    using scope_filter_matches [where s = s and pu = pu, OF refl refl] by (simp add: fun_eq_iff)
  with Some show ?thesis
    by (auto simp: blast_radius_def wp_simps map_of_count_by_class Let_def filter_filter conj_ac)
qed

text \<open>Engaging a switch.  Success means scope and queue policy are recognised and the table gained
  exactly one live row with the requested fields, where no live row covered the same scope and
  key.  \<open>AlreadyEngaged\<close> means such a row exists and the table is as the other sessions left it.
  A rejected input touches no tenant table at all.  Any other error is the database's.\<close>

theorem engage_outcome:
  "wp (engage E tenant scope key oq reason actor)
     (\<lambda>i w'. valid_scope scope \<and> valid_on_queued oq \<and>
        (\<exists>d s. w_db w' = d\<lparr>t_kill_switch := t_kill_switch d @ [s]\<rparr> \<and> \<not> live_conflict s (t_kill_switch d)
           \<and> d = e_interfere E (Suc (w_tick w)) (w_db w) \<and> ks_id s = i \<and> is_active s
           \<and> ks_scope s = scope \<and> ks_scope_key s = key \<and> ks_on_queued s = oq \<and> ks_engaged_by s = actor
           \<and> ks_reason s = reason))
     (\<lambda>e w'. case e of
          AlreadyEngaged \<Rightarrow> w_db w' = e_interfere E (Suc (w_tick w)) (w_db w)
            \<and> (\<exists>s \<in> set (t_kill_switch (w_db w')). is_active s \<and> ks_scope s = scope
                  \<and> coalesce_key (ks_scope_key s) = coalesce_key key)
        | CE_Database x \<Rightarrow>
            (if valid_scope scope \<and> valid_on_queued oq then x = Io \<or> (\<exists>c. x = Constraint c)
             else w_db w' = w_db w)) w"
proof (cases "valid_scope scope \<and> valid_on_queued oq")
  case False
  then show ?thesis
    by (auto simp: engage_def wp_simps audit_engage_def intro!: wp_audit_record_db)
next
  case True
  then show ?thesis
    by (auto simp: engage_def wp_simps Let_def insert_switch_def live_conflict_def audit_engage_def
        split: sum.splits fault.splits intro!: wp_audit_record_db)
      (auto simp: is_active_def)
qed

text \<open>The table of switches keeps its two uniqueness guarantees, distinct ids and at most one live
  row per scope and key, under engage and release in any environment whose other sessions
  keep them.\<close>

theorem live_switches_unique:
  assumes "db_stable E switches_ok" and "switches_ok (w_db w)"
  shows "switches_ok (w_db (snd (engage E tenant scope key oq reason actor w)))
     \<and> switches_ok (w_db (snd (release E tenant i actor w)))"
  using assms(1) by (intro conjI keeps_dbD [where P = switches_ok and w = w, OF _ assms(2)]) (auto intro!: keeps_intros)

definition sample_world :: world where
  "sample_world = \<lparr>w_db = empty_db, w_ctl = empty_ctl, w_tick = 0\<rparr>"

theorem live_switches_unique_witness:
  "switches_ok (w_db (snd (engage (quiet_env 0) 1 GLOBAL None HOLD ''why'' ''ops'' sample_world)))
   \<and> switches_ok (w_db (snd (release (quiet_env 0) 1 2 ''ops'' sample_world)))"
  by (rule live_switches_unique)
    (simp_all add: quiet_stable sample_world_def empty_db_def switches_ok_def)

end
