(* ===== verification/Tenant.thy ===== *)
theory Tenant
  imports PlatformAudit
begin

text \<open>
  The tenant registry in the control database (\<open>tenant/repo.rs\<close>): lookups by slug, id and
  webhook token, the lifecycle status, and the check that a process and its control
  database agree on their region.
\<close>

abbreviation PROVISIONING :: string where "PROVISIONING \<equiv> ''provisioning''"
abbreviation ACTIVE :: string where "ACTIVE \<equiv> ''active''"
abbreviation SUSPENDED :: string where "SUSPENDED \<equiv> ''suspended''"
abbreviation OFFBOARDING_ARCHIVE :: string where "OFFBOARDING_ARCHIVE \<equiv> ''offboarding_archive''"
abbreviation OFFBOARDING_DESTROY :: string where "OFFBOARDING_DESTROY \<equiv> ''offboarding_destroy''"

section \<open>Operations\<close>

definition find_by_slug :: "env \<Rightarrow> string \<Rightarrow> ('z world_scheme, sqlx_error, tenant_row option) io" where
  "find_by_slug E slug = ctl_query E (\<lambda>_ c. find_row (\<lambda>t. tn_slug t = slug) (c_tenant c))"

definition assert_region :: "env \<Rightarrow> string \<Rightarrow> ('z world_scheme, sqlx_error, unit) io" where
  "assert_region E region =
     bindE (ctl_query E (\<lambda>_ c. find_row (\<lambda>t. tn_region t \<noteq> region) (c_tenant c))) (\<lambda>mismatch.
       case mismatch of None \<Rightarrow> ret () | Some t \<Rightarrow> throw (Configuration ''region mismatch''))"

definition find_tenant :: "uuid \<Rightarrow> control_db \<Rightarrow> tenant_row option" where
  "find_tenant i c = find_row (\<lambda>t. tn_id t = i) (c_tenant c)"

definition find_by_id :: "env \<Rightarrow> uuid \<Rightarrow> ('z world_scheme, sqlx_error, tenant_row option) io" where
  "find_by_id E i = ctl_query E (\<lambda>_. find_tenant i)"

definition find_by_webhook_token :: "env \<Rightarrow> string \<Rightarrow> ('z world_scheme, sqlx_error, tenant_row option) io" where
  "find_by_webhook_token E tok = ctl_query E (\<lambda>_ c. find_row (\<lambda>t. tn_webhook_token t = tok) (c_tenant c))"

definition record_vault_role_id :: "env \<Rightarrow> uuid \<Rightarrow> string \<Rightarrow> ('z world_scheme, sqlx_error, unit) io" where
  "record_vault_role_id E i role = ctl_stmt E (\<lambda>_ c.
     if \<exists>t \<in> set (c_tenant c). tn_id t = i
        \<and> (\<exists>u \<in> set (c_tenant c). tn_id u \<noteq> i \<and> tn_vault_role_id u = Some role)
     then Inl (Constraint ''tenant_vault_role_id_key'')
     else Inr ((), c\<lparr>c_tenant := upd_where (\<lambda>t. tn_id t = i) (\<lambda>t. t\<lparr>tn_vault_role_id := Some role\<rparr>)
            (c_tenant c)\<rparr>))"

definition record_vault_pepper_wrapped :: "env \<Rightarrow> uuid \<Rightarrow> string \<Rightarrow> ('z world_scheme, sqlx_error, unit) io" where
  "record_vault_pepper_wrapped E i pepper = ctl_exec E (\<lambda>_ c.
     c\<lparr>c_tenant := upd_where (\<lambda>t. tn_id t = i) (\<lambda>t. t\<lparr>tn_vault_pepper_wrapped := Some pepper\<rparr>)
         (c_tenant c)\<rparr>)"

text \<open>The five unique columns of \<open>tenant\<close>; an \<open>INSERT\<close> that repeats one is refused.\<close>

definition tenant_conflict :: "tenant_row \<Rightarrow> tenant_row list \<Rightarrow> bool" where
  "tenant_conflict t ts \<longleftrightarrow> (\<exists>u \<in> set ts. tn_id u = tn_id t \<or> tn_slug u = tn_slug t
     \<or> tn_database_name u = tn_database_name t \<or> tn_vault_mount u = tn_vault_mount t
     \<or> tn_webhook_token u = tn_webhook_token t)"

definition insert_provisioning :: "env \<Rightarrow> uuid \<Rightarrow> string \<Rightarrow> string \<Rightarrow> string \<Rightarrow> string \<Rightarrow> string
    \<Rightarrow> ('z world_scheme, sqlx_error, unit) io" where
  "insert_provisioning E i slug region database_name vault_mount webhook_token =
     bindE (utc_now E) (\<lambda>now. ctl_stmt E (\<lambda>_ c.
       let t = \<lparr>tn_id = i, tn_slug = slug, tn_region = region, tn_database_name = database_name,
            tn_vault_mount = vault_mount, tn_webhook_token = webhook_token,
            tn_status = PROVISIONING, tn_created_at = now, tn_vault_role_id = None,
            tn_vault_pepper_wrapped = None, tn_auth_enabled = True\<rparr> in
       if tenant_conflict t (c_tenant c) then Inl (Constraint ''tenant'')
       else Inr ((), c\<lparr>c_tenant := c_tenant c @ [t]\<rparr>)))"

text \<open>\<open>UPDATE tenant SET status\<close>, with the number of rows it touched.\<close>

definition set_status :: "uuid \<Rightarrow> string \<Rightarrow> control_db \<Rightarrow> nat \<times> control_db" where
  "set_status i st c =
     (length (filter (\<lambda>t. tn_id t = i) (c_tenant c)),
      c\<lparr>c_tenant := upd_where (\<lambda>t. tn_id t = i) (\<lambda>t. t\<lparr>tn_status := st\<rparr>) (c_tenant c)\<rparr>)"

definition mark_status :: "env \<Rightarrow> uuid \<Rightarrow> string \<Rightarrow> ('z world_scheme, sqlx_error, nat) io" where
  "mark_status E i st = ctl_stmt E (\<lambda>_ c. Inr (set_status i st c))"

definition mark_active :: "env \<Rightarrow> uuid \<Rightarrow> ('z world_scheme, sqlx_error, unit) io" where
  "mark_active E i = thenE (mark_status E i ACTIVE) (ret ())"

text \<open>\<open>ORDER BY created_at DESC\<close>.\<close>

definition tenants_by_age :: "control_db \<Rightarrow> tenant_row list" where
  "tenants_by_age c = sort_key (\<lambda>t. - tn_created_at t) (c_tenant c)"

definition list_tenants :: "env \<Rightarrow> ('z world_scheme, sqlx_error, tenant_row list) io" where
  "list_tenants E = ctl_query E (\<lambda>_. tenants_by_age)"

definition schema_versions :: "env \<Rightarrow> ('z world_scheme, sqlx_error, (uuid \<times> int) list) io" where
  "schema_versions E = ctl_query E (\<lambda>_ c. map (\<lambda>v. (sv_tenant_id v, sv_version v)) (c_schema_version c))"

definition record_schema_version :: "env \<Rightarrow> uuid \<Rightarrow> int \<Rightarrow> ('z world_scheme, sqlx_error, unit) io" where
  "record_schema_version E i version = bindE (utc_now E) (\<lambda>now. ctl_exec E (\<lambda>_ c.
     c\<lparr>c_schema_version := upsert sv_tenant_id
         (\<lambda>v. v\<lparr>sv_version := version, sv_applied_at := now\<rparr>)
         \<lparr>sv_tenant_id = i, sv_version = version, sv_applied_at = now\<rparr> (c_schema_version c)\<rparr>))"

section \<open>The registry invariant\<close>

text \<open>The unique columns of the registry.  \<open>vault_role_id\<close> is unique where it is set.\<close>

definition tenants_ok :: "control_db \<Rightarrow> bool" where
  "tenants_ok c \<longleftrightarrow> distinct (map tn_id (c_tenant c)) \<and> distinct (map tn_slug (c_tenant c))
     \<and> distinct (map tn_database_name (c_tenant c)) \<and> distinct (map tn_vault_mount (c_tenant c))
     \<and> distinct (map tn_webhook_token (c_tenant c))"

lemma tenants_ok_insert:
  "tenants_ok c \<Longrightarrow> \<not> tenant_conflict t (c_tenant c) \<Longrightarrow> tenants_ok (c\<lparr>c_tenant := c_tenant c @ [t]\<rparr>)"
  by (force simp: tenants_ok_def tenant_conflict_def)

lemma tenants_ok_set_status: "tenants_ok c \<Longrightarrow> tenants_ok (snd (set_status i st c))"
  by (simp add: tenants_ok_def set_status_def map_key_upd_where)

lemma set_status_find:
  "find_tenant i (snd (set_status i st c)) = map_option (\<lambda>t. t\<lparr>tn_status := st\<rparr>) (find_tenant i c)"
proof -
  have "find_row (\<lambda>t. tn_id t = i) (upd_where (\<lambda>t. tn_id t = i) (\<lambda>t. t\<lparr>tn_status := st\<rparr>) ts)
        = map_option (\<lambda>t. t\<lparr>tn_status := st\<rparr>) (find_row (\<lambda>t. tn_id t = i) ts)" for ts
    by (induction ts) auto
  then show ?thesis by (simp add: find_tenant_def set_status_def)
qed

lemma find_tenant_key:
  "tenants_ok c \<Longrightarrow> t \<in> set (c_tenant c) \<Longrightarrow> find_tenant (tn_id t) c = Some t"
  by (simp add: find_tenant_def tenants_ok_def find_row_key)

text \<open>A region mismatch anywhere in the registry stops the process; agreement everywhere passes.\<close>

lemma assert_region_ok:
  assumes "quiet E"
  shows "wp (assert_region E region) (\<lambda>_ w'. \<forall>t \<in> set (c_tenant (w_ctl w)). tn_region t = region)
     (\<lambda>e w'. e = Configuration ''region mismatch'' \<and> (\<exists>t \<in> set (c_tenant (w_ctl w)). tn_region t \<noteq> region)) w"
  using assms
  by (auto simp: assert_region_def wp_simps Let_def split: option.splits
      dest: find_row_SomeD simp: find_row_None)

end
