(* ===== verification/PlatformKillSwitch.thy ===== *)
theory PlatformKillSwitch
  imports KillSwitch Tenant
begin

text \<open>
  Platform-tier kill switches (\<open>platform_kill_switch/model.rs\<close>, \<open>repo.rs\<close>, \<open>configure.rs\<close>):
  rows of the control database that suspend one tenant or the whole region, the synthetic
  tenant switch each one becomes, and engage and release with the audit row written in
  the same transaction.  Whether a tenant's database accepted the \<open>NOTIFY\<close> of the fan-out is
  the parameter \<open>reachable\<close>.
\<close>

section \<open>The model\<close>

abbreviation PLATFORM :: string where "PLATFORM \<equiv> ''platform''"
abbreviation TENANT :: string where "TENANT \<equiv> ''tenant''"

definition pk_is_active :: "platform_kill_switch \<Rightarrow> bool" where
  "pk_is_active p \<longleftrightarrow> pk_released_at p = None"

definition applies_to :: "platform_kill_switch \<Rightarrow> uuid \<Rightarrow> bool" where
  "applies_to p tenant_id =
     (if pk_scope p = PLATFORM then True
      else if pk_scope p = TENANT then pk_tenant_id p = Some tenant_id
      else False)"

definition as_kill_switch :: "platform_kill_switch \<Rightarrow> kill_switch" where
  "as_kill_switch p = \<lparr>ks_id = pk_id p, ks_scope = GLOBAL, ks_scope_key = None, ks_on_queued = HOLD,
     ks_engaged_by = pk_engaged_by p, ks_engaged_at = pk_engaged_at p, ks_reason = pk_reason p,
     ks_released_by = pk_released_by p, ks_released_at = pk_released_at p\<rparr>"

section \<open>Reads\<close>

definition list_active_platform :: "env \<Rightarrow> ('z world_scheme, sqlx_error, platform_kill_switch list) io" where
  "list_active_platform E = ctl_query E (\<lambda>_ c.
     sort_key pk_engaged_at (filter pk_is_active (c_platform_kill_switch c)))"

definition active_for_tenant :: "uuid \<Rightarrow> control_db \<Rightarrow> platform_kill_switch list" where
  "active_for_tenant tenant_id c = sort_key pk_engaged_at
     (filter (\<lambda>p. pk_released_at p = None
        \<and> (pk_scope p = PLATFORM \<or> (pk_scope p = TENANT \<and> pk_tenant_id p = Some tenant_id)))
       (c_platform_kill_switch c))"

definition list_active_for_tenant :: "env \<Rightarrow> uuid
    \<Rightarrow> ('z world_scheme, sqlx_error, platform_kill_switch list) io" where
  "list_active_for_tenant E tenant_id = ctl_query E (\<lambda>_. active_for_tenant tenant_id)"

section \<open>Engage and release\<close>

datatype pk_error = PK_Database sqlx_error | PK_AlreadyEngaged | PK_Rejected string

record engage_outcome =
  eo_id :: uuid
  eo_notify_targets :: "tenant_row list"

definition fan_out_targets :: "string \<Rightarrow> uuid option \<Rightarrow> control_db \<Rightarrow> tenant_row list" where
  "fan_out_targets scope tenant_id c =
     (case tenant_id of
        Some i \<Rightarrow> if scope = TENANT then (case find_tenant i c of None \<Rightarrow> [] | Some t \<Rightarrow> [t])
          else if scope = PLATFORM then
            filter (\<lambda>t. tn_status t \<in> {ACTIVE, SUSPENDED, OFFBOARDING_ARCHIVE}) (tenants_by_age c)
          else []
      | None \<Rightarrow> if scope = PLATFORM then
            filter (\<lambda>t. tn_status t \<in> {ACTIVE, SUSPENDED, OFFBOARDING_ARCHIVE}) (tenants_by_age c)
          else [])"

definition pk_rejection :: "string \<Rightarrow> uuid option \<Rightarrow> control_db \<Rightarrow> string option" where
  "pk_rejection scope tenant_id c =
     (if scope = PLATFORM then
        (if tenant_id = None then None else Some ''a platform-scope switch must not name a tenant'')
      else if scope = TENANT then
        (case tenant_id of None \<Rightarrow> Some ''a tenant-scope switch must name a tenant''
         | Some i \<Rightarrow> if find_tenant i c = None then Some ''no tenant registered with id'' else None)
      else Some ''unrecognised platform_kill_switch scope'')"

text \<open>The unique index on \<open>(scope, COALESCE(tenant_id, nil)) WHERE released_at IS NULL\<close>.\<close>

definition pk_key :: "platform_kill_switch \<Rightarrow> string \<times> uuid" where
  "pk_key p = (pk_scope p, case pk_tenant_id p of None \<Rightarrow> 0 | Some i \<Rightarrow> i)"

definition pk_live_conflict :: "platform_kill_switch \<Rightarrow> platform_kill_switch list \<Rightarrow> bool" where
  "pk_live_conflict p t \<longleftrightarrow> (\<exists>x \<in> set t. pk_is_active x \<and> pk_key x = pk_key p)"

definition pk_audit_engage :: "uuid \<Rightarrow> timestamp \<Rightarrow> string \<Rightarrow> string \<Rightarrow> uuid option \<Rightarrow> string \<Rightarrow> string
    \<Rightarrow> control_db \<Rightarrow> sqlx_error + control_db" where
  "pk_audit_engage fresh now actor scope tenant_id reason outcome =
     record_tx fresh now actor ''platform_kill_switch.engage'' tenant_id
       [(''scope'', JStr scope), (''reason'', JStr reason), (''outcome'', JStr outcome)]"

text \<open>The body of the engage transaction: the domain outcome and the database it commits, or
  the database error that rolls it back.  \<open>fresh\<close> and \<open>audit_id\<close> are the random ids it draws.\<close>

definition engage_tx :: "uuid \<Rightarrow> uuid \<Rightarrow> timestamp \<Rightarrow> timestamp \<Rightarrow> string \<Rightarrow> uuid option \<Rightarrow> string \<Rightarrow> string
    \<Rightarrow> control_db \<Rightarrow> sqlx_error + (pk_error + engage_outcome) \<times> control_db" where
  "engage_tx fresh audit_id db_now now scope tenant_id reason actor c =
    (case pk_rejection scope tenant_id c of
       Some message \<Rightarrow> map_sum id (Pair (Inl (PK_Rejected message)))
         (pk_audit_engage audit_id now actor scope tenant_id reason ''rejected'' c)
     | None \<Rightarrow>
        (let p = \<lparr>pk_id = fresh, pk_scope = scope, pk_tenant_id = tenant_id, pk_engaged_by = actor,
               pk_engaged_at = db_now, pk_reason = reason, pk_released_by = None,
               pk_released_at = None\<rparr> in
         if pk_live_conflict p (c_platform_kill_switch c) then
           map_sum id (Pair (Inl PK_AlreadyEngaged))
             (pk_audit_engage audit_id now actor scope tenant_id reason ''already_engaged'' c)
         else (case ins_pk ''platform_kill_switch_pkey'' pk_id p (c_platform_kill_switch c) of
             Inl e \<Rightarrow> Inl e
           | Inr t \<Rightarrow> map_sum id (\<lambda>c'. (Inr \<lparr>eo_id = fresh,
                  eo_notify_targets = fan_out_targets scope tenant_id c'\<rparr>, c'))
               (pk_audit_engage audit_id now actor scope tenant_id reason ''engaged''
                 (c\<lparr>c_platform_kill_switch := t\<rparr>)))))"

record fan_out_report =
  fr_notified :: nat
  fr_failed :: nat

definition notify_tenants :: "(tenant_row \<Rightarrow> bool) \<Rightarrow> tenant_row list \<Rightarrow> fan_out_report" where
  "notify_tenants reachable targets =
     foldl (\<lambda>r t. if reachable t then r\<lparr>fr_notified := fr_notified r + 1\<rparr>
                  else r\<lparr>fr_failed := fr_failed r + 1\<rparr>)
       \<lparr>fr_notified = 0, fr_failed = 0\<rparr> targets"

definition pk_engage :: "env \<Rightarrow> (tenant_row \<Rightarrow> bool) \<Rightarrow> string \<Rightarrow> uuid option \<Rightarrow> string \<Rightarrow> string
    \<Rightarrow> ('z world_scheme, pk_error, engage_outcome \<times> fan_out_report) io" where
  "pk_engage E reachable scope tenant_id reason actor =
     bindE (new_uuid E) (\<lambda>fresh. bindE (new_uuid E) (\<lambda>audit_id. bindE (utc_now E) (\<lambda>now.
     bindE (map_err PK_Database (ctl_stmt E (\<lambda>n.
         engage_tx fresh audit_id (e_clock E n) now scope tenant_id reason actor))) (\<lambda>result.
     case result of
       Inl domain \<Rightarrow> throw domain
     | Inr outcome \<Rightarrow> ret (outcome, notify_tenants reachable (eo_notify_targets outcome))))))"

record release_outcome =
  ro_outcome :: string
  ro_notify_targets :: "tenant_row list"

definition pk_release_tx :: "uuid \<Rightarrow> timestamp \<Rightarrow> timestamp \<Rightarrow> uuid \<Rightarrow> string
    \<Rightarrow> control_db \<Rightarrow> sqlx_error + release_outcome \<times> control_db" where
  "pk_release_tx audit_id db_now now i actor c =
    (let c1 = c\<lparr>c_platform_kill_switch := upd_where (\<lambda>p. pk_id p = i \<and> pk_is_active p)
           (\<lambda>p. p\<lparr>pk_released_by := Some actor, pk_released_at := Some db_now\<rparr>)
           (c_platform_kill_switch c)\<rparr>;
         (outcome, tenant_id, targets) =
           (case find_row (\<lambda>p. pk_id p = i \<and> pk_is_active p) (c_platform_kill_switch c) of
              Some p \<Rightarrow> (''released'', pk_tenant_id p, fan_out_targets (pk_scope p) (pk_tenant_id p) c1)
            | None \<Rightarrow> (''idempotent'', None, [])) in
     map_sum id (Pair \<lparr>ro_outcome = outcome, ro_notify_targets = targets\<rparr>)
       (record_tx audit_id now actor ''platform_kill_switch.release'' tenant_id
         [(''id'', JUuid i), (''outcome'', JStr outcome)] c1))"

definition pk_release :: "env \<Rightarrow> (tenant_row \<Rightarrow> bool) \<Rightarrow> uuid \<Rightarrow> string
    \<Rightarrow> ('z world_scheme, pk_error, release_outcome \<times> fan_out_report) io" where
  "pk_release E reachable i actor =
     bindE (new_uuid E) (\<lambda>audit_id. bindE (utc_now E) (\<lambda>now.
     bindE (map_err PK_Database (ctl_stmt E (\<lambda>n. pk_release_tx audit_id (e_clock E n) now i actor)))
       (\<lambda>outcome. ret (outcome, notify_tenants reachable (ro_notify_targets outcome)))))"

section \<open>Facts\<close>

text \<open>The query's clause is \<open>applies_to\<close> over the live rows.\<close>

lemma set_active_for_tenant:
  "set (active_for_tenant tenant_id c) =
     {p \<in> set (c_platform_kill_switch c). pk_is_active p \<and> applies_to p tenant_id}"
  by (auto simp: active_for_tenant_def pk_is_active_def applies_to_def)

lemma as_kill_switch_blocks_all [simp]: "matches pu (as_kill_switch p) channel producer campaign"
  by (simp add: matches_def as_kill_switch_def)

lemma as_kill_switch_id [simp]: "ks_id (as_kill_switch p) = pk_id p"
  by (simp add: as_kill_switch_def)

definition platform_switches_ok :: "control_db \<Rightarrow> bool" where
  "platform_switches_ok c \<longleftrightarrow> distinct (map pk_id (c_platform_kill_switch c))
     \<and> distinct (map pk_key (filter pk_is_active (c_platform_kill_switch c)))"

lemma record_tx_switches:
  "record_tx f now actor act ten det c = Inr c' \<Longrightarrow>
   c_platform_kill_switch c' = c_platform_kill_switch c \<and> c_tenant c' = c_tenant c"
  by (drule record_tx_appends) simp

lemma engage_tx_ok:
  assumes "platform_switches_ok c"
    and "engage_tx fresh audit_id db_now now scope tenant_id reason actor c = Inr (r, c')"
  shows "platform_switches_ok c'"
  using assms
  by (auto simp: engage_tx_def pk_audit_engage_def Let_def ins_pk_def platform_switches_ok_def
      pk_live_conflict_def split: option.splits if_splits sum.splits
      dest!: record_tx_switches) blast

end
