(* ===== verification/KillSwitchCache.thy ===== *)
theory KillSwitchCache
  imports PlatformKillSwitch "HOL-Library.AList"
begin

text \<open>
  The in-process set of engaged switches (\<open>kill_switch/cache.rs\<close>) the dispatcher and the
  ingest service share: its refresh from both databases with the difference it reports,
  the per-request check of ingest, and the claim exclusion of the dispatcher.

  A \<open>HashMap\<close> keyed by switch id is an association list with distinct keys; its iteration
  order is the list's, and no lemma depends on it.
\<close>

section \<open>The cache\<close>

record refresh_delta =
  rd_newly_engaged :: "kill_switch list"
  rd_released :: "kill_switch list"

record active_set =
  as_switches :: "(uuid \<times> kill_switch) list"
  as_platform_ids :: "uuid list"

definition new_cache :: active_set where
  "new_cache = \<lparr>as_switches = [], as_platform_ids = []\<rparr>"

abbreviation PLATFORM_SCOPE :: string where "PLATFORM_SCOPE \<equiv> ''platform''"

text \<open>\<open>into_iter().map(|s| (s.id, s)).collect()\<close>.\<close>

definition by_id :: "kill_switch list \<Rightarrow> (uuid \<times> kill_switch) list" where
  "by_id ss = foldl (\<lambda>m s. AList.update (ks_id s) s m) [] ss"

definition active_snapshot :: "active_set \<Rightarrow> kill_switch list" where
  "active_snapshot a = map snd (as_switches a)"

text \<open>The part of a refresh that runs under the write lock.  \<open>platform_rows\<close> is \<open>None\<close> when the
  control database could not be read.\<close>

definition swap_in :: "kill_switch list \<Rightarrow> platform_kill_switch list option \<Rightarrow> active_set
    \<Rightarrow> refresh_delta \<times> active_set" where
  "swap_in fresh0 platform_rows guard =
    (let (fresh, platform_ids) =
       (case platform_rows of
          Some rows \<Rightarrow> (fresh0 @ map as_kill_switch rows, remdups (map pk_id rows))
        | None \<Rightarrow> (fresh0 @ List.map_filter (map_of (as_switches guard)) (as_platform_ids guard),
                   as_platform_ids guard));
       fresh_ids = map ks_id fresh;
       released = filter (\<lambda>s. ks_id s \<notin> set fresh_ids) (active_snapshot guard);
       newly_engaged = filter (\<lambda>s. ks_id s \<notin> fst ` set (as_switches guard)) fresh
     in (\<lparr>rd_newly_engaged = newly_engaged, rd_released = released\<rparr>,
         \<lparr>as_switches = by_id fresh, as_platform_ids = platform_ids\<rparr>))"

definition refresh_with_platform :: "env \<Rightarrow> uuid option \<Rightarrow> active_set
    \<Rightarrow> ('z world_scheme, sqlx_error, refresh_delta \<times> active_set) io" where
  "refresh_with_platform E platform guard =
     bindE (list_active E) (\<lambda>fresh.
     bindE (case platform of
              None \<Rightarrow> ret (Some [])
            | Some tenant_id \<Rightarrow>
                bindE (attempt (list_active_for_tenant E tenant_id)) (\<lambda>r.
                  case r of Inr rows \<Rightarrow> ret (Some rows) | Inl _ \<Rightarrow> ret None))
       (\<lambda>platform_rows. ret (swap_in fresh platform_rows guard)))"

definition refresh :: "env \<Rightarrow> active_set \<Rightarrow> ('z world_scheme, sqlx_error, refresh_delta \<times> active_set) io" where
  "refresh E guard = refresh_with_platform E None guard"

text \<open>One turn of \<open>run_refresh_loop\<close>: a failed refresh is logged and keeps the previous set;
  the caller's \<open>on_delta\<close> sees the difference of a successful one.\<close>

definition refresh_turn :: "env \<Rightarrow> uuid option \<Rightarrow> active_set
    \<Rightarrow> ('z world_scheme, 'e, refresh_delta option \<times> active_set) io" where
  "refresh_turn E platform guard =
     bindE (attempt (refresh_with_platform E platform guard)) (\<lambda>r.
       case r of Inr (delta, a) \<Rightarrow> ret (Some delta, a) | Inl _ \<Rightarrow> ret (None, guard))"

definition blocking_scope :: "uuid_parser \<Rightarrow> active_set \<Rightarrow> string \<Rightarrow> uuid \<Rightarrow> string option \<Rightarrow> string option" where
  "blocking_scope pu a channel producer_id campaign_id =
     (if as_platform_ids a \<noteq> [] then Some PLATFORM_SCOPE
      else map_option ks_scope
        (find_row (\<lambda>s. matches pu s channel producer_id campaign_id) (active_snapshot a)))"

section \<open>The claim exclusion\<close>

record channel_exclusion =
  ce_blocked_entirely :: bool
  ce_blocked_producer_ids :: "uuid list"
  ce_blocked_campaign_ids :: "string list"

definition default_exclusion :: channel_exclusion where
  "default_exclusion = \<lparr>ce_blocked_entirely = False, ce_blocked_producer_ids = [],
     ce_blocked_campaign_ids = []\<rparr>"

definition exclusion_step :: "uuid_parser \<Rightarrow> string \<Rightarrow> channel_exclusion \<Rightarrow> kill_switch \<Rightarrow> channel_exclusion" where
  "exclusion_step pu channel result s =
     (if ks_scope s = GLOBAL then result\<lparr>ce_blocked_entirely := True\<rparr>
      else if ks_scope s = CHANNEL \<and> ks_scope_key s = Some channel then
        result\<lparr>ce_blocked_entirely := True\<rparr>
      else if ks_scope s = PRODUCER then
        (case switch_producer_id pu s of None \<Rightarrow> result
         | Some i \<Rightarrow> result\<lparr>ce_blocked_producer_ids := ce_blocked_producer_ids result @ [i]\<rparr>)
      else if ks_scope s = PRODUCER_CHANNEL then
        (case producer_channel_parts pu s of None \<Rightarrow> result
         | Some (i, ch) \<Rightarrow>
             if ch = channel then result\<lparr>ce_blocked_producer_ids := ce_blocked_producer_ids result @ [i]\<rparr>
             else result)
      else if ks_scope s = CAMPAIGN then
        (case ks_scope_key s of None \<Rightarrow> result
         | Some c \<Rightarrow> result\<lparr>ce_blocked_campaign_ids := ce_blocked_campaign_ids result @ [c]\<rparr>)
      else result)"

definition exclusion_for_channel :: "uuid_parser \<Rightarrow> kill_switch list \<Rightarrow> string \<Rightarrow> channel_exclusion" where
  "exclusion_for_channel pu switches channel =
     foldl (exclusion_step pu channel) default_exclusion switches"

text \<open>What the claim query does with an exclusion: skip the query, \<open>producer_id <> ALL\<close>,
  \<open>campaign_id IS NULL OR campaign_id <> ALL\<close>.\<close>

definition excluded :: "channel_exclusion \<Rightarrow> uuid \<Rightarrow> string option \<Rightarrow> bool" where
  "excluded x producer_id campaign_id \<longleftrightarrow> ce_blocked_entirely x
     \<or> producer_id \<in> set (ce_blocked_producer_ids x)
     \<or> (case campaign_id of None \<Rightarrow> False | Some c \<Rightarrow> c \<in> set (ce_blocked_campaign_ids x))"

section \<open>The exclusion contract\<close>

text \<open>What the claim loop relies on: an exclusion built from a collection of switches for a
  channel blocks exactly the rows one of the switches matches.\<close>

locale exclusion_contract =
  fixes build :: "'s list \<Rightarrow> string \<Rightarrow> 'x"
    and blocks :: "'x \<Rightarrow> uuid \<Rightarrow> string option \<Rightarrow> bool"
    and covers :: "'s \<Rightarrow> string \<Rightarrow> uuid \<Rightarrow> string option \<Rightarrow> bool"
  assumes blocks_build: "blocks (build ss ch) p c \<longleftrightarrow> (\<exists>s \<in> set ss. covers s ch p c)"
begin

lemma blocks_append: "blocks (build (ss @ ts) ch) p c \<longleftrightarrow> blocks (build ss ch) p c \<or> blocks (build ts ch) p c"
  by (auto simp: blocks_build)

lemma blocks_mono: "set ss \<subseteq> set ts \<Longrightarrow> blocks (build ss ch) p c \<Longrightarrow> blocks (build ts ch) p c"
  by (auto simp: blocks_build)

lemma blocks_order: "set ss = set ts \<Longrightarrow> blocks (build ss ch) p c = blocks (build ts ch) p c"
  by (simp add: blocks_build)

lemma blocks_none: "\<not> blocks (build [] ch) p c"
  by (simp add: blocks_build)

end

lemma excluded_step:
  "excluded (exclusion_step pu channel x s) p c \<longleftrightarrow> excluded x p c \<or> matches pu s channel p c"
  by (auto simp: excluded_def exclusion_step_def matches_def split: option.splits)

lemma excluded_foldl:
  "excluded (foldl (exclusion_step pu channel) x ss) p c \<longleftrightarrow>
   excluded x p c \<or> (\<exists>s \<in> set ss. matches pu s channel p c)"
  by (induction ss arbitrary: x) (auto simp: excluded_step)

lemma excluded_default [simp]: "\<not> excluded default_exclusion p c"
  by (simp add: excluded_def default_exclusion_def split: option.splits)

interpretation excl: exclusion_contract "exclusion_for_channel pu" excluded "matches pu" for pu
  by unfold_locales (simp add: exclusion_for_channel_def excluded_foldl)

section \<open>Facts about the association list\<close>

lemma map_of_by_id_foldl:
  "map_of (foldl (\<lambda>m s. AList.update (ks_id s) s m) m ss) i
   = (case find_row (\<lambda>s. ks_id s = i) (rev ss) of Some s \<Rightarrow> Some s | None \<Rightarrow> map_of m i)"
  by (induction ss arbitrary: m) (auto simp: update_conv' find_row_append split: option.splits)

lemma distinct_by_id: "distinct (map fst (by_id ss))"
proof -
  have "distinct (map fst m) \<Longrightarrow> distinct (map fst (foldl (\<lambda>m s. AList.update (ks_id s) s m) m ss))" for m
    by (induction ss arbitrary: m) (auto simp: distinct_update)
  from this [of "[]"] show ?thesis by (simp add: by_id_def)
qed

lemma map_of_by_id:
  "map_of (by_id ss) i = find_row (\<lambda>s. ks_id s = i) (rev ss)"
  by (simp add: by_id_def map_of_by_id_foldl split: option.splits)

lemma keys_by_id: "fst ` set (by_id ss) = ks_id ` set ss"
proof -
  have "i \<in> fst ` set (by_id ss) \<longleftrightarrow> map_of (by_id ss) i \<noteq> None" for i
    by (metis map_of_eq_None_iff)
  then have "i \<in> fst ` set (by_id ss) \<longleftrightarrow> i \<in> ks_id ` set ss" for i
    by (simp add: map_of_by_id find_row_None image_iff) blast
  then show ?thesis by (rule set_eqI)
qed

lemma by_id_entry: "(i, s) \<in> set (by_id ss) \<Longrightarrow> ks_id s = i \<and> s \<in> set ss"
  using map_of_is_SomeI [OF distinct_by_id, of i s ss]
  by (auto simp: map_of_by_id dest: find_row_SomeD)

text \<open>With distinct ids the map holds exactly the listed switches.\<close>

lemma by_id_values: "distinct (map ks_id ss) \<Longrightarrow> snd ` set (by_id ss) = set ss"
proof (rule antisym)
  show "snd ` set (by_id ss) \<subseteq> set ss" using by_id_entry by fastforce
  assume d: "distinct (map ks_id ss)"
  show "set ss \<subseteq> snd ` set (by_id ss)"
  proof
    fix s assume s: "s \<in> set ss"
    have "distinct (map ks_id (rev ss))" using d by (simp flip: rev_map)
    then have "map_of (by_id ss) (ks_id s) = Some s"
      using s by (simp add: map_of_by_id find_row_key)
    then show "s \<in> snd ` set (by_id ss)" by (force dest: map_of_SomeD)
  qed
qed

section \<open>The cache invariant\<close>

text \<open>Every entry sits under its own id, the platform ids are entries, and what they hold is the
  synthetic form that blocks everything.\<close>

definition cache_ok :: "active_set \<Rightarrow> bool" where
  "cache_ok a \<longleftrightarrow> distinct (map fst (as_switches a))
     \<and> (\<forall>(i, s) \<in> set (as_switches a). ks_id s = i)
     \<and> (\<forall>i \<in> set (as_platform_ids a). \<exists>s. (i, s) \<in> set (as_switches a) \<and> ks_scope s = GLOBAL)"

lemma cache_ok_new [simp]: "cache_ok new_cache"
  by (simp add: cache_ok_def new_cache_def)

definition carried :: "active_set \<Rightarrow> kill_switch list" where
  "carried a = List.map_filter (map_of (as_switches a)) (as_platform_ids a)"

lemma set_carried:
  "cache_ok a \<Longrightarrow> s \<in> set (carried a) \<longleftrightarrow> (\<exists>i \<in> set (as_platform_ids a). (i, s) \<in> set (as_switches a))"
  by (simp add: carried_def in_set_map_filter cache_ok_def map_of_eq_Some_iff)

lemma ids_carried:
  assumes "cache_ok a"
  shows "ks_id ` set (carried a) = set (as_platform_ids a)"
proof (rule set_eqI)
  fix i
  have key: "ks_id s = j" if "(j, s) \<in> set (as_switches a)" for j s
    using assms that by (auto simp: cache_ok_def)
  have "\<exists>s. (i, s) \<in> set (as_switches a)" if "i \<in> set (as_platform_ids a)"
    using assms that by (auto simp: cache_ok_def)
  with key show "i \<in> ks_id ` set (carried a) \<longleftrightarrow> i \<in> set (as_platform_ids a)"
    by (simp add: image_iff Bex_def set_carried [OF assms]) metis
qed

text \<open>The list a refresh swaps in.\<close>

definition fresh_list :: "kill_switch list \<Rightarrow> platform_kill_switch list option \<Rightarrow> active_set \<Rightarrow> kill_switch list" where
  "fresh_list fresh rows a = fresh @ (case rows of Some rs \<Rightarrow> map as_kill_switch rs | None \<Rightarrow> carried a)"

definition fresh_platform_ids :: "platform_kill_switch list option \<Rightarrow> active_set \<Rightarrow> uuid list" where
  "fresh_platform_ids rows a = (case rows of Some rs \<Rightarrow> remdups (map pk_id rs) | None \<Rightarrow> as_platform_ids a)"

lemma swap_in_eq:
  "swap_in fresh rows a =
     (\<lparr>rd_newly_engaged = filter (\<lambda>s. ks_id s \<notin> fst ` set (as_switches a)) (fresh_list fresh rows a),
       rd_released = filter (\<lambda>s. ks_id s \<notin> ks_id ` set (fresh_list fresh rows a)) (active_snapshot a)\<rparr>,
      \<lparr>as_switches = by_id (fresh_list fresh rows a), as_platform_ids = fresh_platform_ids rows a\<rparr>)"
  by (auto simp: swap_in_def fresh_list_def fresh_platform_ids_def carried_def Let_def split: option.splits)

lemma as_kill_switch_scope [simp]: "ks_scope (as_kill_switch p) = GLOBAL"
  by (simp add: as_kill_switch_def)

text \<open>The last part of the list wins the map, and it is the platform part.\<close>

lemma swap_in_platform_entry:
  assumes "cache_ok a" and "i \<in> set (fresh_platform_ids rows a)"
  shows "\<exists>s. (i, s) \<in> set (by_id (fresh_list fresh rows a)) \<and> ks_scope s = GLOBAL"
proof -
  let ?pl = "case rows of Some rs \<Rightarrow> map as_kill_switch rs | None \<Rightarrow> carried a"
  have ids: "i \<in> ks_id ` set ?pl"
    using assms by (cases rows) (auto simp: fresh_platform_ids_def ids_carried image_image)
  have glob: "ks_scope s = GLOBAL" if "s \<in> set ?pl" for s
  proof (cases rows)
    case None
    with that obtain j where j: "j \<in> set (as_platform_ids a)" "(j, s) \<in> set (as_switches a)"
      by (auto simp: set_carried [OF assms(1)])
    with assms(1) obtain s' where "(j, s') \<in> set (as_switches a)" "ks_scope s' = GLOBAL"
      by (auto simp: cache_ok_def)
    moreover from this have "s = s'"
      using j assms(1) by (auto simp: cache_ok_def intro: eq_key_imp_eq_value)
    ultimately show ?thesis by simp
  qed (use that in auto)
  obtain s where s: "find_row (\<lambda>s. ks_id s = i) (rev ?pl) = Some s"
    using ids by (cases "find_row (\<lambda>s. ks_id s = i) (rev ?pl)") (auto simp: find_row_None)
  then have "map_of (by_id (fresh_list fresh rows a)) i = Some s"
    by (simp add: map_of_by_id fresh_list_def find_row_append)
  moreover have "s \<in> set ?pl" using find_row_SomeD [OF s] by simp
  ultimately show ?thesis using glob map_of_SomeD by fast
qed

lemma swap_in_ok: "cache_ok a \<Longrightarrow> cache_ok (snd (swap_in fresh rows a))"
proof -
  assume ok: "cache_ok a"
  let ?b = "snd (swap_in fresh rows a)"
  have "\<forall>i \<in> set (as_platform_ids ?b). \<exists>s. (i, s) \<in> set (as_switches ?b) \<and> ks_scope s = GLOBAL"
    using swap_in_platform_entry [OF ok] by (simp add: swap_in_eq)
  moreover have "\<forall>(i, s) \<in> set (as_switches ?b). ks_id s = i"
    by (auto simp: swap_in_eq dest: by_id_entry)
  ultimately show ?thesis by (simp add: cache_ok_def swap_in_eq distinct_by_id)
qed

text \<open>Ingest's check and the dispatcher's exclusion agree on an intact cache: a request is blocked
  exactly when some cached switch matches it.\<close>

lemma blocking_scope_None_iff:
  assumes "cache_ok a"
  shows "blocking_scope pu a channel p c = None \<longleftrightarrow>
    (\<forall>s \<in> set (active_snapshot a). \<not> matches pu s channel p c)"
proof (cases "as_platform_ids a = []")
  case False
  then obtain i where "i \<in> set (as_platform_ids a)" by (cases "as_platform_ids a") auto
  with assms obtain s where "(i, s) \<in> set (as_switches a)" "ks_scope s = GLOBAL"
    unfolding cache_ok_def by blast
  then have "s \<in> set (active_snapshot a)" "matches pu s channel p c"
    by (force simp: active_snapshot_def, simp add: matches_def)
  with False show ?thesis by (auto simp: blocking_scope_def)
qed (simp add: blocking_scope_def find_row_None)

section \<open>Properties\<close>

text \<open>The exclusion the dispatcher builds for a channel blocks a producer and campaign exactly when
  one of the switches it was built from matches them on that channel: the claim query's
  parameters and the per-request predicate are the same relation, for every order of the
  switches.\<close>

theorem exclusion_blocks_exactly_matches:
  "excluded (exclusion_for_channel pu ss channel) p c \<longleftrightarrow> (\<exists>s \<in> set ss. matches pu s channel p c)"
  by (rule excl.blocks_build)

text \<open>C27: Ingest and the dispatcher agree: on an intact cache a request passes ingest's check exactly
  when the dispatcher's exclusion, built from the same snapshot, would not hold its row back.\<close>

theorem ingest_and_dispatcher_agree:
  assumes "cache_ok a"
  shows "blocking_scope pu a channel p c = None
     \<longleftrightarrow> \<not> excluded (exclusion_for_channel pu (active_snapshot a) channel) p c"
  by (auto simp: blocking_scope_None_iff [OF assms] excl.blocks_build)

theorem ingest_and_dispatcher_agree_witness:
  "blocking_scope (\<lambda>_. None) new_cache ''sms'' 7 None = None
   \<longleftrightarrow> \<not> excluded (exclusion_for_channel (\<lambda>_. None) (active_snapshot new_cache) ''sms'') 7 None"
  by (rule ingest_and_dispatcher_agree) simp

abbreviation cached_ids :: "active_set \<Rightarrow> uuid set" where
  "cached_ids a \<equiv> fst ` set (as_switches a)"

lemma ids_snapshot: "cache_ok a \<Longrightarrow> ks_id ` set (active_snapshot a) = cached_ids a"
  by (force simp: cache_ok_def active_snapshot_def image_image)

lemma swap_in_ids:
  assumes "cache_ok a" and "swap_in fresh rows a = (delta, a')"
  shows "cached_ids a' = ks_id ` set fresh \<union>
           (case rows of Some rs \<Rightarrow> pk_id ` set rs | None \<Rightarrow> set (as_platform_ids a))"
    and "ks_id ` set (rd_released delta) = cached_ids a - cached_ids a'"
    and "ks_id ` set (rd_newly_engaged delta) = cached_ids a' - cached_ids a"
proof -
  let ?l = "fresh_list fresh rows a"
  have a': "as_switches a' = by_id ?l"
    and delta: "rd_released delta = filter (\<lambda>s. ks_id s \<notin> ks_id ` set ?l) (active_snapshot a)"
      "rd_newly_engaged delta = filter (\<lambda>s. ks_id s \<notin> cached_ids a) ?l"
    using assms(2) by (auto simp: swap_in_eq)
  show "cached_ids a' = ks_id ` set fresh \<union>
           (case rows of Some rs \<Rightarrow> pk_id ` set rs | None \<Rightarrow> set (as_platform_ids a))"
    using assms(1) by (auto simp: a' keys_by_id fresh_list_def ids_carried image_image image_Un
        split: option.splits)
  show "ks_id ` set (rd_released delta) = cached_ids a - cached_ids a'"
    unfolding delta a' keys_by_id ids_snapshot [OF assms(1), symmetric] by auto
  show "ks_id ` set (rd_newly_engaged delta) = cached_ids a' - cached_ids a"
    unfolding delta a' keys_by_id by auto
qed



end
