(* ===== verification/Outbox.thy ===== *)
theory Outbox
  imports KillSwitchCache "HOL-Library.Product_Lexorder"
begin

text \<open>
  The dispatcher's statements on the queue and the ledger (\<open>dispatcher/repo.rs\<close>): the two claim
  queries, the reads of the gates, the retry, and the terminal write, with the invariant
  that ties the queue to the ledger.

  \<open>attempts\<close> is a \<open>smallint\<close>: the claim's increment fails the whole statement beyond 32767.
\<close>

section \<open>Claiming\<close>

abbreviation SMALLINT_MAX :: int where "SMALLINT_MAX \<equiv> 32767"

text \<open>\<open>UPDATE outbox SET leased_until, attempts = attempts + 1 WHERE comms_request_id IN (SELECT ...
  ORDER BY priority, next_attempt_at LIMIT ...) RETURNING ...\<close>.\<close>

definition pick :: "(outbox_row \<Rightarrow> bool) \<Rightarrow> nat \<Rightarrow> outbox_row list \<Rightarrow> outbox_row list" where
  "pick P limit t = top_by (\<lambda>r. (ob_priority r, ob_next_attempt_at r)) limit (filter P t)"

definition leased :: "timestamp \<Rightarrow> outbox_row \<Rightarrow> outbox_row" where
  "leased until r = r\<lparr>ob_leased_until := Some until, ob_attempts := ob_attempts r + 1\<rparr>"

definition lease :: "(outbox_row \<Rightarrow> bool) \<Rightarrow> nat \<Rightarrow> timestamp \<Rightarrow> tenant_db
    \<Rightarrow> sqlx_error + outbox_row list \<times> tenant_db" where
  "lease P limit until d =
    (let ids = map ob_comms_request_id (pick P limit (t_outbox d)) in
     if \<exists>r \<in> set (t_outbox d). ob_comms_request_id r \<in> set ids \<and> ob_attempts r \<ge> SMALLINT_MAX
     then Inl OutOfRange
     else
      (let t = upd_where (\<lambda>r. ob_comms_request_id r \<in> set ids) (leased until) (t_outbox d) in
       Inr (filter (\<lambda>r. ob_comms_request_id r \<in> set ids) t, d\<lparr>t_outbox := t\<rparr>)))"

definition not_excluded :: "channel_exclusion \<Rightarrow> outbox_row \<Rightarrow> bool" where
  "not_excluded x r \<longleftrightarrow> ob_producer_id r \<notin> set (ce_blocked_producer_ids x)
     \<and> (case ob_campaign_id r of None \<Rightarrow> True | Some c \<Rightarrow> c \<notin> set (ce_blocked_campaign_ids x))"

definition claimable :: "timestamp \<Rightarrow> (uuid \<Rightarrow> bool) \<Rightarrow> string \<Rightarrow> channel_exclusion \<Rightarrow> outbox_row \<Rightarrow> bool" where
  "claimable now locked channel x r \<longleftrightarrow> ob_channel r = channel \<and> ob_next_attempt_at r \<le> now
     \<and> ob_leased_until r = None \<and> not_excluded x r \<and> \<not> locked (ob_comms_request_id r)"

definition claim :: "env \<Rightarrow> string \<Rightarrow> nat \<Rightarrow> timestamp \<Rightarrow> channel_exclusion
    \<Rightarrow> ('z world_scheme, sqlx_error, outbox_row list) io" where
  "claim E channel limit leased_until x =
     (if ce_blocked_entirely x then ret []
      else stmt E (\<lambda>n. lease (claimable (e_clock E n) (e_locked E n) channel x) limit leased_until))"

text \<open>The scope arms of \<open>claim_for_scope\<close>; \<open>None\<close> where it returns no rows without a query.\<close>

definition scope_arm :: "uuid_parser \<Rightarrow> string option \<Rightarrow> kill_switch \<Rightarrow> (outbox_row \<Rightarrow> bool) option" where
  "scope_arm pu channel s =
     (if ks_scope s = GLOBAL then Some (\<lambda>_. True)
      else if ks_scope s = CHANNEL then
        (case ks_scope_key s of None \<Rightarrow> None
         | Some switch_channel \<Rightarrow>
            (case channel of
               Some pinned \<Rightarrow> if pinned \<noteq> switch_channel then None else Some (\<lambda>_. True)
             | None \<Rightarrow> Some (\<lambda>r. ob_channel r = switch_channel)))
      else if ks_scope s = PRODUCER then
        (case switch_producer_id pu s of None \<Rightarrow> None
         | Some producer_id \<Rightarrow> Some (\<lambda>r. ob_producer_id r = producer_id))
      else if ks_scope s = PRODUCER_CHANNEL then
        (case producer_channel_parts pu s of None \<Rightarrow> None
         | Some (producer_id, switch_channel) \<Rightarrow>
            (case channel of
               Some pinned \<Rightarrow> if pinned \<noteq> switch_channel then None
                 else Some (\<lambda>r. ob_producer_id r = producer_id)
             | None \<Rightarrow> Some (\<lambda>r. ob_channel r = switch_channel \<and> ob_producer_id r = producer_id)))
      else if ks_scope s = CAMPAIGN then
        (case ks_scope_key s of None \<Rightarrow> None
         | Some campaign_id \<Rightarrow> Some (\<lambda>r. ob_campaign_id r = Some campaign_id))
      else None)"

definition scope_claimable :: "timestamp \<Rightarrow> (uuid \<Rightarrow> bool) \<Rightarrow> string option \<Rightarrow> (outbox_row \<Rightarrow> bool)
    \<Rightarrow> channel_exclusion \<Rightarrow> outbox_row \<Rightarrow> bool" where
  "scope_claimable now locked channel arm x r \<longleftrightarrow> ob_next_attempt_at r \<le> now \<and> ob_leased_until r = None
     \<and> (case channel of None \<Rightarrow> True | Some c \<Rightarrow> ob_channel r = c)
     \<and> arm r \<and> not_excluded x r \<and> \<not> locked (ob_comms_request_id r)"

definition claim_for_scope :: "env \<Rightarrow> uuid_parser \<Rightarrow> string option \<Rightarrow> kill_switch \<Rightarrow> nat \<Rightarrow> timestamp
    \<Rightarrow> channel_exclusion \<Rightarrow> ('z world_scheme, sqlx_error, outbox_row list) io" where
  "claim_for_scope E pu channel s limit leased_until x =
     (if ce_blocked_entirely x then ret []
      else case scope_arm pu channel s of
        None \<Rightarrow> ret []
      | Some arm \<Rightarrow> stmt E (\<lambda>n.
          lease (scope_claimable (e_clock E n) (e_locked E n) channel arm x) limit leased_until))"

section \<open>Reads of the gates\<close>

definition find_request :: "timestamp \<Rightarrow> uuid \<Rightarrow> tenant_db \<Rightarrow> comms_request_row option" where
  "find_request created_at i d =
     find_row (\<lambda>r. cr_created_at r = created_at \<and> cr_id r = i) (t_comms_request d)"

record request_ciphertexts =
  rc_destination_ciphertext :: bytes
  rc_payload_ciphertext :: "bytes option"

definition load_ciphertexts :: "env \<Rightarrow> timestamp \<Rightarrow> uuid
    \<Rightarrow> ('z world_scheme, sqlx_error, request_ciphertexts option) io" where
  "load_ciphertexts E created_at i = query E (\<lambda>_ d.
     map_option (\<lambda>r. \<lparr>rc_destination_ciphertext = cr_destination_ciphertext r,
       rc_payload_ciphertext = cr_payload_ciphertext r\<rparr>) (find_request created_at i d))"

definition verified_at :: "uuid \<Rightarrow> tenant_db \<Rightarrow> timestamp option" where
  "verified_at address_id d =
     (case find_row (\<lambda>a. ca_id a = address_id) (t_customer_address d) of
        None \<Rightarrow> None | Some a \<Rightarrow> ca_verified_at a)"

definition load_verified_at :: "env \<Rightarrow> uuid \<Rightarrow> ('z world_scheme, sqlx_error, timestamp option) io" where
  "load_verified_at E address_id = query E (\<lambda>_. verified_at address_id)"

definition load_customer_timezone :: "env \<Rightarrow> uuid \<Rightarrow> ('z world_scheme, sqlx_error, string option) io" where
  "load_customer_timezone E customer_id = query E (\<lambda>_ d.
     map_option cu_timezone (find_row (\<lambda>c. cu_id c = customer_id) (t_customer d)))"

definition suppressed :: "timestamp \<Rightarrow> timestamp \<Rightarrow> uuid \<Rightarrow> tenant_db \<Rightarrow> bool" where
  "suppressed now created_at i d \<longleftrightarrow>
     (\<exists>cr \<in> set (t_comms_request d). \<exists>s \<in> set (t_suppression d).
        su_destination_hmac s = cr_destination_hmac cr
        \<and> cr_created_at cr = created_at \<and> cr_id cr = i \<and> now < su_review_at s)"

definition is_suppressed :: "env \<Rightarrow> timestamp \<Rightarrow> uuid \<Rightarrow> ('z world_scheme, sqlx_error, bool) io" where
  "is_suppressed E created_at i = query E (\<lambda>n. suppressed (e_clock E n) created_at i)"

definition consented :: "uuid \<Rightarrow> string \<Rightarrow> tenant_db \<Rightarrow> bool" where
  "consented address_id cls d =
     (case find_row (\<lambda>c. co_address_id c = address_id \<and> co_class c = cls) (t_consent d) of
        None \<Rightarrow> False | Some c \<Rightarrow> co_opted_in c)"

definition is_consented :: "env \<Rightarrow> uuid \<Rightarrow> string \<Rightarrow> ('z world_scheme, sqlx_error, bool) io" where
  "is_consented E address_id cls = query E (\<lambda>_. consented address_id cls)"

definition find_outbox :: "uuid \<Rightarrow> tenant_db \<Rightarrow> outbox_row option" where
  "find_outbox i d = find_row (\<lambda>r. ob_comms_request_id r = i) (t_outbox d)"

text \<open>\<open>fetch_one\<close>: a missing row is an error.\<close>

definition is_cancelled :: "env \<Rightarrow> uuid \<Rightarrow> ('z world_scheme, sqlx_error, bool) io" where
  "is_cancelled E i = stmt E (\<lambda>_ d.
     case find_outbox i d of None \<Rightarrow> Inl RowNotFound | Some r \<Rightarrow> Inr (ob_cancelled_at r \<noteq> None, d))"

section \<open>Writes\<close>

definition event_key :: "comms_event_row \<Rightarrow> timestamp \<times> uuid \<times> string \<times> string" where
  "event_key e = (ev_occurred_at e, ev_comms_request_id e, ev_event_type e, ev_provider_ref e)"

definition internal_event :: "uuid \<Rightarrow> uuid \<Rightarrow> timestamp \<Rightarrow> string \<Rightarrow> string option \<Rightarrow> string option
    \<Rightarrow> comms_event_row" where
  "internal_event i customer_id now event_type provider_ref provider_status =
     \<lparr>ev_comms_request_id = i, ev_customer_id = customer_id, ev_occurred_at = now,
      ev_event_type = event_type,
      ev_provider_ref = (case provider_ref of None \<Rightarrow> '''' | Some r \<Rightarrow> r),
      ev_provider_status = provider_status, ev_provider_payload_ciphertext = None\<rparr>"

definition add_event :: "comms_event_row \<Rightarrow> tenant_db \<Rightarrow> tenant_db" where
  "add_event e d = d\<lparr>t_comms_event := ins_ignore event_key e (t_comms_event d)\<rparr>"

definition record_event :: "env \<Rightarrow> uuid \<Rightarrow> uuid \<Rightarrow> string \<Rightarrow> ('z world_scheme, sqlx_error, unit) io" where
  "record_event E i customer_id event_type =
     bindE (utc_now E) (\<lambda>now.
       exec E (\<lambda>_. add_event (internal_event i customer_id now event_type None None)))"

definition rescheduled :: "uuid \<Rightarrow> timestamp \<Rightarrow> tenant_db \<Rightarrow> tenant_db" where
  "rescheduled i next_attempt_at d = d\<lparr>t_outbox := upd_where (\<lambda>r. ob_comms_request_id r = i)
     (\<lambda>r. r\<lparr>ob_leased_until := None, ob_next_attempt_at := next_attempt_at\<rparr>) (t_outbox d)\<rparr>"

definition reschedule_retry :: "env \<Rightarrow> uuid \<Rightarrow> timestamp \<Rightarrow> ('z world_scheme, sqlx_error, unit) io" where
  "reschedule_retry E i next_attempt_at = exec E (\<lambda>_. rescheduled i next_attempt_at)"

definition unleased :: "tenant_db \<Rightarrow> tenant_db" where
  "unleased d = d\<lparr>t_outbox := upd_where (\<lambda>r. ob_leased_until r \<noteq> None)
     (\<lambda>r. r\<lparr>ob_leased_until := None\<rparr>) (t_outbox d)\<rparr>"

definition clear_stale_leases :: "env \<Rightarrow> ('z world_scheme, sqlx_error, nat) io" where
  "clear_stale_leases E = stmt E (\<lambda>_ d.
     Inr (length (filter (\<lambda>r. ob_leased_until r \<noteq> None) (t_outbox d)), unleased d))"

definition finalized :: "timestamp \<Rightarrow> timestamp \<Rightarrow> uuid \<Rightarrow> uuid \<Rightarrow> string \<Rightarrow> string option \<Rightarrow> string option
    \<Rightarrow> string \<Rightarrow> tenant_db \<Rightarrow> tenant_db" where
  "finalized now created_at i customer_id event_type provider_ref provider_status final_status d =
    (let d1 = add_event (internal_event i customer_id now event_type provider_ref provider_status) d;
         d2 = d1\<lparr>t_comms_request := upd_where (\<lambda>r. cr_created_at r = created_at \<and> cr_id r = i)
                (\<lambda>r. r\<lparr>cr_final_status := Some final_status, cr_finalized_at := Some now\<rparr>)
                (t_comms_request d1)\<rparr>
     in d2\<lparr>t_outbox := del_where (\<lambda>r. ob_comms_request_id r = i) (t_outbox d2)\<rparr>)"

definition write_terminal :: "env \<Rightarrow> timestamp \<Rightarrow> uuid \<Rightarrow> uuid \<Rightarrow> string \<Rightarrow> string option \<Rightarrow> string option
    \<Rightarrow> string \<Rightarrow> ('z world_scheme, sqlx_error, unit) io" where
  "write_terminal E created_at i customer_id event_type provider_ref provider_status final_status =
     bindE (utc_now E) (\<lambda>now. exec E (\<lambda>_.
       finalized now created_at i customer_id event_type provider_ref provider_status final_status))"

section \<open>What a claim does\<close>

lemma leased_sel [simp]:
  "ob_comms_request_id (leased u r) = ob_comms_request_id r"
  "ob_created_at (leased u r) = ob_created_at r"
  "ob_channel (leased u r) = ob_channel r"
  "ob_producer_id (leased u r) = ob_producer_id r"
  "ob_campaign_id (leased u r) = ob_campaign_id r"
  "ob_customer_id (leased u r) = ob_customer_id r"
  "ob_cancelled_at (leased u r) = ob_cancelled_at r"
  "ob_leased_until (leased u r) = Some u"
  "ob_attempts (leased u r) = ob_attempts r + 1"
  by (simp_all add: leased_def)

lemma set_pick: "set (pick P n t) \<subseteq> {r \<in> set t. P r}"
  using set_top_by [of _ n "filter P t"] by (fastforce simp: pick_def)

lemma pick_id_iff:
  assumes "distinct (map ob_comms_request_id t)" and "r \<in> set t"
  shows "ob_comms_request_id r \<in> set (map ob_comms_request_id (pick P n t)) \<longleftrightarrow> r \<in> set (pick P n t)"
proof
  assume "ob_comms_request_id r \<in> set (map ob_comms_request_id (pick P n t))"
  then obtain r' where r': "r' \<in> set (pick P n t)" "ob_comms_request_id r' = ob_comms_request_id r"
    by auto
  then have "r' \<in> set t" using set_pick [of P n t] by blast
  with r' assms key_inj [OF assms(1)] show "r \<in> set (pick P n t)" by metis
qed simp

lemma distinct_pick: "distinct (map ob_comms_request_id t) \<Longrightarrow> distinct (map ob_comms_request_id (pick P n t))"
  by (simp add: pick_def distinct_map_top_by distinct_map_filter)

lemma length_pick: "length (pick P n t) = min n (length (filter P t))"
  by (simp add: pick_def length_top_by)

lemma lease_Inr:
  assumes "distinct (map ob_comms_request_id (t_outbox d))" and "lease P n u d = Inr (rows, d')"
  shows "d' = d\<lparr>t_outbox := map (\<lambda>r. if r \<in> set (pick P n (t_outbox d)) then leased u r else r) (t_outbox d)\<rparr>"
    and "rows = map (leased u) (filter (\<lambda>r. r \<in> set (pick P n (t_outbox d))) (t_outbox d))"
proof -
  let ?t = "t_outbox d"
  let ?I = "\<lambda>r. ob_comms_request_id r \<in> set (map ob_comms_request_id (pick P n ?t))"
  have rows: "rows = filter ?I (upd_where ?I (leased u) ?t)"
    and d': "d' = d\<lparr>t_outbox := upd_where ?I (leased u) ?t\<rparr>"
    using assms(2) by (auto simp: lease_def Let_def split: if_splits)
  have I: "?I r \<longleftrightarrow> r \<in> set (pick P n ?t)" if "r \<in> set ?t" for r
    using pick_id_iff [OF assms(1) that] .
  from d' show "d' = d\<lparr>t_outbox := map (\<lambda>r. if r \<in> set (pick P n ?t) then leased u r else r) ?t\<rparr>"
    using I by (simp add: upd_where_def cong: map_cong)
  from rows show "rows = map (leased u) (filter (\<lambda>r. r \<in> set (pick P n ?t)) ?t)"
    using I by (simp add: filter_upd_where cong: filter_cong)
qed

text \<open>The contract of both claim queries: at most \<open>limit\<close> rows, each a candidate under its new lease
  with one more attempt; nothing else in the table moves; a candidate left behind sorts no
  earlier than any row taken, and none is left behind while there is room.\<close>

definition leases_candidates :: "(outbox_row \<Rightarrow> bool) \<Rightarrow> nat \<Rightarrow> timestamp \<Rightarrow> tenant_db
    \<Rightarrow> outbox_row list \<Rightarrow> tenant_db \<Rightarrow> bool" where
  "leases_candidates P n u d rows d' \<longleftrightarrow>
     (\<exists>taken \<subseteq> {r \<in> set (t_outbox d). P r}.
        rows = map (leased u) (filter (\<lambda>r. r \<in> taken) (t_outbox d))
      \<and> d' = d\<lparr>t_outbox := map (\<lambda>r. if r \<in> taken then leased u r else r) (t_outbox d)\<rparr>
      \<and> length rows = min n (length (filter P (t_outbox d)))
      \<and> (\<forall>r \<in> taken. \<forall>r' \<in> set (t_outbox d) - taken. P r' \<longrightarrow>
           (ob_priority r, ob_next_attempt_at r) \<le> (ob_priority r', ob_next_attempt_at r')))"

lemma lease_candidates:
  assumes d: "distinct (map ob_comms_request_id (t_outbox d))"
    and l: "lease P n u d = Inr (rows, d')"
  shows "leases_candidates P n u d rows d'"
proof -
  let ?t = "t_outbox d" and ?p = "pick P n (t_outbox d)"
  have sub: "set ?p \<subseteq> {r \<in> set ?t. P r}" by (rule set_pick)
  have dist: "distinct (filter (\<lambda>r. r \<in> set ?p) ?t)" "distinct ?p"
    using d distinct_pick [OF d, of P n] by (simp_all add: distinct_map)
  have "set (filter (\<lambda>r. r \<in> set ?p) ?t) = set ?p" using sub by auto
  then have "length (filter (\<lambda>r. r \<in> set ?p) ?t) = length ?p"
    by (metis dist distinct_card)
  then have len: "length rows = min n (length (filter P ?t))"
    by (simp add: lease_Inr(2) [OF d l] length_pick)
  have least: "(ob_priority r, ob_next_attempt_at r) \<le> (ob_priority r', ob_next_attempt_at r')"
    if "r \<in> set ?p" "r' \<in> set ?t" "r' \<notin> set ?p" "P r'" for r r'
    using that unfolding pick_def by (intro top_by_least) auto
  show ?thesis
    unfolding leases_candidates_def
    using sub lease_Inr [OF d l] len least by (intro exI [of _ "set ?p"]) auto
qed

lemma not_excluded_iff: "\<not> ce_blocked_entirely x \<Longrightarrow>
  not_excluded x r \<longleftrightarrow> \<not> excluded x (ob_producer_id r) (ob_campaign_id r)"
  by (auto simp: not_excluded_def excluded_def split: option.splits)

text \<open>The arms of \<open>claim_for_scope\<close>, pinned or not, select exactly what the switch matches.\<close>

lemma scope_arm_matches:
  assumes "case channel of None \<Rightarrow> True | Some c \<Rightarrow> ob_channel r = c"
  shows "(case scope_arm pu channel s of None \<Rightarrow> False | Some arm \<Rightarrow> arm r) = matches_row pu s r"
  using assms
  by (auto simp: scope_arm_def matches_row_def matches_def split: option.splits)

section \<open>The queue invariant\<close>

text \<open>Queue rows have distinct ids, ledger rows distinct keys, and a queued row's ledger row exists
  and has no final status.\<close>

definition request_key :: "comms_request_row \<Rightarrow> timestamp \<times> uuid" where
  "request_key r = (cr_created_at r, cr_id r)"

definition outbox_key :: "outbox_row \<Rightarrow> timestamp \<times> uuid" where
  "outbox_key r = (ob_created_at r, ob_comms_request_id r)"

definition queue_ok :: "tenant_db \<Rightarrow> bool" where
  "queue_ok d \<longleftrightarrow> distinct (map ob_comms_request_id (t_outbox d))
     \<and> distinct (map request_key (t_comms_request d))
     \<and> distinct (map event_key (t_comms_event d))
     \<and> (\<forall>r \<in> set (t_outbox d). \<exists>cr \<in> set (t_comms_request d).
           request_key cr = outbox_key r \<and> cr_final_status cr = None)"

lemma queue_okD: "queue_ok d \<Longrightarrow> distinct (map ob_comms_request_id (t_outbox d))"
  by (simp add: queue_ok_def)

lemma queue_ok_map_outbox:
  assumes "queue_ok d" and "\<And>r. outbox_key (f r) = outbox_key r"
  shows "queue_ok (d\<lparr>t_outbox := map f (t_outbox d)\<rparr>)"
proof -
  have "ob_comms_request_id \<circ> f = ob_comms_request_id"
    using assms(2) by (simp add: outbox_key_def fun_eq_iff)
  with assms show ?thesis by (auto simp: queue_ok_def)
qed

lemma lease_queue_ok:
  assumes "queue_ok d" and "lease P n u d = Inr (rows, d')"
  shows "queue_ok d'"
  unfolding lease_Inr(1) [OF queue_okD [OF assms(1)] assms(2)]
  by (rule queue_ok_map_outbox [OF assms(1)]) (simp add: outbox_key_def)

lemma rescheduled_queue_ok: "queue_ok d \<Longrightarrow> queue_ok (rescheduled i t d)"
  unfolding rescheduled_def upd_where_def by (rule queue_ok_map_outbox) (auto simp: outbox_key_def)

lemma unleased_queue_ok: "queue_ok d \<Longrightarrow> queue_ok (unleased d)"
  unfolding unleased_def upd_where_def by (rule queue_ok_map_outbox) (auto simp: outbox_key_def)

lemma add_event_queue_ok: "queue_ok d \<Longrightarrow> queue_ok (add_event e d)"
  by (simp add: queue_ok_def add_event_def distinct_map_ins_ignore)

lemma finalized_queue_ok:
  assumes "queue_ok d"
  shows "queue_ok (finalized now created_at i cust ev pr ps fs d)"
proof -
  let ?d = "add_event (internal_event i cust now ev pr ps) d"
  have ok: "queue_ok ?d" using assms by (rule add_event_queue_ok)
  have "\<exists>cr \<in> set (t_comms_request (finalized now created_at i cust ev pr ps fs d)).
          request_key cr = outbox_key r \<and> cr_final_status cr = None"
    if r: "r \<in> set (t_outbox ?d)" "ob_comms_request_id r \<noteq> i" for r
  proof -
    obtain cr where cr: "cr \<in> set (t_comms_request ?d)" "request_key cr = outbox_key r"
        "cr_final_status cr = None"
      using ok r(1) unfolding queue_ok_def by blast
    then have "cr_id cr \<noteq> i" using r(2) by (simp add: request_key_def outbox_key_def)
    with cr show ?thesis by (force simp: finalized_def Let_def set_upd_where)
  qed
  with ok show ?thesis
    by (auto simp: queue_ok_def finalized_def Let_def set_del_where distinct_map_del_where
        map_key_upd_where request_key_def)
qed

lemmas queue_ok_writes = lease_queue_ok rescheduled_queue_ok unleased_queue_ok add_event_queue_ok
  finalized_queue_ok

lemma keeps_queue_ok_claim [keeps_intros]:
  "db_stable E queue_ok \<Longrightarrow> keeps (db_inv queue_ok) (claim E ch n u x)"
  unfolding claim_def by (intro keeps_intros keeps_stmt) (auto elim: lease_queue_ok)

lemma keeps_queue_ok_claim_for_scope [keeps_intros]:
  "db_stable E queue_ok \<Longrightarrow> keeps (db_inv queue_ok) (claim_for_scope E pu ch s n u x)"
  unfolding claim_for_scope_def by (intro keeps_intros keeps_stmt) (auto elim: lease_queue_ok)

lemma keeps_write_terminal [keeps_intros]:
  assumes "db_stable E P" and "\<And>now d. P d \<Longrightarrow> P (finalized now cre i cust ev pr ps fs d)"
  shows "keeps (db_inv P) (write_terminal E cre i cust ev pr ps fs)"
  unfolding write_terminal_def using assms by (intro keeps_intros)

lemma keeps_record_event [keeps_intros]:
  assumes "db_stable E P" and "\<And>now d. P d \<Longrightarrow> P (add_event (internal_event i cust now ev None None) d)"
  shows "keeps (db_inv P) (record_event E i cust ev)"
  unfolding record_event_def using assms by (intro keeps_intros)

lemma keeps_reschedule_retry [keeps_intros]:
  assumes "db_stable E P" and "\<And>d. P d \<Longrightarrow> P (rescheduled i t d)"
  shows "keeps (db_inv P) (reschedule_retry E i t)"
  unfolding reschedule_retry_def using assms by (intro keeps_intros)

lemma keeps_clear_stale_leases [keeps_intros]:
  assumes "db_stable E P" and "\<And>d. P d \<Longrightarrow> P (unleased d)"
  shows "keeps (db_inv P) (clear_stale_leases E)"
  unfolding clear_stale_leases_def using assms by (intro keeps_stmt) auto

lemma keeps_is_cancelled [keeps_intros]: "db_stable E P \<Longrightarrow> keeps (db_inv P) (is_cancelled E i)"
  unfolding is_cancelled_def by (rule keeps_stmt) (auto split: option.splits)

lemma keeps_gate_reads [keeps_intros]:
  assumes "db_stable E P"
  shows "keeps (db_inv P) (load_ciphertexts E cre i)" "keeps (db_inv P) (load_verified_at E a)"
    "keeps (db_inv P) (load_customer_timezone E c)" "keeps (db_inv P) (is_suppressed E cre i)"
    "keeps (db_inv P) (is_consented E a cl)"
  using assms
  by (simp_all add: load_ciphertexts_def load_verified_at_def load_customer_timezone_def
      is_suppressed_def is_consented_def keeps_query)

section \<open>A concrete queue\<close>

text \<open>One queued transactional message and its ledger row; the witnesses run on it.\<close>

definition sample_row :: outbox_row where
  "sample_row = \<lparr>ob_comms_request_id = 10, ob_created_at = 0, ob_channel = ''sms'',
     ob_class = ''transactional'', ob_priority = 1, ob_customer_id = 20, ob_address_id = 30,
     ob_producer_id = 40, ob_campaign_id = None, ob_next_attempt_at = 0, ob_expires_at = None,
     ob_cancelled_at = None, ob_attempts = 0, ob_leased_until = None\<rparr>"

definition sample_request :: comms_request_row where
  "sample_request = \<lparr>cr_tenant_id = 1, cr_id = 10, cr_created_at = 0, cr_customer_id = 20,
     cr_channel = ''sms'', cr_class = ''transactional'', cr_template_id = ''t'',
     cr_template_version = 1, cr_campaign_id = None, cr_destination_hmac = [1],
     cr_destination_ciphertext = [2], cr_payload_ciphertext = Some [3], cr_producer_id = 40,
     cr_scheduled_for = None, cr_expires_at = None, cr_final_status = None,
     cr_finalized_at = None\<rparr>"

definition sample_db :: tenant_db where
  "sample_db = empty_db\<lparr>t_outbox := [sample_row], t_comms_request := [sample_request]\<rparr>"

definition queued_world :: world where
  "queued_world = \<lparr>w_db = sample_db, w_ctl = empty_ctl, w_tick = 0\<rparr>"

lemmas sample_defs = sample_row_def sample_request_def sample_db_def queued_world_def empty_db_def
  empty_ctl_def

lemma sample_queue_ok [simp]: "queue_ok (w_db queued_world)"
  by (simp add: sample_defs queue_ok_def request_key_def outbox_key_def)

section \<open>Properties\<close>

text \<open>The rows a claim for a channel may take, against the switches themselves.\<close>

definition free_of :: "uuid_parser \<Rightarrow> kill_switch list \<Rightarrow> outbox_row \<Rightarrow> bool" where
  "free_of pu ss r \<longleftrightarrow> (\<forall>s \<in> set ss. \<not> matches_row pu s r)"

definition free_candidate :: "env \<Rightarrow> nat \<Rightarrow> uuid_parser \<Rightarrow> kill_switch list \<Rightarrow> string \<Rightarrow> outbox_row \<Rightarrow> bool" where
  "free_candidate E n pu ss channel r \<longleftrightarrow> ob_channel r = channel \<and> ob_next_attempt_at r \<le> e_clock E n
     \<and> ob_leased_until r = None \<and> free_of pu ss r \<and> \<not> e_locked E n (ob_comms_request_id r)"

text \<open>The rows a drain or discard of a switch may take, and the exclusion its task passes.\<close>

definition scope_candidate :: "env \<Rightarrow> nat \<Rightarrow> uuid_parser \<Rightarrow> kill_switch list \<Rightarrow> string option \<Rightarrow> kill_switch
    \<Rightarrow> outbox_row \<Rightarrow> bool" where
  "scope_candidate E n pu ss channel s r \<longleftrightarrow>
     (case channel of None \<Rightarrow> True | Some c \<Rightarrow> ob_channel r = c \<and> free_of pu ss r)
     \<and> matches_row pu s r \<and> ob_next_attempt_at r \<le> e_clock E n
     \<and> ob_leased_until r = None \<and> \<not> e_locked E n (ob_comms_request_id r)"

definition drain_exclusion :: "uuid_parser \<Rightarrow> kill_switch list \<Rightarrow> string option \<Rightarrow> channel_exclusion" where
  "drain_exclusion pu ss channel =
     (case channel of None \<Rightarrow> default_exclusion | Some c \<Rightarrow> exclusion_for_channel pu ss c)"

lemma claimable_iff_free:
  assumes "\<not> ce_blocked_entirely (exclusion_for_channel pu ss channel)"
  shows "claimable now locked channel (exclusion_for_channel pu ss channel) r \<longleftrightarrow>
    ob_channel r = channel \<and> ob_next_attempt_at r \<le> now \<and> ob_leased_until r = None
    \<and> free_of pu ss r \<and> \<not> locked (ob_comms_request_id r)"
  using assms
  by (auto simp: claimable_def not_excluded_iff excl.blocks_build free_of_def matches_row_def)

lemma blocked_entirely_not_free:
  assumes "ce_blocked_entirely (exclusion_for_channel pu ss (ob_channel r))"
  shows "\<not> free_of pu ss r"
proof -
  have "excluded (exclusion_for_channel pu ss (ob_channel r)) (ob_producer_id r) (ob_campaign_id r)"
    using assms by (simp add: excluded_def)
  then show ?thesis by (auto simp: excl.blocks_build free_of_def matches_row_def)
qed

lemma leases_nothing:
  "(\<And>r. r \<in> set (t_outbox d) \<Longrightarrow> \<not> P r) \<Longrightarrow> leases_candidates P n u d [] d"
  by (auto simp: leases_candidates_def filter_empty_conv intro!: exI [of _ "{}"])

lemma claim_for_scope_candidates:
  assumes "db_stable E queue_ok" and "queue_ok (w_db w)"
  shows "wp (claim_for_scope E pu channel s n u (drain_exclusion pu ss channel))
     (\<lambda>rows w'. \<exists>d \<in> {w_db w, e_interfere E (w_tick w) (w_db w)}.
        leases_candidates (scope_candidate E (w_tick w) pu ss channel s) n u d rows (w_db w'))
     (\<lambda>e w'. let d = e_interfere E (w_tick w) (w_db w) in
        w_db w' = d \<or> (\<exists>rows. leases_candidates (scope_candidate E (w_tick w) pu ss channel s) n u d rows (w_db w'))) w"
    (is "wp (claim_for_scope E pu channel s n u ?x) ?Q ?R w")
proof (cases "ce_blocked_entirely ?x")
  case True
  then have "\<not> scope_candidate E (w_tick w) pu ss channel s r" for r
    using blocked_entirely_not_free [of pu ss r]
    by (auto simp: scope_candidate_def drain_exclusion_def default_exclusion_def split: option.splits)
  with True show ?thesis by (auto simp: claim_for_scope_def wp_simps intro!: leases_nothing)
next
  case False
  have arm: "(case scope_arm pu channel s of None \<Rightarrow> False | Some arm \<Rightarrow> arm r) = matches_row pu s r"
    if "case channel of None \<Rightarrow> True | Some c \<Rightarrow> ob_channel r = c" for r
    using that by (rule scope_arm_matches)
  show ?thesis
  proof (cases "scope_arm pu channel s")
    case None
    then have "\<not> scope_candidate E (w_tick w) pu ss channel s r" for r
      using arm [of r] by (auto simp: scope_candidate_def split: option.splits)
    with None False show ?thesis by (auto simp: claim_for_scope_def wp_simps intro!: leases_nothing)
  next
    case (Some f)
    have "scope_claimable (e_clock E (w_tick w)) (e_locked E (w_tick w)) channel f ?x r
        = scope_candidate E (w_tick w) pu ss channel s r" for r
      using arm [of r] Some False
      by (auto simp: scope_claimable_def scope_candidate_def not_excluded_iff drain_exclusion_def
          excl.blocks_build free_of_def matches_row_def split: option.splits)
    then have P: "scope_claimable (e_clock E (w_tick w)) (e_locked E (w_tick w)) channel f ?x
        = scope_candidate E (w_tick w) pu ss channel s"
      by (rule ext)
    have "queue_ok (e_interfere E (w_tick w) (w_db w))" by (rule stableD [OF assms(1,2)])
    from lease_candidates [OF queue_okD [OF this]] Some False show ?thesis
      by (auto simp: claim_for_scope_def wp_simps P Let_def split: sum.splits fault.splits; blast)
  qed
qed

text \<open>Claiming for a channel under any set of switches leases, with one more attempt each, at most
  the requested number of rows: rows of that channel that are due, unleased and not locked by
  another session, and that none of the switches matches.  Rows left behind sort no earlier
  by priority and due time than rows taken, none is left behind while there is room, and no
  other row of the table changes.  An error leaves the queue as it was or, when the reply
  was lost, as the same claim would.\<close>

theorem claim_takes_exactly_free_rows:
  assumes "db_stable E queue_ok" and "queue_ok (w_db w)"
  shows "wp (claim E channel n u (exclusion_for_channel pu ss channel))
     (\<lambda>rows w'. \<exists>d \<in> {w_db w, e_interfere E (w_tick w) (w_db w)}.
        leases_candidates (free_candidate E (w_tick w) pu ss channel) n u d rows (w_db w'))
     (\<lambda>e w'. let d = e_interfere E (w_tick w) (w_db w) in
        w_db w' = d \<or> (\<exists>rows. leases_candidates (free_candidate E (w_tick w) pu ss channel) n u d rows (w_db w'))) w"
proof (cases "ce_blocked_entirely (exclusion_for_channel pu ss channel)")
  case True
  then have "\<not> free_candidate E (w_tick w) pu ss channel r" for r
    using blocked_entirely_not_free [of pu ss r] by (auto simp: free_candidate_def)
  with True show ?thesis by (auto simp: claim_def wp_simps intro!: leases_nothing)
next
  case False
  then have P: "claimable (e_clock E (w_tick w)) (e_locked E (w_tick w)) channel
      (exclusion_for_channel pu ss channel) = free_candidate E (w_tick w) pu ss channel"
    by (auto simp: free_candidate_def claimable_iff_free fun_eq_iff)
  have "queue_ok (e_interfere E (w_tick w) (w_db w))" by (rule stableD [OF assms(1,2)])
  from lease_candidates [OF queue_okD [OF this]] False show ?thesis
    by (auto simp: claim_def wp_simps P Let_def split: sum.splits fault.splits; blast)
qed

theorem claim_takes_exactly_free_rows_witness:
  "wp (claim (quiet_env 5) ''sms'' 20 9 (exclusion_for_channel (\<lambda>_. None) [] ''sms''))
     (\<lambda>rows w'. \<exists>d \<in> {w_db queued_world, e_interfere (quiet_env 5) (w_tick queued_world) (w_db queued_world)}.
        leases_candidates (free_candidate (quiet_env 5) (w_tick queued_world) (\<lambda>_. None) [] ''sms'') 20 9 d rows (w_db w'))
     (\<lambda>e w'. let d = e_interfere (quiet_env 5) (w_tick queued_world) (w_db queued_world) in
        w_db w' = d \<or> (\<exists>rows. leases_candidates (free_candidate (quiet_env 5) (w_tick queued_world) (\<lambda>_. None) [] ''sms'')
            20 9 d rows (w_db w'))) queued_world"
  by (rule claim_takes_exactly_free_rows) (simp_all add: quiet_stable)

text \<open>The release drain and the discard task claim the other way round: due, unleased, unlocked rows
  that the switch itself matches, on the pinned channel when one is given, and that no switch
  of the exclusion matches.  The same ordering and frame as for the ordinary claim hold.\<close>

theorem claim_for_scope_takes_matching_rows:
  assumes "db_stable E queue_ok" and "queue_ok (w_db w)"
  shows "wp (claim_for_scope E pu channel s n u (drain_exclusion pu ss channel))
     (\<lambda>rows w'. \<exists>d \<in> {w_db w, e_interfere E (w_tick w) (w_db w)}.
        leases_candidates (scope_candidate E (w_tick w) pu ss channel s) n u d rows (w_db w'))
     (\<lambda>e w'. let d = e_interfere E (w_tick w) (w_db w) in
        w_db w' = d \<or> (\<exists>rows. leases_candidates (scope_candidate E (w_tick w) pu ss channel s) n u d rows (w_db w'))) w"
  using assms by (rule claim_for_scope_candidates)

definition sample_global :: kill_switch where
  "sample_global = \<lparr>ks_id = 5, ks_scope = GLOBAL, ks_scope_key = None, ks_on_queued = HOLD,
     ks_engaged_by = ''ops'', ks_engaged_at = 0, ks_reason = ''incident'', ks_released_by = None,
     ks_released_at = None\<rparr>"

theorem claim_for_scope_takes_matching_rows_witness:
  "wp (claim_for_scope (quiet_env 5) (\<lambda>_. None) None sample_global 20 9 (drain_exclusion (\<lambda>_. None) [] None))
     (\<lambda>rows w'. \<exists>d \<in> {w_db queued_world, e_interfere (quiet_env 5) (w_tick queued_world) (w_db queued_world)}.
        leases_candidates (scope_candidate (quiet_env 5) (w_tick queued_world) (\<lambda>_. None) [] None sample_global)
          20 9 d rows (w_db w'))
     (\<lambda>e w'. let d = e_interfere (quiet_env 5) (w_tick queued_world) (w_db queued_world) in
        w_db w' = d \<or> (\<exists>rows. leases_candidates
          (scope_candidate (quiet_env 5) (w_tick queued_world) (\<lambda>_. None) [] None sample_global)
          20 9 d rows (w_db w'))) queued_world"
  by (rule claim_for_scope_takes_matching_rows) (simp_all add: quiet_stable)

text \<open>The three effects of a terminal write, and its frame.\<close>

definition terminal_effect :: "timestamp \<Rightarrow> timestamp \<Rightarrow> uuid \<Rightarrow> string \<Rightarrow> string \<Rightarrow> tenant_db \<Rightarrow> tenant_db \<Rightarrow> bool" where
  "terminal_effect now created_at i event_type final_status d d' \<longleftrightarrow>
     find_outbox i d' = None
   \<and> map_option (\<lambda>r. (cr_final_status r, cr_finalized_at r)) (find_request created_at i d')
       = map_option (\<lambda>_. (Some final_status, Some now)) (find_request created_at i d)
   \<and> (\<exists>e \<in> set (t_comms_event d'). ev_comms_request_id e = i \<and> ev_occurred_at e = now \<and> ev_event_type e = event_type)
   \<and> (\<forall>j. j \<noteq> i \<longrightarrow> find_outbox j d' = find_outbox j d)
   \<and> (\<forall>c j. (c, j) \<noteq> (created_at, i) \<longrightarrow> find_request c j d' = find_request c j d)"

lemma find_row_del_where: "(\<And>r. P r \<Longrightarrow> \<not> Q r) \<Longrightarrow> find_row P (del_where Q t) = find_row P t"
  by (induction t) auto

lemma finalized_effect:
  "terminal_effect now created_at i ev fs d (finalized now created_at i cust ev pr ps fs d)"
proof -
  let ?e = "internal_event i cust now ev pr ps"
  let ?g = "\<lambda>r. if cr_created_at r = created_at \<and> cr_id r = i
      then r\<lparr>cr_final_status := Some fs, cr_finalized_at := Some now\<rparr> else r"
  have req: "find_request c j (finalized now created_at i cust ev pr ps fs d)
      = map_option ?g (find_request c j d)" for c j
    by (simp add: finalized_def Let_def find_request_def add_event_def find_row_upd_where_other)
  have own: "cr_created_at r = c \<and> cr_id r = j" if "find_request c j d = Some r" for c j r
    using find_row_SomeD [OF that [unfolded find_request_def]] by simp
  have "find_request c j (finalized now created_at i cust ev pr ps fs d) = find_request c j d"
    if "(c, j) \<noteq> (created_at, i)" for c j
    using that own [of c j] unfolding req by (cases "find_request c j d") auto
  moreover have "map_option (\<lambda>r. (cr_final_status r, cr_finalized_at r))
        (find_request created_at i (finalized now created_at i cust ev pr ps fs d))
      = map_option (\<lambda>_. (Some fs, Some now)) (find_request created_at i d)"
    unfolding req using own [of created_at i] by (cases "find_request created_at i d") auto
  moreover have "\<exists>e \<in> set (ins_ignore event_key ?e (t_comms_event d)). event_key e = event_key ?e"
    by (rule ins_ignore_has_key)
  then have "\<exists>e \<in> set (t_comms_event (finalized now created_at i cust ev pr ps fs d)).
      ev_comms_request_id e = i \<and> ev_occurred_at e = now \<and> ev_event_type e = ev"
    by (auto simp: finalized_def Let_def add_event_def event_key_def internal_event_def)
  moreover have "find_outbox i (finalized now created_at i cust ev pr ps fs d) = None"
    by (simp add: find_outbox_def finalized_def Let_def find_row_None set_del_where)
  moreover have "find_outbox j (finalized now created_at i cust ev pr ps fs d) = find_outbox j d" if "j \<noteq> i" for j
    using that by (simp add: find_outbox_def finalized_def Let_def add_event_def find_row_del_where)
  ultimately show ?thesis by (simp add: terminal_effect_def)
qed

text \<open>A terminal write is all or nothing.  When it reports success the row is gone from the queue,
  its ledger row carries the final status and time, and the event is in the stream; other
  queue and ledger rows are untouched.  When it reports an error the database is either
  exactly what the other sessions left or has all of these effects, never some of them.\<close>

theorem write_terminal_all_or_nothing:
  "wp (write_terminal E created_at i cust ev pr ps fs)
     (\<lambda>_ w'. terminal_effect (e_clock E (w_tick w)) created_at i ev fs
        (e_interfere E (Suc (w_tick w)) (w_db w)) (w_db w'))
     (\<lambda>e w'. e = Io \<and> (w_db w' = e_interfere E (Suc (w_tick w)) (w_db w)
        \<or> terminal_effect (e_clock E (w_tick w)) created_at i ev fs
            (e_interfere E (Suc (w_tick w)) (w_db w)) (w_db w'))) w"
  by (simp add: write_terminal_def wp_simps Let_def finalized_effect split: fault.splits)

text \<open>The queue and the ledger stay consistent: distinct queue ids, distinct ledger keys, distinct
  events, and every queued row backed by a ledger row that is not final.  Every statement the
  dispatcher issues keeps this, whatever fails, next to any sessions that keep it.\<close>

theorem dispatcher_statements_keep_queue:
  assumes "db_stable E queue_ok" and "queue_ok (w_db w)"
  shows "queue_ok (w_db (snd (claim E ch n u x w)))
     \<and> queue_ok (w_db (snd (claim_for_scope E pu chs s n u x w)))
     \<and> queue_ok (w_db (snd (write_terminal E created_at i cust ev pr ps fs w)))
     \<and> queue_ok (w_db (snd (record_event E i cust ev w)))
     \<and> queue_ok (w_db (snd (reschedule_retry E i t w)))
     \<and> queue_ok (w_db (snd (clear_stale_leases E w)))"
  using assms(1)
  by (intro conjI keeps_dbD [where P = queue_ok and w = w, OF _ assms(2)]) (auto intro!: keeps_intros queue_ok_writes)

theorem dispatcher_statements_keep_queue_witness:
  "queue_ok (w_db (snd (claim (quiet_env 5) ''sms'' 20 9 default_exclusion queued_world)))
     \<and> queue_ok (w_db (snd (claim_for_scope (quiet_env 5) (\<lambda>_. None) None sample_global 20 9 default_exclusion queued_world)))
     \<and> queue_ok (w_db (snd (write_terminal (quiet_env 5) 0 10 20 ''sent'' None None ''sent'' queued_world)))
     \<and> queue_ok (w_db (snd (record_event (quiet_env 5) 10 20 ''sent'' queued_world)))
     \<and> queue_ok (w_db (snd (reschedule_retry (quiet_env 5) 10 7 queued_world)))
     \<and> queue_ok (w_db (snd (clear_stale_leases (quiet_env 5) queued_world)))"
  by (rule dispatcher_statements_keep_queue) (simp_all add: quiet_stable)

end
