(* ===== verification/Zones.thy ===== *)
theory Zones
  imports Schema
begin

text \<open>
  Local time, as the quiet-hours and quota components use it from \<open>chrono\<close> and \<open>chrono_tz\<close>.

  The time-zone database is third-party data: a zone is a record of its two conversions,
  \<open>with_timezone\<close> (an instant to the local wall clock) and \<open>from_local_datetime\<close> (a wall-clock
  reading to the instants that show it), and zone names are parsed by a parameter of type
  \<open>zone_parser\<close>.  The predicate \<open>lawful\<close> states what the documentation of
  \<open>from_local_datetime\<close> promises: every instant it returns shows the requested reading, and an
  ambiguous reading lists the earlier instant first.  A wall-clock reading is its
  microseconds since the local epoch, so its day and time of day are quotient and remainder.
\<close>

datatype local_result = LNone | LSingle timestamp | LAmbiguous timestamp timestamp

record zone =
  z_to_local :: "timestamp \<Rightarrow> int"
  z_from_local :: "int \<Rightarrow> local_result"

type_synonym zone_parser = "string \<Rightarrow> zone option"

definition lawful :: "zone \<Rightarrow> bool" where
  "lawful z \<longleftrightarrow> (\<forall>x. case z_from_local z x of
       LNone \<Rightarrow> True
     | LSingle t \<Rightarrow> z_to_local z t = x
     | LAmbiguous t u \<Rightarrow> z_to_local z t = x \<and> z_to_local z u = x \<and> t < u)"

text \<open>\<open>LocalResult::earliest\<close>.\<close>

primrec earliest :: "local_result \<Rightarrow> timestamp option" where
  "earliest LNone = None"
| "earliest (LSingle t) = Some t"
| "earliest (LAmbiguous t u) = Some t"

abbreviation DAY :: int where "DAY \<equiv> days 1"

definition local_time :: "zone \<Rightarrow> timestamp \<Rightarrow> int" where
  "local_time z t = z_to_local z t mod DAY"

definition local_date :: "zone \<Rightarrow> timestamp \<Rightarrow> int" where
  "local_date z t = z_to_local z t div DAY"

lemma lawful_earliest: "lawful z \<Longrightarrow> earliest (z_from_local z x) = Some t \<Longrightarrow> z_to_local z t = x"
  by (cases "z_from_local z x") (auto simp: lawful_def dest: spec [of _ x])

lemma earliest_None [simp]: "earliest r = None \<longleftrightarrow> r = LNone"
  by (cases r) auto

lemma local_split: "z_to_local z t = local_date z t * DAY + local_time z t"
  by (simp add: local_date_def local_time_def)

lemma local_time_bounds: "0 \<le> local_time z t" "local_time z t < DAY"
  by (simp_all add: local_time_def)

text \<open>A zone at a fixed offset, and one whose clock is set back by an hour at the epoch.\<close>

definition fixed_zone :: "int \<Rightarrow> zone" where
  "fixed_zone off = \<lparr>z_to_local = \<lambda>t. t + off, z_from_local = \<lambda>x. LSingle (x - off)\<rparr>"

definition fall_back_zone :: zone where
  "fall_back_zone = \<lparr>z_to_local = \<lambda>t. if t < 0 then t + hours 1 else t,
     z_from_local = \<lambda>x. if x < 0 then LSingle (x - hours 1)
       else if x < hours 1 then LAmbiguous (x - hours 1) x else LSingle x\<rparr>"

lemma lawful_fixed_zone [simp]: "lawful (fixed_zone off)"
  by (simp add: lawful_def fixed_zone_def)

lemma lawful_fall_back_zone [simp]: "lawful fall_back_zone"
  by (auto simp: lawful_def fall_back_zone_def split: if_splits)

end
