(* ===== verification/QuietHours.thy ===== *)
theory QuietHours
  imports Zones
begin

text \<open>
  The quiet-hours window (\<open>quiet_hours/window.rs\<close>, \<open>model.rs\<close>): whether a message may go out now
  in the customer's local time, and the instant it is put off to.
\<close>

abbreviation JITTER_MAX_MS :: int where "JITTER_MAX_MS \<equiv> 1800000"
abbreviation MAX_GAP_SEARCH :: int where "MAX_GAP_SEARCH \<equiv> hours 4"

text \<open>The search of \<open>resolve_local\<close>: a minute at a time until a wall-clock reading exists.\<close>

function resolve_from :: "zone \<Rightarrow> int \<Rightarrow> int \<Rightarrow> timestamp option" where
  "resolve_from z candidate deadline =
     (case z_from_local z candidate of
        LSingle t \<Rightarrow> Some t
      | LAmbiguous t _ \<Rightarrow> Some t
      | LNone \<Rightarrow> if candidate + mins 1 > deadline then None
                 else resolve_from z (candidate + mins 1) deadline)"
  by pat_completeness auto
termination
  by (relation "measure (\<lambda>(z, candidate, deadline). nat (deadline - candidate))") auto

declare resolve_from.simps [simp del]

definition resolve_local :: "zone \<Rightarrow> int \<Rightarrow> int \<Rightarrow> timestamp option" where
  "resolve_local z date time =
     (let candidate = date * DAY + time in resolve_from z candidate (candidate + MAX_GAP_SEARCH))"

definition in_window :: "quiet_hours_policy \<Rightarrow> int \<Rightarrow> bool" where
  "in_window policy now_local =
     (if qh_start_local policy > qh_end_local policy
      then now_local \<ge> qh_start_local policy \<or> now_local < qh_end_local policy
      else now_local \<ge> qh_start_local policy \<and> now_local < qh_end_local policy)"

text \<open>The day on which the window the local clock is in ends.\<close>

definition end_date :: "quiet_hours_policy \<Rightarrow> zone \<Rightarrow> timestamp \<Rightarrow> int" where
  "end_date policy z now =
     (if qh_start_local policy > qh_end_local policy \<and> local_time z now \<ge> qh_start_local policy
      then local_date z now + 1 else local_date z now)"

definition pick_zone :: "zone_parser \<Rightarrow> string \<Rightarrow> string \<Rightarrow> zone option" where
  "pick_zone pz customer_tz tenant_default_tz =
     (case pz customer_tz of Some z \<Rightarrow> Some z | None \<Rightarrow> pz tenant_default_tz)"

definition resolve_reschedule :: "env \<Rightarrow> zone_parser \<Rightarrow> timestamp \<Rightarrow> string \<Rightarrow> string \<Rightarrow> quiet_hours_policy
    \<Rightarrow> ('z world_scheme, 'e, timestamp option) io" where
  "resolve_reschedule E pz now customer_tz tenant_default_tz policy =
     (case pick_zone pz customer_tz tenant_default_tz of
        None \<Rightarrow> ret None
      | Some z \<Rightarrow>
         if \<not> in_window policy (local_time z now) then ret None
         else (case resolve_local z (end_date policy z now) (qh_end_local policy) of
             None \<Rightarrow> ret None
           | Some window_end \<Rightarrow>
               bindE (random_upto E JITTER_MAX_MS) (\<lambda>jitter. ret (Some (window_end + millis jitter)))))"

section \<open>The gap search\<close>

text \<open>What the search computes: the earliest instant of the first existing reading at whole minutes
  from the candidate, up to the deadline.\<close>

lemma resolve_from_spec:
  assumes "0 \<le> k" and "\<forall>j. 0 \<le> j \<and> j < k \<longrightarrow> z_from_local z (c + mins j) = LNone"
    and "c + mins k \<le> dl" and "earliest (z_from_local z (c + mins k)) = Some t"
  shows "resolve_from z c dl = Some t"
  using assms
proof (induction "nat k" arbitrary: k c)
  case 0
  then show ?case by (subst resolve_from.simps) (auto split: local_result.splits)
next
  case (Suc n)
  then have k: "0 < k" "n = nat (k - 1)" by auto
  have gap: "z_from_local z c = LNone" using Suc.prems(2) k(1) by (auto dest: spec [of _ 0])
  have "resolve_from z (c + mins 1) dl = Some t"
  proof (rule Suc.hyps(1) [OF k(2)])
    show "\<forall>j. 0 \<le> j \<and> j < k - 1 \<longrightarrow> z_from_local z (c + mins 1 + mins j) = LNone"
    proof safe
      fix j :: int assume "0 \<le> j" "j < k - 1"
      then have "z_from_local z (c + mins (j + 1)) = LNone"
        using Suc.prems(2) [rule_format, of "j + 1"] by linarith
      then show "z_from_local z (c + mins 1 + mins j) = LNone" by (simp add: algebra_simps)
    qed
  qed (use Suc.prems k in \<open>auto simp: algebra_simps\<close>)
  moreover have "c + mins 1 \<le> dl" using Suc.prems(3) k(1) by linarith
  ultimately show ?case by (subst resolve_from.simps) (simp add: gap)
qed

lemma resolve_from_Some:
  "resolve_from z c dl = Some t \<Longrightarrow> c \<le> dl \<Longrightarrow>
   \<exists>k \<ge> 0. c + mins k \<le> dl \<and> earliest (z_from_local z (c + mins k)) = Some t
     \<and> (\<forall>j. 0 \<le> j \<and> j < k \<longrightarrow> z_from_local z (c + mins j) = LNone)"
proof (induction z c dl rule: resolve_from.induct)
  case (1 z c dl)
  show ?case
  proof (cases "z_from_local z c")
    case LNone
    then have le: "c + mins 1 \<le> dl" and "resolve_from z (c + mins 1) dl = Some t"
      using 1(2) by (subst (asm) resolve_from.simps, simp split: if_splits)+
    from 1(1) [OF LNone _ this(2,1)] le obtain k where k: "k \<ge> 0" "c + mins 1 + mins k \<le> dl"
        "earliest (z_from_local z (c + mins 1 + mins k)) = Some t"
        "\<forall>j. 0 \<le> j \<and> j < k \<longrightarrow> z_from_local z (c + mins 1 + mins j) = LNone" by auto
    have "z_from_local z (c + mins j) = LNone" if "0 \<le> j" "j < k + 1" for j
    proof (cases "j = 0")
      case False
      then have "0 \<le> j - 1 \<and> j - 1 < k" using that by simp
      then have "z_from_local z (c + mins 1 + mins (j - 1)) = LNone" using k(4) by blast
      then show ?thesis by (simp add: algebra_simps)
    qed (simp add: LNone)
    with k show ?thesis by (intro exI [of _ "k + 1"]) (auto simp: algebra_simps)
  qed (use 1 in \<open>auto simp: resolve_from.simps intro!: exI [of _ 0]\<close>)
qed

lemma resolve_local_Some_iff:
  "resolve_local z date time = Some t \<longleftrightarrow>
   (\<exists>k. 0 \<le> k \<and> k \<le> 240 \<and> earliest (z_from_local z (date * DAY + time + mins k)) = Some t
     \<and> (\<forall>j. 0 \<le> j \<and> j < k \<longrightarrow> z_from_local z (date * DAY + time + mins j) = LNone))"
  unfolding resolve_local_def Let_def
  by (auto dest!: resolve_from_Some intro: resolve_from_spec)

lemma resolve_local_None_iff:
  "resolve_local z date time = None \<longleftrightarrow>
   (\<forall>k. 0 \<le> k \<and> k \<le> 240 \<longrightarrow> z_from_local z (date * DAY + time + mins k) = LNone)"
    (is "_ \<longleftrightarrow> (\<forall>k. 0 \<le> k \<and> k \<le> 240 \<longrightarrow> ?gap k)")
proof
  assume none: "resolve_local z date time = None"
  show "\<forall>k. 0 \<le> k \<and> k \<le> 240 \<longrightarrow> ?gap k"
  proof (rule ccontr)
    assume "\<not> (\<forall>k. 0 \<le> k \<and> k \<le> 240 \<longrightarrow> ?gap k)"
    then obtain k0 where "0 \<le> k0" "k0 \<le> 240" "\<not> ?gap k0" by auto
    then have ex: "\<exists>n :: nat. n \<le> 240 \<and> \<not> ?gap (int n)" by (intro exI [of _ "nat k0"]) auto
    define m where "m = (LEAST n :: nat. n \<le> 240 \<and> \<not> ?gap (int n))"
    have m: "m \<le> 240" "\<not> ?gap (int m)" using LeastI_ex [OF ex] by (auto simp: m_def)
    have "?gap j" if "0 \<le> j" "j < int m" for j
      using not_less_Least [of "nat j" "\<lambda>n. n \<le> 240 \<and> \<not> ?gap (int n)"] that m(1) by (auto simp: m_def)
    moreover obtain t where "earliest (z_from_local z (date * DAY + time + mins (int m))) = Some t"
      using m(2) by (metis earliest_None option.exhaust)
    ultimately have "resolve_local z date time = Some t"
      using m(1) by (subst resolve_local_Some_iff) (intro exI [of _ "int m"], auto)
    with none show False by simp
  qed
next
  assume gaps: "\<forall>k. 0 \<le> k \<and> k \<le> 240 \<longrightarrow> ?gap k"
  show "resolve_local z date time = None"
  proof (cases "resolve_local z date time")
    case (Some t)
    then obtain k where "0 \<le> k" "k \<le> 240" "earliest (z_from_local z (date * DAY + time + mins k)) = Some t"
      by (auto simp: resolve_local_Some_iff)
    with gaps show ?thesis by (metis earliest.simps(1) option.distinct(1))
  qed simp
qed

section \<open>The end of the window\<close>

definition policy_ok :: "quiet_hours_policy \<Rightarrow> bool" where
  "policy_ok p \<longleftrightarrow> 0 \<le> qh_start_local p \<and> qh_start_local p < DAY \<and> 0 \<le> qh_end_local p \<and> qh_end_local p < DAY"

lemma window_end_later:
  assumes "policy_ok p" and "in_window p (local_time z now)"
  shows "z_to_local z now < end_date p z now * DAY + qh_end_local p"
  using assms local_time_bounds [of z now]
  by (auto simp: local_split [of z now] end_date_def in_window_def policy_ok_def algebra_simps split: if_splits)

lemma not_in_window_at_end: "\<not> in_window p (qh_end_local p)"
  by (simp add: in_window_def)

section \<open>Properties\<close>

text \<open>C32: The search over a clock change ends after at most 241 readings and returns the earlier instant
  of the first existing reading at whole minutes within four hours; it gives up exactly when
  all of them fall into the gap.\<close>

theorem gap_search_first_reading:
  "(case resolve_local z date time of
      Some t \<Rightarrow> \<exists>k. 0 \<le> k \<and> k \<le> 240 \<and> earliest (z_from_local z (date * DAY + time + mins k)) = Some t
        \<and> {j. 0 \<le> j \<and> j < k \<and> z_from_local z (date * DAY + time + mins j) \<noteq> LNone} = {}
    | None \<Rightarrow> {k. 0 \<le> k \<and> k \<le> 240 \<and> z_from_local z (date * DAY + time + mins k) \<noteq> LNone} = {})"
  using resolve_local_Some_iff [of z date time] resolve_local_None_iff [of z date time]
  by (auto split: option.split)

text \<open>C31: The quiet-hours gate in a lawful zone.  It lets a message through only when the local clock
  is outside the window, or no reading near the window's end exists.  Otherwise the
  message is put off to an instant at most half an hour after one that shows the window's
  end (moved past a gap by at most four hours), and that end is a later reading than the
  current one and lies outside the window.\<close>

theorem quiet_hours_put_off_past_window:
  assumes "pick_zone pz ctz dtz = Some z" and "lawful z" and "policy_ok p"
  shows "wp (resolve_reschedule E pz now ctz dtz p)
     (\<lambda>r _. case r of
         None \<Rightarrow> \<not> in_window p (local_time z now) \<or> resolve_local z (end_date p z now) (qh_end_local p) = None
       | Some t \<Rightarrow> in_window p (local_time z now) \<and> \<not> in_window p (qh_end_local p) \<and>
           (\<exists>window_end k. 0 \<le> k \<and> k \<le> 240
              \<and> z_to_local z window_end = end_date p z now * DAY + qh_end_local p + mins k
              \<and> z_to_local z now < z_to_local z window_end
              \<and> window_end \<le> t \<and> t \<le> window_end + mins 30))
     (\<lambda>_ _. False) w"
proof (cases "in_window p (local_time z now)")
  case True
  show ?thesis
  proof (cases "resolve_local z (end_date p z now) (qh_end_local p)")
    case (Some window_end)
    then obtain k where k: "0 \<le> k" "k \<le> 240"
        "earliest (z_from_local z (end_date p z now * DAY + qh_end_local p + mins k)) = Some window_end"
      by (auto simp: resolve_local_Some_iff)
    then have "z_to_local z window_end = end_date p z now * DAY + qh_end_local p + mins k"
      using lawful_earliest [OF assms(2)] by blast
    moreover have "int (e_random E n) mod (JITTER_MAX_MS + 1) \<in> {0..JITTER_MAX_MS}" for n
      using pos_mod_bound [of "JITTER_MAX_MS + 1" "int (e_random E n)"] by auto
    ultimately show ?thesis
      using assms(1) True Some k window_end_later [OF assms(3) True]
      by (simp add: resolve_reschedule_def wp_simps not_in_window_at_end)
        (rule exI [of _ window_end], auto intro!: exI [of _ k])
  qed (use assms True in \<open>simp add: resolve_reschedule_def wp_simps\<close>)
qed (use assms in \<open>simp add: resolve_reschedule_def wp_simps\<close>)

definition night :: quiet_hours_policy where
  "night = \<lparr>qh_scope = ''default'', qh_scope_key = '''', qh_start_local = hours 22, qh_end_local = hours 7\<rparr>"

lemma policy_ok_night [simp]: "policy_ok night"
  by (simp add: policy_ok_def night_def)

definition still_world :: world where
  "still_world = \<lparr>w_db = empty_db, w_ctl = empty_ctl, w_tick = 0\<rparr>"

theorem quiet_hours_put_off_past_window_witness:
  "wp (resolve_reschedule (quiet_env 0) (\<lambda>_. Some (fixed_zone (hours 1))) (hours 23) ''Europe/Paris'' ''UTC'' night)
     (\<lambda>r _. case r of
         None \<Rightarrow> \<not> in_window night (local_time (fixed_zone (hours 1)) (hours 23))
           \<or> resolve_local (fixed_zone (hours 1)) (end_date night (fixed_zone (hours 1)) (hours 23)) (qh_end_local night) = None
       | Some t \<Rightarrow> in_window night (local_time (fixed_zone (hours 1)) (hours 23)) \<and> \<not> in_window night (qh_end_local night) \<and>
           (\<exists>window_end k. 0 \<le> k \<and> k \<le> 240
              \<and> z_to_local (fixed_zone (hours 1)) window_end
                  = end_date night (fixed_zone (hours 1)) (hours 23) * DAY + qh_end_local night + mins k
              \<and> z_to_local (fixed_zone (hours 1)) (hours 23) < z_to_local (fixed_zone (hours 1)) window_end
              \<and> window_end \<le> t \<and> t \<le> window_end + mins 30))
     (\<lambda>_ _. False) still_world"
  by (rule quiet_hours_put_off_past_window) (simp_all add: pick_zone_def)

text \<open>Where clocks are set back, the earlier of two instants can lie in the past: five minutes after
  a one-hour set-back, a window ending ten minutes past puts the message off to an instant at
  least twenty minutes ago, whatever the jitter, so the row is due again at once.\<close>

theorem quiet_hours_fall_back_reschedules_into_past:
  "wp (resolve_reschedule E (\<lambda>_. Some fall_back_zone) (mins 5) tz tz
        \<lparr>qh_scope = ''default'', qh_scope_key = '''', qh_start_local = hours 22, qh_end_local = mins 10\<rparr>)
     (\<lambda>r _. \<exists>t. r = Some t \<and> t \<le> - mins 20) (\<lambda>_ _. False) w"
proof -
  let ?p = "\<lparr>qh_scope = ''default'', qh_scope_key = '''', qh_start_local = hours 22, qh_end_local = mins 10\<rparr>"
  have now: "z_to_local fall_back_zone (mins 5) = mins 5" by (simp add: fall_back_zone_def)
  have time: "local_time fall_back_zone (mins 5) = mins 5"
    and date: "local_date fall_back_zone (mins 5) = 0"
    unfolding local_time_def local_date_def now by simp_all
  have win: "in_window ?p (local_time fall_back_zone (mins 5))"
    using time by (simp add: in_window_def)
  have "end_date ?p fall_back_zone (mins 5) = 0" using date time by (simp add: end_date_def)
  moreover have "resolve_local fall_back_zone 0 (mins 10) = Some (- mins 50)"
    unfolding resolve_local_Some_iff by (intro exI [of _ 0]) (simp add: fall_back_zone_def)
  moreover have "int (e_random E n) mod (JITTER_MAX_MS + 1) \<le> JITTER_MAX_MS" for n
    using pos_mod_bound [of "JITTER_MAX_MS + 1" "int (e_random E n)"] by simp
  ultimately show ?thesis
    using win by (simp add: resolve_reschedule_def pick_zone_def wp_simps)
qed

end
