(* ===== verification/Quota.thy ===== *)
theory Quota
  imports Zones "HOL-Library.AList"
begin

text \<open>
  Producer quotas (\<open>producer_quota/tracker.rs\<close>, \<open>model.rs\<close>, \<open>repo.rs\<close>): the in-process counters
  per producer, channel and class over a minute and a day window, the gate that admits,
  flags or defers a message, the limits reloaded from the database with their overrides,
  and the snapshot of the counters to the database and back.

  A \<open>HashMap\<close> is an association list; the counters (\<open>i64\<close> in the source, one per message sent
  in a window) are unbounded integers.
\<close>

section \<open>Data\<close>

abbreviation HARD :: string where "HARD \<equiv> ''hard''"
abbreviation SOFT :: string where "SOFT \<equiv> ''soft''"
abbreviation MINUTE :: string where "MINUTE \<equiv> ''minute''"
abbreviation DAY_GRANULARITY :: string where "DAY_GRANULARITY \<equiv> ''day''"

abbreviation AUTH :: string where "AUTH \<equiv> ''auth''"
abbreviation TRANSACTIONAL :: string where "TRANSACTIONAL \<equiv> ''transactional''"
abbreviation MARKETING :: string where "MARKETING \<equiv> ''marketing''"

type_synonym quota_key = "uuid \<times> string \<times> string"

record effective_quota =
  eq_per_minute :: "int option"
  eq_per_day :: "int option"
  eq_enforcement :: string

record counters =
  cn_minute_window_start :: "timestamp option"
  cn_minute_sent :: int
  cn_minute_blocked :: int
  cn_day_window_start :: "timestamp option"
  cn_day_sent :: int
  cn_day_blocked :: int

datatype quota_decision = Admit | SoftBreach | Defer timestamp

record quota_tracker =
  qt_tz :: zone
  qt_config :: "(quota_key \<times> effective_quota) list"
  qt_counters :: "(quota_key \<times> counters) list"

definition default_counters :: counters where
  "default_counters = \<lparr>cn_minute_window_start = None, cn_minute_sent = 0, cn_minute_blocked = 0,
     cn_day_window_start = None, cn_day_sent = 0, cn_day_blocked = 0\<rparr>"

text \<open>\<open>entry(key).or_default()\<close>.\<close>

definition entry :: "quota_tracker \<Rightarrow> quota_key \<Rightarrow> counters" where
  "entry q k = (case map_of (qt_counters q) k of None \<Rightarrow> default_counters | Some c \<Rightarrow> c)"

definition put_entry :: "quota_key \<Rightarrow> counters \<Rightarrow> quota_tracker \<Rightarrow> quota_tracker" where
  "put_entry k c q = q\<lparr>qt_counters := AList.update k c (qt_counters q)\<rparr>"

definition new_tracker :: "zone_parser \<Rightarrow> string \<Rightarrow> quota_tracker" where
  "new_tracker pz tz_name =
     \<lparr>qt_tz = (case pz tz_name of Some z \<Rightarrow> z | None \<Rightarrow> fixed_zone 0), qt_config = [], qt_counters = []\<rparr>"

section \<open>Windows\<close>

definition minute_window_start :: "timestamp \<Rightarrow> timestamp" where
  "minute_window_start now = now - now mod mins 1"

text \<open>An ambiguous midnight resolves to the earlier instant; a midnight that does not exist is read
  as UTC.\<close>

definition resolve_local_midnight :: "zone \<Rightarrow> int \<Rightarrow> timestamp" where
  "resolve_local_midnight z naive_midnight =
     (case earliest (z_from_local z naive_midnight) of Some t \<Rightarrow> t | None \<Rightarrow> naive_midnight)"

definition day_window_start :: "quota_tracker \<Rightarrow> timestamp \<Rightarrow> timestamp" where
  "day_window_start q now = resolve_local_midnight (qt_tz q) (local_date (qt_tz q) now * DAY)"

definition next_day_window_start :: "quota_tracker \<Rightarrow> timestamp \<Rightarrow> timestamp" where
  "next_day_window_start q now = resolve_local_midnight (qt_tz q) ((local_date (qt_tz q) now + 1) * DAY)"

definition roll_window :: "timestamp \<Rightarrow> timestamp option \<times> int \<times> int \<Rightarrow> timestamp option \<times> int \<times> int" where
  "roll_window fresh w = (if fst w \<noteq> Some fresh then (Some fresh, 0, 0) else w)"

definition roll_minute :: "timestamp \<Rightarrow> counters \<Rightarrow> counters" where
  "roll_minute fresh c =
    (let (ws, s, b) = roll_window fresh (cn_minute_window_start c, cn_minute_sent c, cn_minute_blocked c)
     in c\<lparr>cn_minute_window_start := ws, cn_minute_sent := s, cn_minute_blocked := b\<rparr>)"

definition roll_day :: "timestamp \<Rightarrow> counters \<Rightarrow> counters" where
  "roll_day fresh c =
    (let (ws, s, b) = roll_window fresh (cn_day_window_start c, cn_day_sent c, cn_day_blocked c)
     in c\<lparr>cn_day_window_start := ws, cn_day_sent := s, cn_day_blocked := b\<rparr>)"

definition count_sent :: "counters \<Rightarrow> counters" where
  "count_sent c = c\<lparr>cn_minute_sent := cn_minute_sent c + 1, cn_day_sent := cn_day_sent c + 1\<rparr>"

section \<open>The gate\<close>

definition record_admit :: "quota_key \<Rightarrow> timestamp \<Rightarrow> quota_tracker \<Rightarrow> quota_tracker" where
  "record_admit k now q =
     put_entry k (count_sent (roll_day (day_window_start q now)
       (roll_minute (minute_window_start now) (entry q k)))) q"

definition over :: "int option \<Rightarrow> int \<Rightarrow> bool" where
  "over limit sent = (case limit of None \<Rightarrow> False | Some l \<Rightarrow> sent \<ge> l)"

definition check_and_record :: "quota_tracker \<Rightarrow> uuid \<Rightarrow> string \<Rightarrow> string \<Rightarrow> timestamp
    \<Rightarrow> quota_decision \<times> quota_tracker" where
  "check_and_record q producer_id channel class_value now =
    (let k = (producer_id, channel, class_value) in
     if class_value = AUTH then (Admit, record_admit k now q)
     else case map_of (qt_config q) k of
       None \<Rightarrow> (Admit, record_admit k now q)
     | Some effective \<Rightarrow>
        (let c = roll_day (day_window_start q now) (roll_minute (minute_window_start now) (entry q k));
             day_breach = over (eq_per_day effective) (cn_day_sent c);
             minute_breach = over (eq_per_minute effective) (cn_minute_sent c) in
         if day_breach \<or> minute_breach then
           (if eq_enforcement effective = HARD then
              (if day_breach then
                 (Defer (next_day_window_start q now),
                  put_entry k (c\<lparr>cn_day_blocked := cn_day_blocked c + 1\<rparr>) q)
               else
                 (Defer (minute_window_start now + mins 1),
                  put_entry k (c\<lparr>cn_minute_blocked := cn_minute_blocked c + 1\<rparr>) q))
            else (SoftBreach, put_entry k (count_sent c) q))
         else (Admit, put_entry k (count_sent c) q)))"

section \<open>Limits from the database\<close>

definition active_overrides :: "timestamp \<Rightarrow> tenant_db \<Rightarrow> producer_quota_override_row list" where
  "active_overrides now d =
     filter (\<lambda>x. po_valid_from x \<le> now \<and> now < po_valid_to x) (t_producer_quota_override d)"

definition base_quotas :: "producer_quota_row list \<Rightarrow> (quota_key \<times> effective_quota) list" where
  "base_quotas quotas = foldl (\<lambda>m r. AList.update (pq_producer_id r, pq_channel r, pq_class r)
       \<lparr>eq_per_minute = pq_per_minute r, eq_per_day = pq_per_day r, eq_enforcement = pq_enforcement r\<rparr> m) [] quotas"

definition override_key :: "producer_quota_override_row \<Rightarrow> quota_key" where
  "override_key x = (po_producer_id x, po_channel x, po_class x)"

definition apply_override :: "(quota_key \<times> effective_quota) list \<Rightarrow> producer_quota_override_row
    \<Rightarrow> (quota_key \<times> effective_quota) list" where
  "apply_override m x =
     (case map_of m (override_key x) of
        None \<Rightarrow> m
      | Some e \<Rightarrow> AList.update (override_key x)
          (e\<lparr>eq_per_day := Some (case eq_per_day e of None \<Rightarrow> po_per_day x
                                 | Some base \<Rightarrow> max base (po_per_day x))\<rparr>) m)"

definition list_quotas :: "env \<Rightarrow> ('z world_scheme, sqlx_error, producer_quota_row list) io" where
  "list_quotas E = query E (\<lambda>_. t_producer_quota)"

definition load_active_overrides :: "env \<Rightarrow> timestamp
    \<Rightarrow> ('z world_scheme, sqlx_error, producer_quota_override_row list) io" where
  "load_active_overrides E now = query E (\<lambda>_. active_overrides now)"

definition refresh_config :: "env \<Rightarrow> timestamp \<Rightarrow> quota_tracker \<Rightarrow> ('z world_scheme, sqlx_error, quota_tracker) io" where
  "refresh_config E now q =
     bindE (list_quotas E) (\<lambda>quotas. bindE (load_active_overrides E now) (\<lambda>overrides.
       ret (q\<lparr>qt_config := foldl apply_override (base_quotas quotas) overrides\<rparr>)))"

section \<open>Counters to the database and back\<close>

definition usage_key :: "usage_row \<Rightarrow> uuid \<times> string \<times> string \<times> string \<times> timestamp" where
  "usage_key u = (us_producer_id u, us_channel u, us_class u, us_granularity u, us_window_start u)"

definition load_current_usage :: "env \<Rightarrow> timestamp \<Rightarrow> timestamp \<Rightarrow> ('z world_scheme, sqlx_error, usage_row list) io" where
  "load_current_usage E minute_start day_start = query E (\<lambda>_ d.
     filter (\<lambda>u. (us_granularity u = MINUTE \<and> us_window_start u = minute_start)
               \<or> (us_granularity u = DAY_GRANULARITY \<and> us_window_start u = day_start)) (t_producer_usage d))"

definition load_usage_row :: "quota_tracker \<Rightarrow> usage_row \<Rightarrow> quota_tracker" where
  "load_usage_row q u =
    (let k = (us_producer_id u, us_channel u, us_class u); c = entry q k in
     put_entry k (if us_granularity u = MINUTE
       then c\<lparr>cn_minute_window_start := Some (us_window_start u), cn_minute_sent := us_sent u,
              cn_minute_blocked := us_blocked u\<rparr>
       else c\<lparr>cn_day_window_start := Some (us_window_start u), cn_day_sent := us_sent u,
              cn_day_blocked := us_blocked u\<rparr>) q)"

definition rebuild_from_db :: "env \<Rightarrow> timestamp \<Rightarrow> quota_tracker \<Rightarrow> ('z world_scheme, sqlx_error, quota_tracker) io" where
  "rebuild_from_db E now q =
     bindE (load_current_usage E (minute_window_start now) (day_window_start q now)) (\<lambda>rows.
       ret (foldl load_usage_row q rows))"

definition usage_rows :: "quota_key \<times> counters \<Rightarrow> usage_row list" where
  "usage_rows kc = (case kc of ((producer_id, channel, cls), c) \<Rightarrow>
     (case cn_minute_window_start c of None \<Rightarrow> []
      | Some ws \<Rightarrow> [\<lparr>us_producer_id = producer_id, us_channel = channel, us_class = cls,
          us_granularity = MINUTE, us_window_start = ws, us_sent = cn_minute_sent c,
          us_blocked = cn_minute_blocked c\<rparr>])
   @ (case cn_day_window_start c of None \<Rightarrow> []
      | Some ws \<Rightarrow> [\<lparr>us_producer_id = producer_id, us_channel = channel, us_class = cls,
          us_granularity = DAY_GRANULARITY, us_window_start = ws, us_sent = cn_day_sent c,
          us_blocked = cn_day_blocked c\<rparr>]))"

definition put_usage :: "usage_row \<Rightarrow> usage_row list \<Rightarrow> usage_row list" where
  "put_usage u = upsert usage_key (\<lambda>r. r\<lparr>us_sent := us_sent u, us_blocked := us_blocked u\<rparr>) u"

definition flush_usage :: "env \<Rightarrow> usage_row list \<Rightarrow> ('z world_scheme, sqlx_error, unit) io" where
  "flush_usage E rows = exec E (\<lambda>_ d. d\<lparr>t_producer_usage := foldl (\<lambda>t u. put_usage u t) (t_producer_usage d) rows\<rparr>)"

definition flush :: "env \<Rightarrow> quota_tracker \<Rightarrow> ('z world_scheme, sqlx_error, unit) io" where
  "flush E q = (let rows = concat (map usage_rows (qt_counters q)) in
     if rows \<noteq> [] then flush_usage E rows else ret ())"

section \<open>Windows of the counters\<close>

text \<open>The two windows, so that each fact is stated once for both.\<close>

datatype window = WMinute | WDay

primrec window_of :: "window \<Rightarrow> counters \<Rightarrow> timestamp option" where
  "window_of WMinute c = cn_minute_window_start c"
| "window_of WDay c = cn_day_window_start c"

primrec sent_of :: "window \<Rightarrow> counters \<Rightarrow> int" where
  "sent_of WMinute c = cn_minute_sent c"
| "sent_of WDay c = cn_day_sent c"

primrec limit_of :: "window \<Rightarrow> effective_quota \<Rightarrow> int option" where
  "limit_of WMinute e = eq_per_minute e"
| "limit_of WDay e = eq_per_day e"

primrec window_start :: "window \<Rightarrow> quota_tracker \<Rightarrow> timestamp \<Rightarrow> timestamp" where
  "window_start WMinute q now = minute_window_start now"
| "window_start WDay q now = day_window_start q now"

text \<open>How many messages of a key the tracker has counted in the window that starts at a given instant.\<close>

definition sent_in :: "window \<Rightarrow> timestamp \<Rightarrow> quota_key \<Rightarrow> quota_tracker \<Rightarrow> int" where
  "sent_in g D k q = (if window_of g (entry q k) = Some D then sent_of g (entry q k) else 0)"

lemma entry_put [simp]: "entry (put_entry k c q) k' = (if k' = k then c else entry q k')"
  by (simp add: entry_def put_entry_def update_conv')

lemma put_entry_frame [simp]: "qt_tz (put_entry k c q) = qt_tz q" "qt_config (put_entry k c q) = qt_config q"
  by (simp_all add: put_entry_def)

definition rolled :: "quota_tracker \<Rightarrow> timestamp \<Rightarrow> quota_key \<Rightarrow> counters" where
  "rolled q now k = roll_day (day_window_start q now) (roll_minute (minute_window_start now) (entry q k))"

lemma window_of_rolled: "window_of g (rolled q now k) = Some (window_start g q now)"
  by (cases g) (auto simp: rolled_def roll_day_def roll_minute_def roll_window_def Let_def split: if_splits)

lemma sent_of_rolled: "sent_of g (rolled q now k) = sent_in g (window_start g q now) k q"
  by (cases g) (auto simp: rolled_def roll_day_def roll_minute_def roll_window_def sent_in_def Let_def split: if_splits)

lemma window_of_count_sent [simp]: "window_of g (count_sent c) = window_of g c"
  by (cases g) (simp_all add: count_sent_def)

lemma sent_of_count_sent [simp]: "sent_of g (count_sent c) = sent_of g c + 1"
  by (cases g) (simp_all add: count_sent_def)

lemma window_blocked [simp]:
  "window_of g (c\<lparr>cn_day_blocked := b\<rparr>) = window_of g c" "sent_of g (c\<lparr>cn_day_blocked := b\<rparr>) = sent_of g c"
  "window_of g (c\<lparr>cn_minute_blocked := b\<rparr>) = window_of g c" "sent_of g (c\<lparr>cn_minute_blocked := b\<rparr>) = sent_of g c"
  by (cases g; simp)+

definition counted :: "quota_decision \<Rightarrow> bool" where
  "counted dec = (case dec of Admit \<Rightarrow> True | SoftBreach \<Rightarrow> True | Defer _ \<Rightarrow> False)"

text \<open>One call in terms of the rolled counters: it writes one entry, with \<open>sent\<close> one higher exactly
  when the message goes on.\<close>

lemma check_and_record_entry:
  fixes q p ch cl now
  defines "r \<equiv> check_and_record q p ch cl now" and "k \<equiv> (p, ch, cl)"
  shows "snd r = put_entry k (entry (snd r) k) q"
    and "window_of g (entry (snd r) k) = Some (window_start g q now)"
    and "sent_of g (entry (snd r) k) = sent_in g (window_start g q now) k q + (if counted (fst r) then 1 else 0)"
  unfolding r_def k_def check_and_record_def record_admit_def Let_def rolled_def [symmetric]
  by (simp_all add: window_of_rolled sent_of_rolled counted_def split: option.splits)

text \<open>Under hard enforcement an admitted message was below every limit, and nothing is flagged.\<close>

lemma hard_admit_below:
  assumes "check_and_record q p ch cl now = (dec, q')" and "cl \<noteq> AUTH"
    and "map_of (qt_config q) (p, ch, cl) = Some e" and "eq_enforcement e = HARD"
  shows "dec \<noteq> SoftBreach"
    and "dec = Admit \<Longrightarrow> limit_of g e = Some l \<Longrightarrow> sent_in g (window_start g q now) (p, ch, cl) q < l"
proof -
  let ?c = "rolled q now (p, ch, cl)"
  have eq: "dec = (if over (eq_per_day e) (cn_day_sent ?c) \<or> over (eq_per_minute e) (cn_minute_sent ?c)
      then Defer (if over (eq_per_day e) (cn_day_sent ?c) then next_day_window_start q now
                  else minute_window_start now + mins 1) else Admit)"
    using assms by (auto simp: check_and_record_def Let_def rolled_def split: if_splits)
  then show "dec \<noteq> SoftBreach" by auto
  show "sent_in g (window_start g q now) (p, ch, cl) q < l" if "dec = Admit" "limit_of g e = Some l"
    using that eq sent_of_rolled [of g q now "(p, ch, cl)"]
    by (cases g) (auto simp: over_def split: if_splits)
qed

section \<open>Sequences of calls\<close>

fun run_checks :: "quota_tracker \<Rightarrow> (quota_key \<times> timestamp) list \<Rightarrow> quota_decision list \<times> quota_tracker" where
  "run_checks q [] = ([], q)"
| "run_checks q (((p, ch, cl), now) # calls) =
     (let (dec, q') = check_and_record q p ch cl now; (decs, q'') = run_checks q' calls in (dec # decs, q''))"

fun admitted :: "quota_key \<Rightarrow> (quota_key \<times> timestamp) list \<Rightarrow> quota_decision list \<Rightarrow> nat" where
  "admitted k ((k', now) # calls) (dec # decs) =
     (if k' = k \<and> counted dec then 1 else 0) + admitted k calls decs"
| "admitted k _ _ = 0"

lemma window_start_put [simp]: "window_start g (put_entry k c q) now = window_start g q now"
  by (cases g) (simp_all add: day_window_start_def)

text \<open>The counters are exact: over calls of a key within one window, the window's \<open>sent\<close> grows by the
  number of messages let through, whatever other keys do in between.\<close>

lemma run_checks_sent:
  assumes "\<forall>now. (k, now) \<in> set calls \<longrightarrow> window_start g q now = D" and "run_checks q calls = (decs, q')"
  shows "sent_in g D k q' = sent_in g D k q + int (admitted k calls decs)"
  using assms
proof (induction calls arbitrary: q decs)
  case (Cons call calls)
  obtain p ch cl now where call: "call = ((p, ch, cl), now)" by (metis prod.exhaust)
  obtain dec c where step: "check_and_record q p ch cl now = (dec, put_entry (p, ch, cl) c q)"
    and c: "window_of g c = Some (window_start g q now)"
      "sent_of g c = sent_in g (window_start g q now) (p, ch, cl) q + (if counted dec then 1 else 0)"
    using check_and_record_entry [where q = q and p = p and ch = ch and cl = cl and now = now]
    by (metis prod.collapse)
  let ?q = "put_entry (p, ch, cl) c q"
  obtain decs' q0 where r: "run_checks ?q calls = (decs', q0)" by (cases "run_checks ?q calls")
  have "run_checks q (call # calls) = (dec # decs', q0)" by (simp add: call step r)
  with Cons.prems(2) r have rest: "run_checks ?q calls = (decs', q')" "decs = dec # decs'" by simp_all
  have "sent_in g D k ?q = sent_in g D k q + (if (p, ch, cl) = k \<and> counted dec then 1 else 0)"
  proof (cases "(p, ch, cl) = k")
    case True
    then have "window_start g q now = D" using Cons.prems(1) by (simp add: call)
    with c True show ?thesis by (simp add: sent_in_def [of g D k "put_entry k c q"])
  qed (auto simp: sent_in_def)
  moreover have "sent_in g D k q' = sent_in g D k ?q + int (admitted k calls decs')"
    by (rule Cons.IH [OF _ rest(1)]) (use Cons.prems(1) in \<open>auto simp: call\<close>)
  ultimately show ?case by (simp add: rest call)
qed simp

lemma hard_quota_step:
  assumes "map_of (qt_config q) k = Some e" "eq_enforcement e = HARD" "limit_of g e = Some l"
    and "snd (snd k) \<noteq> AUTH" and "\<forall>now. (k, now) \<in> set calls \<longrightarrow> window_start g q now = D"
    and "run_checks q calls = (decs, q')"
  shows "int (admitted k calls decs) \<le> max 0 (l - sent_in g D k q)"
  using assms(1,5,6)
proof (induction calls arbitrary: q decs)
  case (Cons call calls)
  obtain p ch cl now where call: "call = ((p, ch, cl), now)" by (metis prod.exhaust)
  obtain dec c where step: "check_and_record q p ch cl now = (dec, put_entry (p, ch, cl) c q)"
    using check_and_record_entry(1) [where q = q and p = p and ch = ch and cl = cl and now = now]
    by (metis prod.collapse)
  let ?q = "put_entry (p, ch, cl) c q"
  obtain decs' q0 where r: "run_checks ?q calls = (decs', q0)" by (cases "run_checks ?q calls")
  have run: "run_checks q [call] = ([dec], ?q)" "run_checks q (call # calls) = (dec # decs', q0)"
    by (simp_all add: call step r)
  have rest: "run_checks ?q calls = (decs', q')" "decs = dec # decs'"
    using Cons.prems(3) run(2) r by simp_all
  have IH: "int (admitted k calls decs') \<le> max 0 (l - sent_in g D k ?q)"
    by (rule Cons.IH [OF _ _ rest(1)]) (use Cons.prems(1,2) in auto)
  have sent: "sent_in g D k ?q = sent_in g D k q + int (admitted k [call] [dec])"
    by (rule run_checks_sent [OF _ run(1)]) (use Cons.prems(2) in auto)
  have "sent_in g D k q < l" if "(p, ch, cl) = k" "counted dec"
  proof -
    have "window_start g q now = D" using Cons.prems(2) that by (simp add: call)
    moreover have "dec = Admit"
      using hard_admit_below(1) [OF step, of e] that assms(2,4) Cons.prems(1)
      by (auto simp: counted_def split: quota_decision.splits)
    ultimately show ?thesis
      using hard_admit_below(2) [OF step, of e g l] that assms(2,3,4) Cons.prems(1) by auto
  qed
  with IH sent show ?case by (auto simp: rest call)
qed simp

section \<open>The limits in force\<close>

lemma map_of_apply_override:
  "map_of (apply_override m x) k = (if override_key x = k
     then map_option (\<lambda>e. e\<lparr>eq_per_day := Some (case eq_per_day e of None \<Rightarrow> po_per_day x
                                               | Some base \<Rightarrow> max base (po_per_day x))\<rparr>) (map_of m k)
     else map_of m k)"
  by (auto simp: apply_override_def update_conv' split: option.splits)

text \<open>Folding the overrides into a base limit: the highest of the limit and the overrides of its key;
  a base without a limit takes the highest override.\<close>

definition overridden :: "int set \<Rightarrow> effective_quota \<Rightarrow> effective_quota" where
  "overridden Y e = (if Y = {} then e else e\<lparr>eq_per_day := Some (Max (Y \<union> set_option (eq_per_day e)))\<rparr>)"

lemma overridden_insert:
  assumes "finite Y"
  shows "overridden Y (e\<lparr>eq_per_day := Some (case eq_per_day e of None \<Rightarrow> v | Some b \<Rightarrow> max b v)\<rparr>)
    = overridden (insert v Y) e"
proof (cases "Y = {}")
  case True
  then show ?thesis by (auto simp: overridden_def max.commute split: option.splits)
next
  case False
  with assms show ?thesis
    by (auto simp: overridden_def max.assoc max.commute max.left_commute split: option.splits)
qed

lemma map_of_foldl_override:
  "map_of (foldl apply_override m os) k
   = map_option (overridden (po_per_day ` {x \<in> set os. override_key x = k})) (map_of m k)"
proof (induction os arbitrary: m)
  case Nil
  then show ?case by (simp add: overridden_def option.map_ident)
next
  case (Cons x os)
  let ?Y = "po_per_day ` {x \<in> set os. override_key x = k}"
  have Y: "po_per_day ` {y \<in> set (x # os). override_key y = k}
      = (if override_key x = k then insert (po_per_day x) ?Y else ?Y)"
    by auto
  have "finite ?Y" by simp
  then show ?case
    unfolding foldl_Cons Cons.IH Y
    by (simp add: map_of_apply_override option.map_comp comp_def overridden_insert)
qed

section \<open>The snapshot\<close>

definition usage_val :: "usage_row list \<Rightarrow> uuid \<times> string \<times> string \<times> string \<times> timestamp \<Rightarrow> (int \<times> int) option" where
  "usage_val t k = map_option (\<lambda>u. (us_sent u, us_blocked u)) (find_row (\<lambda>u. usage_key u = k) t)"

lemma usage_val_put:
  "usage_val (put_usage u t) k = (if k = usage_key u then Some (us_sent u, us_blocked u) else usage_val t k)"
proof -
  have "usage_key (r\<lparr>us_sent := a, us_blocked := b\<rparr>) = usage_key r" for r a b
    by (simp add: usage_key_def)
  then have upd: "find_row (\<lambda>r. usage_key r = k) (upd_where (\<lambda>r. usage_key r = usage_key u)
        (\<lambda>r. r\<lparr>us_sent := us_sent u, us_blocked := us_blocked u\<rparr>) t)
      = map_option (\<lambda>r. if usage_key r = usage_key u then r\<lparr>us_sent := us_sent u, us_blocked := us_blocked u\<rparr> else r)
          (find_row (\<lambda>r. usage_key r = k) t)"
    by (intro find_row_upd_where_other) simp
  have own: "usage_key r = k" if "find_row (\<lambda>r. usage_key r = k) t = Some r" for r
    using find_row_SomeD [OF that] by simp
  show ?thesis
  proof (cases "usage_key u \<in> set (map usage_key t)")
    case True
    then have "find_row (\<lambda>r. usage_key r = usage_key u) t \<noteq> None"
      unfolding find_row_None by force
    with True show ?thesis
      using own by (cases "find_row (\<lambda>r. usage_key r = k) t")
        (auto simp: usage_val_def put_usage_def upsert_def upd)
  next
    case False
    then have "find_row (\<lambda>r. usage_key r = usage_key u) t = None"
      unfolding find_row_None by (simp add: image_iff) metis
    with False show ?thesis
      by (auto simp: usage_val_def put_usage_def upsert_def find_row_append split: option.splits)
  qed
qed

lemma usage_val_foldl:
  "usage_val (foldl (\<lambda>t u. put_usage u t) t us) k =
     (case find_row (\<lambda>u. usage_key u = k) (rev us) of Some u \<Rightarrow> Some (us_sent u, us_blocked u) | None \<Rightarrow> usage_val t k)"
  by (induction us arbitrary: t) (auto simp: usage_val_put find_row_append split: option.splits)

lemma distinct_put_usage: "distinct (map usage_key t) \<Longrightarrow> distinct (map usage_key (put_usage u t))"
  by (auto simp: put_usage_def upsert_def map_key_upd_where usage_key_def)

lemma distinct_foldl_put_usage:
  "distinct (map usage_key t) \<Longrightarrow> distinct (map usage_key (foldl (\<lambda>t u. put_usage u t) t us))"
  by (induction us arbitrary: t) (simp_all add: distinct_put_usage)

primrec blocked_of :: "window \<Rightarrow> counters \<Rightarrow> int" where
  "blocked_of WMinute c = cn_minute_blocked c"
| "blocked_of WDay c = cn_day_blocked c"

primrec granularity_of :: "window \<Rightarrow> string" where
  "granularity_of WMinute = MINUTE"
| "granularity_of WDay = DAY_GRANULARITY"

definition window_state :: "window \<Rightarrow> counters \<Rightarrow> timestamp option \<times> int \<times> int" where
  "window_state g c = (window_of g c, sent_of g c, blocked_of g c)"

definition row_for :: "window \<Rightarrow> quota_key \<Rightarrow> usage_row \<Rightarrow> bool" where
  "row_for g k u \<longleftrightarrow> (us_producer_id u, us_channel u, us_class u) = k
     \<and> (us_granularity u = MINUTE \<longleftrightarrow> g = WMinute)"

lemma window_state_load:
  "window_state g (entry (load_usage_row q u) k) =
     (if row_for g k u then (Some (us_window_start u), us_sent u, us_blocked u) else window_state g (entry q k))"
  by (cases g) (auto simp: load_usage_row_def row_for_def window_state_def Let_def)

lemma window_state_foldl:
  "window_state g (entry (foldl load_usage_row q us) k) =
     (case find_row (row_for g k) (rev us) of
        Some u \<Rightarrow> (Some (us_window_start u), us_sent u, us_blocked u)
      | None \<Rightarrow> window_state g (entry q k))"
  by (induction us arbitrary: q) (auto simp: window_state_load find_row_append split: option.splits)

text \<open>The row a flush writes for one window of one key.\<close>

lemma flushed_row:
  assumes "distinct (map fst cs)" and "u \<in> set (concat (map usage_rows cs))"
    and "usage_key u = (fst k, fst (snd k), snd (snd k), granularity_of g, W)"
  shows "\<exists>c. map_of cs k = Some c \<and> window_state g c = (Some W, us_sent u, us_blocked u)"
proof -
  obtain k' c where kc: "(k', c) \<in> set cs" "u \<in> set (usage_rows (k', c))" using assms(2) by auto
  have "k' = k" "window_state g c = (Some W, us_sent u, us_blocked u)"
    using kc(2) assms(3)
    by (cases k'; cases g; auto simp: usage_rows_def usage_key_def window_state_def split: option.splits)+
  then show ?thesis using kc(1) assms(1) by (auto simp: map_of_eq_Some_iff)
qed

lemma flush_writes:
  assumes "(k, c) \<in> set cs" and "window_of g c = Some W"
  shows "\<exists>u \<in> set (concat (map usage_rows cs)).
     usage_key u = (fst k, fst (snd k), snd (snd k), granularity_of g, W)"
proof -
  have "\<exists>u \<in> set (usage_rows (k, c)). usage_key u = (fst k, fst (snd k), snd (snd k), granularity_of g, W)"
    using assms(2) by (cases k; cases g; auto simp: usage_rows_def usage_key_def)
  with assms(1) show ?thesis by fastforce
qed

lemma usage_val_after_flush:
  assumes "distinct (map fst cs)" and "map_of cs k = Some c" and "window_of g c = Some W"
  shows "usage_val (foldl (\<lambda>t u. put_usage u t) t (concat (map usage_rows cs)))
      (fst k, fst (snd k), snd (snd k), granularity_of g, W) = Some (sent_of g c, blocked_of g c)"
proof -
  let ?us = "concat (map usage_rows cs)" and ?k = "(fst k, fst (snd k), snd (snd k), granularity_of g, W)"
  obtain u where u: "find_row (\<lambda>u. usage_key u = ?k) (rev ?us) = Some u"
    using flush_writes [OF map_of_SomeD [OF assms(2)] assms(3)]
    by (cases "find_row (\<lambda>u. usage_key u = ?k) (rev ?us)") (auto simp: find_row_None)
  from find_row_SomeD [OF this] have "u \<in> set ?us" "usage_key u = ?k" by simp_all
  from flushed_row [OF assms(1) this] assms(2) have "window_state g c = (Some W, us_sent u, us_blocked u)" by simp
  with u show ?thesis by (simp add: usage_val_foldl window_state_def)
qed

lemma rebuilt_window:
  assumes "distinct (map usage_key t)"
    and "usage_val t (fst k, fst (snd k), snd (snd k), granularity_of g, window_start g q now) = Some (a, b)"
  shows "window_state g (entry (foldl load_usage_row q
      (filter (\<lambda>u. (us_granularity u = MINUTE \<and> us_window_start u = minute_window_start now)
               \<or> (us_granularity u = DAY_GRANULARITY \<and> us_window_start u = day_window_start q now)) t)) k)
    = (Some (window_start g q now), a, b)"
proof -
  let ?k = "(fst k, fst (snd k), snd (snd k), granularity_of g, window_start g q now)"
  let ?cur = "\<lambda>u. (us_granularity u = MINUTE \<and> us_window_start u = minute_window_start now)
               \<or> (us_granularity u = DAY_GRANULARITY \<and> us_window_start u = day_window_start q now)"
  obtain v where v: "find_row (\<lambda>u. usage_key u = ?k) t = Some v" "a = us_sent v" "b = us_blocked v"
    using assms(2) by (auto simp: usage_val_def)
  from find_row_SomeD [OF v(1)] have vt: "v \<in> set t" "usage_key v = ?k" by simp_all
  have key: "row_for g k u \<and> ?cur u \<longleftrightarrow> usage_key u = ?k" for u
    by (cases k; cases g; auto simp: row_for_def usage_key_def)
  obtain u where u: "find_row (row_for g k) (rev (filter ?cur t)) = Some u"
    using vt key [of v] by (cases "find_row (row_for g k) (rev (filter ?cur t))") (auto simp: find_row_None)
  from find_row_SomeD [OF u] have "u \<in> set t" "usage_key u = ?k" using key [of u] by auto
  then have "u = v" using key_inj [OF assms(1)] vt by metis
  moreover have "us_window_start v = window_start g q now" using vt(2) by (simp add: usage_key_def)
  ultimately show ?thesis using u v by (simp add: window_state_foldl)
qed

section \<open>Properties\<close>

text \<open>C25: A hard quota is never exceeded.  Over any interleaving of calls for any keys, the messages of a
  key that pass the gate within one window number at most what its limit had left at the
  start, and the window's counter records exactly the messages let through.  This holds for
  the minute and for the day limit.\<close>

theorem hard_quota_never_exceeded:
  assumes "map_of (qt_config q) k = Some e" "eq_enforcement e = HARD" "limit_of g e = Some l"
    and "snd (snd k) \<noteq> AUTH" and "\<forall>now. (k, now) \<in> set calls \<longrightarrow> window_start g q now = D"
    and "run_checks q calls = (decs, q')"
  shows "int (admitted k calls decs) \<le> max 0 (l - sent_in g D k q)
     \<and> sent_in g D k q' = sent_in g D k q + int (admitted k calls decs)"
  using hard_quota_step [OF assms] run_checks_sent [OF assms(5,6)] by blast

definition sample_tracker :: quota_tracker where
  "sample_tracker = \<lparr>qt_tz = fixed_zone 0,
     qt_config = [((40, ''sms'', MARKETING), \<lparr>eq_per_minute = Some 1, eq_per_day = None, eq_enforcement = HARD\<rparr>)],
     qt_counters = []\<rparr>"

theorem hard_quota_never_exceeded_witness:
  "let (decs, q') = run_checks sample_tracker [((40, ''sms'', MARKETING), 5), ((40, ''sms'', MARKETING), 6)];
       k = (40, ''sms'', MARKETING) in
   int (admitted k [(k, 5), (k, 6)] decs) \<le> max 0 (1 - sent_in WMinute 0 k sample_tracker)
     \<and> sent_in WMinute 0 k q' = sent_in WMinute 0 k sample_tracker + int (admitted k [(k, 5), (k, 6)] decs)"
  unfolding Let_def split_beta
  by (rule hard_quota_never_exceeded
      [where e = "\<lparr>eq_per_minute = Some 1, eq_per_day = None, eq_enforcement = HARD\<rparr>"])
    (auto simp: sample_tracker_def minute_window_start_def)

text \<open>What the reload promises for one key: the limits in force against the base quotas and the active
  overrides.\<close>

definition limits_raised :: "(quota_key \<times> effective_quota) list \<Rightarrow> producer_quota_override_row list
    \<Rightarrow> (quota_key \<times> effective_quota) list \<Rightarrow> quota_key \<Rightarrow> bool" where
  "limits_raised base os in_force k \<longleftrightarrow>
     map_option eq_per_minute (map_of in_force k) = map_option eq_per_minute (map_of base k)
   \<and> (case map_of base k of
        None \<Rightarrow> map_of in_force k = None
      | Some e \<Rightarrow> (case eq_per_day e of None \<Rightarrow> True | Some b \<Rightarrow>
          (\<exists>b'. map_of in_force k = Some (e\<lparr>eq_per_day := Some b'\<rparr>) \<and> b \<le> b'
            \<and> (\<forall>x \<in> set os. override_key x = k \<longrightarrow> po_per_day x \<le> b')
            \<and> (b' = b \<or> (\<exists>x \<in> set os. override_key x = k \<and> po_per_day x = b')))))"

lemma limits_raised_foldl: "limits_raised base os (foldl apply_override base os) k"
proof (cases "map_of base k")
  case (Some e)
  let ?Y = "po_per_day ` {x \<in> set os. override_key x = k}"
  have fin: "finite ?Y" by simp
  show ?thesis
  proof (cases "eq_per_day e")
    case (Some b)
    define b' where "b' = Max (insert b ?Y)"
    have ov: "overridden ?Y e = e\<lparr>eq_per_day := Some b'\<rparr>"
    proof (cases "?Y = {}")
      case True
      show ?thesis unfolding True b'_def using Some by (cases e) (simp add: overridden_def)
    qed (use Some in \<open>auto simp: overridden_def b'_def\<close>)
    have "b' \<in> insert b ?Y" unfolding b'_def by (rule Max_in) (use fin in auto)
    moreover have "y \<le> b'" if "y \<in> insert b ?Y" for y
      unfolding b'_def by (rule Max_ge) (use fin that in auto)
    ultimately have "b \<le> b'" "\<forall>x \<in> set os. override_key x = k \<longrightarrow> po_per_day x \<le> b'"
      "b' = b \<or> (\<exists>x \<in> set os. override_key x = k \<and> po_per_day x = b')" by auto
    then show ?thesis
      using \<open>map_of base k = Some e\<close> Some ov by (auto simp: limits_raised_def map_of_foldl_override)
  qed (use Some in \<open>simp add: limits_raised_def map_of_foldl_override overridden_def\<close>)
qed (simp add: limits_raised_def map_of_foldl_override)

text \<open>Reloading the limits.  A key is limited exactly when the table has a quota for it; overrides
  never lower a daily limit that is set: the limit in force is at least the configured one
  and at least every active override of the key, and equals one of them.  The minute limit
  is the configured one, and an override for a key without a quota changes nothing.\<close>

theorem overrides_raise_daily_limit:
  "wp (refresh_config E now q)
     (\<lambda>q' w'. let d1 = e_interfere E (w_tick w) (w_db w); d2 = e_interfere E (Suc (w_tick w)) d1 in
        limits_raised (base_quotas (t_producer_quota d1)) (active_overrides now d2) (qt_config q') k)
     (\<lambda>e _. e = Io) w"
  by (simp add: refresh_config_def list_quotas_def load_active_overrides_def wp_simps Let_def
      limits_raised_foldl)

text \<open>Where the quota sets no daily limit, an active override introduces one.\<close>

theorem override_limits_unlimited_producer:
  "map_of (foldl apply_override
      [((40, ''sms'', MARKETING), \<lparr>eq_per_minute = None, eq_per_day = None, eq_enforcement = HARD\<rparr>)]
      [\<lparr>po_id = 1, po_producer_id = 40, po_channel = ''sms'', po_class = MARKETING, po_per_day = 100,
        po_valid_from = 0, po_valid_to = 9, po_approved_by = ''a'', po_reason = ''r''\<rparr>]) (40, ''sms'', MARKETING)
   = Some \<lparr>eq_per_minute = None, eq_per_day = Some 100, eq_enforcement = HARD\<rparr>"
  by (simp add: apply_override_def override_key_def)

text \<open>C30: Quotas survive a restart.  Flushing the counters and rebuilding a tracker from the database
  restores the start, the sent and the blocked count of every window that is still current,
  for every key the old tracker held.\<close>

theorem flush_then_rebuild_restores_windows:
  assumes "quiet E" and "distinct (map fst (qt_counters q))"
    and "distinct (map usage_key (t_producer_usage (w_db w)))"
    and "map_of (qt_counters q) k = Some c" and "window_of g c = Some (window_start g q now)"
  shows "wp (thenE (flush E q) (rebuild_from_db E now (q\<lparr>qt_counters := []\<rparr>)))
     (\<lambda>q' _. window_state g (entry q' k) = window_state g c) (\<lambda>_ _. False) w"
proof -
  let ?us = "concat (map usage_rows (qt_counters q))" and ?q = "q\<lparr>qt_counters := []\<rparr>"
  let ?t = "foldl (\<lambda>t u. put_usage u t) (t_producer_usage (w_db w)) ?us"
  have ws: "window_start g ?q now = window_start g q now" "day_window_start ?q now = day_window_start q now"
    by (cases g) (simp_all add: day_window_start_def)
  have "?us \<noteq> []" using flush_writes [OF map_of_SomeD [OF assms(4)] assms(5)] by force
  moreover have "window_state g (entry (foldl load_usage_row ?q
      (filter (\<lambda>u. (us_granularity u = MINUTE \<and> us_window_start u = minute_window_start now)
               \<or> (us_granularity u = DAY_GRANULARITY \<and> us_window_start u = day_window_start ?q now)) ?t)) k)
      = (Some (window_start g ?q now), sent_of g c, blocked_of g c)"
    by (rule rebuilt_window)
      (use assms usage_val_after_flush [OF assms(2,4,5)] ws in \<open>simp_all add: distinct_foldl_put_usage\<close>)
  ultimately show ?thesis
    using assms(1,5) ws
    by (simp add: flush_def flush_usage_def rebuild_from_db_def load_current_usage_def wp_simps Let_def
        window_state_def)
qed

definition counted_tracker :: quota_tracker where
  "counted_tracker = sample_tracker\<lparr>qt_counters := [((40, ''sms'', MARKETING),
     default_counters\<lparr>cn_minute_window_start := Some 0, cn_minute_sent := 1\<rparr>)]\<rparr>"

theorem flush_then_rebuild_restores_windows_witness:
  "wp (thenE (flush (quiet_env 5) counted_tracker)
        (rebuild_from_db (quiet_env 5) 7 (counted_tracker\<lparr>qt_counters := []\<rparr>)))
     (\<lambda>q' _. window_state WMinute (entry q' (40, ''sms'', MARKETING))
        = window_state WMinute (default_counters\<lparr>cn_minute_window_start := Some 0, cn_minute_sent := 1\<rparr>))
     (\<lambda>_ _. False) \<lparr>w_db = empty_db, w_ctl = empty_ctl, w_tick = 0\<rparr>"
  by (rule flush_then_rebuild_restores_windows)
    (simp_all add: counted_tracker_def sample_tracker_def empty_db_def minute_window_start_def)

text \<open>A deferred message is put off into the future, and a minute breach by at most a minute.  For
  a day breach this needs a zone whose local clock does not run backwards and a next
  midnight that exists.\<close>

theorem defer_is_in_the_future:
  assumes "check_and_record q p ch cl now = (Defer t, q')" and "lawful (qt_tz q)"
    and "\<forall>a b. a \<le> b \<longrightarrow> z_to_local (qt_tz q) a \<le> z_to_local (qt_tz q) b"
    and "z_from_local (qt_tz q) ((local_date (qt_tz q) now + 1) * DAY) \<noteq> LNone"
  shows "now < t \<and> (t = next_day_window_start q now \<or> t \<le> now + mins 1)"
proof -
  let ?z = "qt_tz q"
  have "t = next_day_window_start q now \<or> t = minute_window_start now + mins 1"
    using assms(1) by (auto simp: check_and_record_def Let_def split: if_splits option.splits)
  then show ?thesis
  proof
    assume t: "t = next_day_window_start q now"
    obtain u where u: "earliest (z_from_local ?z ((local_date ?z now + 1) * DAY)) = Some u"
      using assms(4) by (metis earliest_None option.exhaust)
    then have tu: "t = u" by (simp add: t next_day_window_start_def resolve_local_midnight_def)
    have "z_to_local ?z u = (local_date ?z now + 1) * DAY" by (rule lawful_earliest [OF assms(2) u])
    then have "z_to_local ?z now < z_to_local ?z u"
      using local_split [of ?z now] local_time_bounds [of ?z now] by (simp add: algebra_simps)
    then have "now < u" using assms(3) by (meson not_less)
    with t tu show ?thesis by simp
  next
    assume t: "t = minute_window_start now + mins 1"
    have "0 \<le> now mod mins 1" "now mod mins 1 < mins 1" by simp_all
    then show ?thesis unfolding t minute_window_start_def by linarith
  qed
qed

definition full_tracker :: quota_tracker where
  "full_tracker = sample_tracker\<lparr>qt_counters := [((40, ''sms'', MARKETING),
     default_counters\<lparr>cn_minute_window_start := Some 0, cn_minute_sent := 1\<rparr>)]\<rparr>"

theorem defer_is_in_the_future_witness:
  "check_and_record full_tracker 40 ''sms'' MARKETING 7 = (Defer (mins 1), snd (check_and_record full_tracker 40 ''sms'' MARKETING 7))
   \<and> (7 < mins 1 \<and> (mins 1 = next_day_window_start full_tracker 7 \<or> mins 1 \<le> 7 + mins 1))"
proof
  show d: "check_and_record full_tracker 40 ''sms'' MARKETING 7
      = (Defer (mins 1), snd (check_and_record full_tracker 40 ''sms'' MARKETING 7))"
    by (simp add: check_and_record_def full_tracker_def sample_tracker_def entry_def roll_day_def roll_minute_def
        roll_window_def minute_window_start_def day_window_start_def resolve_local_midnight_def local_date_def
        fixed_zone_def default_counters_def over_def Let_def)
  show "7 < mins 1 \<and> (mins 1 = next_day_window_start full_tracker 7 \<or> mins 1 \<le> 7 + mins 1)"
    by (rule defer_is_in_the_future [OF d]) (simp_all add: full_tracker_def sample_tracker_def,
        simp_all add: fixed_zone_def)
qed

end
