(* ===== verification/Crypto.thy ===== *)
theory Crypto
  imports Schema
begin

text \<open>
  Encryption under a customer key (\<open>encryption.rs\<close>), the destination HMAC
  (\<open>destination_hmac.rs\<close>), and the UTF-8 check of \<open>String::from_utf8\<close>.

  AES-GCM, HMAC and the byte form of a \<open>Uuid\<close> come from third-party crates: they are the
  fields of the parameter \<open>crypto\<close>, and \<open>aead_lawful\<close> states what the AEAD promises, that
  opening undoes sealing under the same key, nonce and associated data.
  A Rust \<open>String\<close> is the list of its UTF-8 bytes as characters.
\<close>

section \<open>Text\<close>

definition cont :: "nat \<Rightarrow> bool" where
  "cont b \<longleftrightarrow> 128 \<le> b \<and> b \<le> 191"

text \<open>The well-formed byte sequences of the Unicode standard.\<close>

fun utf8_valid :: "nat list \<Rightarrow> bool" where
  "utf8_valid [] = True"
| "utf8_valid [a] = (a < 128)"
| "utf8_valid [a, b] = (if a < 128 then utf8_valid [b] else 194 \<le> a \<and> a \<le> 223 \<and> cont b)"
| "utf8_valid [a, b, c] =
     (if a < 128 then utf8_valid [b, c]
      else if 194 \<le> a \<and> a \<le> 223 then cont b \<and> utf8_valid [c]
      else if a = 224 then 160 \<le> b \<and> b \<le> 191 \<and> cont c
      else if a = 237 then 128 \<le> b \<and> b \<le> 159 \<and> cont c
      else 225 \<le> a \<and> a \<le> 239 \<and> cont b \<and> cont c)"
| "utf8_valid (a # b # c # d # r) =
     (if a < 128 then utf8_valid (b # c # d # r)
      else if 194 \<le> a \<and> a \<le> 223 then cont b \<and> utf8_valid (c # d # r)
      else if a = 224 then 160 \<le> b \<and> b \<le> 191 \<and> cont c \<and> utf8_valid (d # r)
      else if a = 237 then 128 \<le> b \<and> b \<le> 159 \<and> cont c \<and> utf8_valid (d # r)
      else if 225 \<le> a \<and> a \<le> 239 then cont b \<and> cont c \<and> utf8_valid (d # r)
      else if a = 240 then 144 \<le> b \<and> b \<le> 191 \<and> cont c \<and> cont d \<and> utf8_valid r
      else if a = 244 then 128 \<le> b \<and> b \<le> 143 \<and> cont c \<and> cont d \<and> utf8_valid r
      else 241 \<le> a \<and> a \<le> 243 \<and> cont b \<and> cont c \<and> cont d \<and> utf8_valid r)"

definition from_utf8 :: "bytes \<Rightarrow> string option" where
  "from_utf8 bs = (if utf8_valid (map unat bs) then Some (map (\<lambda>b. char_of (unat b)) bs) else None)"

definition as_bytes :: "string \<Rightarrow> bytes" where
  "as_bytes s = map (\<lambda>c. word_of_nat (of_char c)) s"

lemma unat_as_bytes: "map unat (as_bytes s) = map of_char s"
proof -
  have "of_char c < (256 :: nat)" for c by simp
  then have "unat (word_of_nat (of_char c) :: 8 word) = of_char c" for c
    by (simp add: unat_of_nat take_bit_nat_def)
  then show ?thesis by (simp add: as_bytes_def comp_def)
qed

text \<open>Writing a string out and reading it back is the identity on well-formed strings.\<close>

lemma from_utf8_as_bytes:
  assumes "utf8_valid (map of_char s)"
  shows "from_utf8 (as_bytes s) = Some s"
proof -
  have "map (\<lambda>b. char_of (unat b)) (as_bytes s) = map char_of (map unat (as_bytes s))" by simp
  also have "\<dots> = s" unfolding unat_as_bytes by (simp add: comp_def)
  finally show ?thesis using assms by (simp add: from_utf8_def unat_as_bytes)
qed

lemma as_bytes_from_utf8: "from_utf8 bs = Some s \<Longrightarrow> as_bytes s = bs"
proof -
  have "unat b < 256" for b :: "8 word" using unsigned_less [of b] by simp
  then have "word_of_nat (of_char (char_of (unat b))) = b" for b :: "8 word" by simp
  moreover assume "from_utf8 bs = Some s"
  ultimately show ?thesis by (auto simp: from_utf8_def as_bytes_def comp_def map_idI split: if_splits)
qed

lemma as_bytes_inject [simp]: "as_bytes s = as_bytes s' \<longleftrightarrow> s = s'"
proof
  assume "as_bytes s = as_bytes s'"
  then have "map (char_of \<circ> unat) (as_bytes s) = map (char_of \<circ> unat) (as_bytes s')" by simp
  then show "s = s'" unfolding map_map [symmetric] unat_as_bytes by (simp add: comp_def)
qed simp

section \<open>Encryption\<close>

record crypto =
  cy_seal :: "bytes \<Rightarrow> bytes \<Rightarrow> bytes \<Rightarrow> bytes \<Rightarrow> bytes option"
  cy_open :: "bytes \<Rightarrow> bytes \<Rightarrow> bytes \<Rightarrow> bytes \<Rightarrow> bytes option"
  cy_hmac :: "bytes \<Rightarrow> bytes \<Rightarrow> bytes"
  cy_uuid_bytes :: "uuid \<Rightarrow> bytes"

definition aead_lawful :: "crypto \<Rightarrow> bool" where
  "aead_lawful C \<longleftrightarrow> (\<forall>key nonce aad pt ct. cy_seal C key nonce aad pt = Some ct
     \<longrightarrow> cy_open C key nonce aad ct = Some pt)"

datatype encryption_error = InvalidKeyLength | BlobTooShort | Aead

abbreviation NONCE_LEN :: nat where "NONCE_LEN \<equiv> 12"

definition generate_nonce :: "env \<Rightarrow> ('z world_scheme, 'e, bytes) io" where
  "generate_nonce E w = (Inr (map (\<lambda>i. word_of_nat (e_random E (w_tick w + i))) [0..<NONCE_LEN]),
     w\<lparr>w_tick := w_tick w + NONCE_LEN\<rparr>)"

definition encrypt :: "crypto \<Rightarrow> env \<Rightarrow> bytes \<Rightarrow> bytes \<Rightarrow> bytes
    \<Rightarrow> ('z world_scheme, encryption_error, bytes) io" where
  "encrypt C E dek aad plaintext =
     (if length dek \<noteq> 32 then throw InvalidKeyLength
      else bindE (generate_nonce E) (\<lambda>nonce.
        case cy_seal C dek nonce aad plaintext of
          None \<Rightarrow> throw Aead
        | Some ciphertext \<Rightarrow> ret (nonce @ ciphertext)))"

definition decrypt :: "crypto \<Rightarrow> bytes \<Rightarrow> bytes \<Rightarrow> bytes \<Rightarrow> encryption_error + bytes" where
  "decrypt C dek aad blob =
     (if length dek \<noteq> 32 then Inl InvalidKeyLength
      else if length blob < NONCE_LEN then Inl BlobTooShort
      else ok_or Aead (cy_open C dek (take NONCE_LEN blob) aad (drop NONCE_LEN blob)))"

definition destination_hmac :: "crypto \<Rightarrow> bytes \<Rightarrow> string \<Rightarrow> bytes" where
  "destination_hmac C pepper destination = cy_hmac C pepper (as_bytes destination)"

lemma wp_generate_nonce [wp_simps]:
  "wp (generate_nonce E) Q R w = Q (map (\<lambda>i. word_of_nat (e_random E (w_tick w + i))) [0..<NONCE_LEN])
     (w\<lparr>w_tick := w_tick w + NONCE_LEN\<rparr>)"
  by (simp add: wp_def generate_nonce_def)

lemma keeps_generate_nonce [keeps_intros]: "keeps (db_inv P) (generate_nonce E)"
  by (rule wp_keeps) (simp add: db_inv_def wp_generate_nonce)

lemma keeps_encrypt [keeps_intros]: "keeps (db_inv P) (encrypt C E dek aad pt)"
  unfolding encrypt_def by (intro keeps_intros)

text \<open>Encryption draws a nonce and does nothing else; what it returns opens again.\<close>

lemma encrypt_spec:
  assumes "aead_lawful C"
  shows "wp (encrypt C E dek aad pt)
     (\<lambda>blob w'. decrypt C dek aad blob = Inr pt \<and> (\<exists>n. w' = w\<lparr>w_tick := n\<rparr>))
     (\<lambda>e w'. e = (if length dek = 32 then Aead else InvalidKeyLength) \<and> (\<exists>n. w' = w\<lparr>w_tick := n\<rparr>)) w"
proof -
  let ?nonce = "map (\<lambda>i. word_of_nat (e_random E (w_tick w + i))) [0..<NONCE_LEN] :: bytes"
  have len: "length ?nonce = NONCE_LEN" by (simp only: length_map length_upt diff_zero)
  have same: "\<exists>n. w = w\<lparr>w_tick := n\<rparr>" by (rule exI [of _ "w_tick w"]) simp
  have "decrypt C dek aad (?nonce @ ct) = Inr pt"
    if "length dek = 32" "cy_seal C dek ?nonce aad pt = Some ct" for ct
  proof -
    have "take NONCE_LEN (?nonce @ ct) = ?nonce" "drop NONCE_LEN (?nonce @ ct) = ct"
      unfolding append_eq_conv_conj [symmetric] using len by (simp_all only: take_append drop_append)
        (simp_all add: len)
    with that assms show ?thesis by (simp add: decrypt_def aead_lawful_def ok_or_def)
  qed
  with same show ?thesis
    unfolding encrypt_def wp_simps by (auto simp: wp_simps simp del: upt_rec split: option.splits)
qed

section \<open>Properties\<close>

text \<open>A blob that encryption returns decrypts, under the same key and associated data, to the
  plaintext it was made from, whatever nonce was drawn; and encryption never touches the
  databases.  It fails only on a key that is not 32 bytes or when the AEAD itself fails.\<close>

theorem decrypt_undoes_encrypt:
  assumes "aead_lawful C"
  shows "wp (encrypt C E dek aad pt)
     (\<lambda>blob w'. decrypt C dek aad blob = Inr pt \<and> w_db w' = w_db w \<and> w_ctl w' = w_ctl w)
     (\<lambda>e w'. e = (if length dek = 32 then Aead else InvalidKeyLength) \<and> w_db w' = w_db w) w"
  by (rule wp_mono [OF encrypt_spec [OF assms]]) auto

definition framed_crypto :: crypto where
  "framed_crypto = \<lparr>cy_seal = \<lambda>key nonce aad pt. Some (aad @ pt),
     cy_open = \<lambda>key nonce aad ct. if take (length aad) ct = aad then Some (drop (length aad) ct) else None,
     cy_hmac = \<lambda>k m. k @ m, cy_uuid_bytes = \<lambda>u. [ucast u]\<rparr>"

lemma aead_lawful_framed [simp]: "aead_lawful framed_crypto"
  by (simp add: aead_lawful_def framed_crypto_def)

theorem decrypt_undoes_encrypt_witness:
  "wp (encrypt framed_crypto (quiet_env 0) (replicate 32 7) [1] [2, 3])
     (\<lambda>blob w'. decrypt framed_crypto (replicate 32 7) [1] blob = Inr [2, 3] \<and> w_db w' = empty_db \<and> w_ctl w' = empty_ctl)
     (\<lambda>e w'. e = (if length (replicate 32 (7 :: 8 word)) = 32 then Aead else InvalidKeyLength) \<and> w_db w' = empty_db)
     \<lparr>w_db = empty_db, w_ctl = empty_ctl, w_tick = 0\<rparr>"
  using decrypt_undoes_encrypt [OF aead_lawful_framed, of "quiet_env 0" "replicate 32 7" "[1]" "[2, 3]"
      "\<lparr>w_db = empty_db, w_ctl = empty_ctl, w_tick = 0\<rparr>"] by simp

end
