(* ===== verification/Dek.thy ===== *)
theory Dek
  imports Crypto Tenant
begin

text \<open>
  Per-customer data-encryption keys: the in-process cache of unwrapped keys
  (\<open>key_cache.rs\<close>), the table of wrapped keys (\<open>customer_dek/repo.rs\<close>), and the lifecycle that
  creates a key at most once per customer (\<open>customer_dek/lifecycle.rs\<close>).

  The LRU map of the \<open>lru\<close> crate and the Vault key store are parameters: a record \<open>lru\<close> of the
  map's operations on a state type \<open>'c\<close>, with its documented behaviour in \<open>lru_lawful\<close>, and a record
  \<open>keystore\<close> of the two Transit operations, with \<open>keystore_lawful\<close> stating that a wrapped key opens to
  one plaintext only, the one it was created with.
\<close>

section \<open>The key cache\<close>

type_synonym cache_entry = "bytes \<times> int"

record 'c lru =
  l_get :: "'c \<Rightarrow> uuid \<Rightarrow> cache_entry option \<times> 'c"
  l_put :: "'c \<Rightarrow> uuid \<Rightarrow> cache_entry \<Rightarrow> 'c"
  l_pop :: "'c \<Rightarrow> uuid \<Rightarrow> 'c"
  l_peek :: "'c \<Rightarrow> uuid \<Rightarrow> cache_entry option"

text \<open>The map's documentation: \<open>get\<close> finds what \<open>peek\<close> shows and changes no content, \<open>pop\<close> removes one
  key, \<open>put\<close> sets one key and evicts some others.\<close>

definition lru_lawful :: "'c lru \<Rightarrow> bool" where
  "lru_lawful L \<longleftrightarrow>
     (\<forall>c k. fst (l_get L c k) = l_peek L c k \<and> l_peek L (snd (l_get L c k)) = l_peek L c)
   \<and> (\<forall>c k. l_peek L (l_pop L c k) = (l_peek L c)(k := None))
   \<and> (\<forall>c k v. l_peek L (l_put L c k v) k = Some v)
   \<and> (\<forall>c k v j. j \<noteq> k \<longrightarrow> l_peek L (l_put L c k v) j \<in> {None, l_peek L c j})"

record 'c key_cache =
  kc_inner :: 'c
  kc_ttl :: int

definition key_cache_get :: "'c lru \<Rightarrow> int \<Rightarrow> uuid \<Rightarrow> 'c key_cache \<Rightarrow> bytes option \<times> 'c key_cache" where
  "key_cache_get L now k kc =
    (let (found, inner) = l_get L (kc_inner kc) k in
     case found of
       Some (plaintext, cached_at) \<Rightarrow>
         if max 0 (now - cached_at) < kc_ttl kc then (Some plaintext, kc\<lparr>kc_inner := inner\<rparr>)
         else (None, kc\<lparr>kc_inner := l_pop L inner k\<rparr>)
     | None \<Rightarrow> (None, kc\<lparr>kc_inner := inner\<rparr>))"

definition key_cache_put :: "'c lru \<Rightarrow> int \<Rightarrow> uuid \<Rightarrow> bytes \<Rightarrow> 'c key_cache \<Rightarrow> 'c key_cache" where
  "key_cache_put L now k plaintext kc = kc\<lparr>kc_inner := l_put L (kc_inner kc) k (plaintext, now)\<rparr>"

text \<open>A process with a key cache.\<close>

record 'c key_world = world +
  w_keys :: "'c key_cache"

definition cache_get :: "'c lru \<Rightarrow> env \<Rightarrow> uuid \<Rightarrow> (('c, 'z) key_world_scheme, 'e, bytes option) io" where
  "cache_get L E k w = (let (r, kc) = key_cache_get L (e_instant E (w_tick w)) k (w_keys w) in
     (Inr r, w\<lparr>w_tick := Suc (w_tick w), w_keys := kc\<rparr>))"

definition cache_put :: "'c lru \<Rightarrow> env \<Rightarrow> uuid \<Rightarrow> bytes \<Rightarrow> (('c, 'z) key_world_scheme, 'e, unit) io" where
  "cache_put L E k plaintext w =
     (Inr (), w\<lparr>w_tick := Suc (w_tick w), w_keys := key_cache_put L (e_instant E (w_tick w)) k plaintext (w_keys w)\<rparr>)"

section \<open>The key store\<close>

datatype keystore_error = VaultClient | VaultProtocol

record keystore =
  k_create :: "nat \<Rightarrow> string \<Rightarrow> keystore_error + bytes \<times> string"
  k_unwrap :: "nat \<Rightarrow> string \<Rightarrow> string \<Rightarrow> keystore_error + bytes"

definition keystore_lawful :: "keystore \<Rightarrow> (string \<Rightarrow> string \<Rightarrow> bytes) \<Rightarrow> bool" where
  "keystore_lawful K plain \<longleftrightarrow>
     (\<forall>n mount p wr. k_create K n mount = Inr (p, wr) \<longrightarrow> plain mount wr = p)
   \<and> (\<forall>n mount p wr. k_unwrap K n mount wr = Inr p \<longrightarrow> plain mount wr = p)"

definition create_dek :: "keystore \<Rightarrow> string \<Rightarrow> ('z world_scheme, keystore_error, bytes \<times> string) io" where
  "create_dek K mount w = (k_create K (w_tick w) mount, w\<lparr>w_tick := Suc (w_tick w)\<rparr>)"

definition unwrap_dek :: "keystore \<Rightarrow> string \<Rightarrow> string \<Rightarrow> ('z world_scheme, keystore_error, bytes) io" where
  "unwrap_dek K mount wrapped w = (k_unwrap K (w_tick w) mount wrapped, w\<lparr>w_tick := Suc (w_tick w)\<rparr>)"

section \<open>The lifecycle\<close>

definition find_dek_row :: "uuid \<Rightarrow> tenant_db \<Rightarrow> customer_dek_row option" where
  "find_dek_row customer_id d = find_row (\<lambda>r. dk_customer_id r = customer_id) (t_customer_dek d)"

definition find_dek :: "env \<Rightarrow> uuid \<Rightarrow> ('z world_scheme, sqlx_error, customer_dek_row option) io" where
  "find_dek E customer_id = query E (\<lambda>_. find_dek_row customer_id)"

definition insert_dek :: "uuid \<Rightarrow> string \<Rightarrow> timestamp \<Rightarrow> tenant_db \<Rightarrow> bool \<times> tenant_db" where
  "insert_dek customer_id wrapped created_at d =
     (find_dek_row customer_id d = None,
      d\<lparr>t_customer_dek := ins_ignore dk_customer_id
          \<lparr>dk_customer_id = customer_id, dk_wrapped_dek = wrapped, dk_created_at = created_at,
           dk_shredded_at = None\<rparr> (t_customer_dek d)\<rparr>)"

definition insert_if_absent :: "env \<Rightarrow> uuid \<Rightarrow> string \<Rightarrow> timestamp \<Rightarrow> ('z world_scheme, sqlx_error, bool) io" where
  "insert_if_absent E customer_id wrapped created_at =
     stmt E (\<lambda>_ d. Inr (insert_dek customer_id wrapped created_at d))"

text \<open>\<open>DekPanic\<close> is the \<open>expect\<close> that a row exists after losing the insert race.\<close>

datatype dek_error = DekDatabase sqlx_error | DekVault keystore_error | DekPanic

definition get_or_create_dek :: "'c lru \<Rightarrow> env \<Rightarrow> keystore \<Rightarrow> string \<Rightarrow> uuid
    \<Rightarrow> (('c, 'z) key_world_scheme, dek_error, bytes) io" where
  "get_or_create_dek L E K mount customer_id =
     bindE (cache_get L E customer_id) (\<lambda>hit.
     case hit of
       Some plaintext \<Rightarrow> ret plaintext
     | None \<Rightarrow>
        bindE (bindE (map_err DekDatabase (find_dek E customer_id)) (\<lambda>row.
          case row of
            Some row \<Rightarrow> map_err DekVault (unwrap_dek K mount (dk_wrapped_dek row))
          | None \<Rightarrow>
             bindE (map_err DekVault (create_dek K mount)) (\<lambda>dek.
             bindE (utc_now E) (\<lambda>now.
             bindE (map_err DekDatabase (insert_if_absent E customer_id (snd dek) now)) (\<lambda>inserted.
             if inserted then ret (fst dek)
             else bindE (map_err DekDatabase (find_dek E customer_id)) (\<lambda>row.
               case row of
                 None \<Rightarrow> throw DekPanic
               | Some row \<Rightarrow> map_err DekVault (unwrap_dek K mount (dk_wrapped_dek row))))))))
        (\<lambda>plaintext. thenE (cache_put L E customer_id plaintext) (ret plaintext)))"

record pre_provision_outcome =
  pp_created :: nat
  pp_already_existed :: nat

fun pre_provision_loop :: "env \<Rightarrow> keystore \<Rightarrow> string \<Rightarrow> uuid list \<Rightarrow> pre_provision_outcome
    \<Rightarrow> ('z world_scheme, dek_error, pre_provision_outcome) io" where
  "pre_provision_loop E K mount [] outcome = ret outcome"
| "pre_provision_loop E K mount (customer_id # ids) outcome =
     bindE (map_err DekDatabase (find_dek E customer_id)) (\<lambda>row.
     case row of
       Some _ \<Rightarrow> pre_provision_loop E K mount ids
                   (outcome\<lparr>pp_already_existed := pp_already_existed outcome + 1\<rparr>)
     | None \<Rightarrow>
        bindE (map_err DekVault (create_dek K mount)) (\<lambda>dek.
        bindE (utc_now E) (\<lambda>now.
        bindE (map_err DekDatabase (insert_if_absent E customer_id (snd dek) now)) (\<lambda>inserted.
        pre_provision_loop E K mount ids
          (if inserted then outcome\<lparr>pp_created := pp_created outcome + 1\<rparr>
           else outcome\<lparr>pp_already_existed := pp_already_existed outcome + 1\<rparr>)))))"

definition pre_provision_deks :: "env \<Rightarrow> keystore \<Rightarrow> string \<Rightarrow> uuid list
    \<Rightarrow> ('z world_scheme, dek_error, pre_provision_outcome) io" where
  "pre_provision_deks E K mount ids =
     pre_provision_loop E K mount ids \<lparr>pp_created = 0, pp_already_existed = 0\<rparr>"

text \<open>The command-line wrapper; opening the tenant's pool is the parameter \<open>connect\<close>.\<close>

definition pre_provision_for_tenant :: "env \<Rightarrow> keystore \<Rightarrow> (tenant_row \<Rightarrow> ('z world_scheme, sqlx_error, unit) io)
    \<Rightarrow> string \<Rightarrow> uuid list \<Rightarrow> string \<Rightarrow> ('z world_scheme, dek_error, pre_provision_outcome) io" where
  "pre_provision_for_tenant E K connect tenant_slug ids actor =
     bindE (map_err DekDatabase (find_by_slug E tenant_slug)) (\<lambda>found.
     case found of
       None \<Rightarrow> throw (DekDatabase (Configuration ''no tenant registered with slug''))
     | Some tenant \<Rightarrow>
        thenE (map_err DekDatabase (connect tenant))
        (bindE (pre_provision_deks E K (tn_vault_mount tenant) ids) (\<lambda>outcome.
         thenE (map_err DekDatabase (audit_record E actor ''customer_dek.pre_provision'' (Some (tn_id tenant))
                  [(''requested'', JInt (int (length ids))), (''created'', JInt (int (pp_created outcome))),
                   (''already_existed'', JInt (int (pp_already_existed outcome)))]))
           (ret outcome))))"

section \<open>Weakest preconditions\<close>

lemma wp_cache_get [wp_simps]:
  "wp (cache_get L E k) Q R w = (let (r, kc) = key_cache_get L (e_instant E (w_tick w)) k (w_keys w) in
     Q r (w\<lparr>w_tick := Suc (w_tick w), w_keys := kc\<rparr>))"
  by (simp add: wp_def cache_get_def split: prod.splits)

lemma wp_cache_put [wp_simps]:
  "wp (cache_put L E k p) Q R w =
     Q () (w\<lparr>w_tick := Suc (w_tick w), w_keys := key_cache_put L (e_instant E (w_tick w)) k p (w_keys w)\<rparr>)"
  by (simp add: wp_def cache_put_def)

lemma wp_create_dek [wp_simps]:
  "wp (create_dek K m) Q R w = (case k_create K (w_tick w) m of
     Inr a \<Rightarrow> Q a (w\<lparr>w_tick := Suc (w_tick w)\<rparr>) | Inl e \<Rightarrow> R e (w\<lparr>w_tick := Suc (w_tick w)\<rparr>))"
  by (simp add: wp_def create_dek_def split: sum.splits)

lemma wp_unwrap_dek [wp_simps]:
  "wp (unwrap_dek K m x) Q R w = (case k_unwrap K (w_tick w) m x of
     Inr a \<Rightarrow> Q a (w\<lparr>w_tick := Suc (w_tick w)\<rparr>) | Inl e \<Rightarrow> R e (w\<lparr>w_tick := Suc (w_tick w)\<rparr>))"
  by (simp add: wp_def unwrap_dek_def split: sum.splits)

lemma keeps_dek_prims [keeps_intros]:
  "keeps (db_inv P) (cache_get L E k)" "keeps (db_inv P) (cache_put L E k p)"
  "keeps (db_inv P) (create_dek K m)" "keeps (db_inv P) (unwrap_dek K m x)"
  by (auto simp: keeps_def db_inv_def cache_get_def cache_put_def create_dek_def unwrap_dek_def split: prod.splits)

lemma keeps_find_dek [keeps_intros]: "db_stable E P \<Longrightarrow> keeps (db_inv P) (find_dek E c)"
  unfolding find_dek_def by (rule keeps_query)

lemma keeps_insert_if_absent [keeps_intros]:
  assumes "db_stable E P" and "\<And>d. P d \<Longrightarrow> P (snd (insert_dek c wr t d))"
  shows "keeps (db_inv P) (insert_if_absent E c wr t)"
  unfolding insert_if_absent_def by (rule keeps_stmt) (use assms in \<open>auto simp: insert_dek_def\<close>)

lemma keeps_get_or_create_dek [keeps_intros]:
  assumes "db_stable E P" and "\<And>wr t d. P d \<Longrightarrow> P (snd (insert_dek c wr t d))"
  shows "keeps (db_inv P) (get_or_create_dek L E K mount c)"
  unfolding get_or_create_dek_def by (intro keeps_intros assms)

lemma fails_dek_prims [fails_intros]:
  "fails_with P (cache_get L E k)" "fails_with P (cache_put L E k p)"
  "(\<And>e. P' e) \<Longrightarrow> fails_with P' (create_dek K m)" "(\<And>e. P' e) \<Longrightarrow> fails_with P' (unwrap_dek K m x)"
  by (auto simp: fails_with_def wp_simps split: prod.splits sum.splits)

lemma fails_dek_stmts [fails_intros]:
  "P Io \<Longrightarrow> fails_with P (find_dek E c)" "P Io \<Longrightarrow> fails_with P (insert_if_absent E c wr t)"
  unfolding find_dek_def insert_if_absent_def by (auto intro: fails_query fails_stmt)

lemma fails_get_or_create_dek:
  "fails_with (\<lambda>e. e = DekDatabase Io \<or> (\<exists>v. e = DekVault v) \<or> e = DekPanic) (get_or_create_dek L E K mount c)"
  unfolding get_or_create_dek_def by (intro fails_intros) auto

section \<open>Keys only ever appear\<close>

text \<open>Wrapped keys are never replaced or removed: every row a database has, a later one has too.\<close>

definition keys_extend :: "tenant_db \<Rightarrow> tenant_db \<Rightarrow> bool" where
  "keys_extend d d' \<longleftrightarrow> (\<forall>c r. find_dek_row c d = Some r \<longrightarrow> find_dek_row c d' = Some r)"

lemma keys_extend_refl [simp]: "keys_extend d d"
  by (simp add: keys_extend_def)

lemma keys_extend_trans: "keys_extend d d' \<Longrightarrow> keys_extend d' d'' \<Longrightarrow> keys_extend d d''"
  by (simp add: keys_extend_def)

text \<open>What the other sessions may do to the table of wrapped keys; \<open>insert_if_absent\<close>, the only
  statement that writes it, conforms.\<close>

definition keys_grow :: "env \<Rightarrow> bool" where
  "keys_grow E \<longleftrightarrow> (\<forall>n d. keys_extend d (e_interfere E n d))"

lemma insert_dek_extends: "keys_extend d (snd (insert_dek c wr t d))"
  by (auto simp: keys_extend_def insert_dek_def find_dek_row_def ins_ignore_def find_row_append)

lemma find_insert_dek:
  "find_dek_row c (snd (insert_dek c wr t d)) = (case find_dek_row c d of
     Some r \<Rightarrow> Some r
   | None \<Rightarrow> Some \<lparr>dk_customer_id = c, dk_wrapped_dek = wr, dk_created_at = t, dk_shredded_at = None\<rparr>)"
proof (cases "c \<in> dk_customer_id ` set (t_customer_dek d)")
  case True
  then obtain r where "find_dek_row c d = Some r"
    by (cases "find_dek_row c d") (auto simp: find_dek_row_def find_row_None)
  with True show ?thesis by (simp add: insert_dek_def find_dek_row_def ins_ignore_def)
next
  case False
  then have "find_dek_row c d = None" by (auto simp: find_dek_row_def find_row_None image_iff)
  with False show ?thesis by (simp add: insert_dek_def find_dek_row_def ins_ignore_def find_row_append)
qed

section \<open>The cache agrees with the table\<close>

definition coherent :: "'c lru \<Rightarrow> (string \<Rightarrow> string \<Rightarrow> bytes) \<Rightarrow> string \<Rightarrow> 'c key_cache \<Rightarrow> tenant_db \<Rightarrow> bool" where
  "coherent L plain mount kc d \<longleftrightarrow> (\<forall>c p at. l_peek L (kc_inner kc) c = Some (p, at) \<longrightarrow>
     (\<exists>r. find_dek_row c d = Some r \<and> plain mount (dk_wrapped_dek r) = p))"

lemma coherent_extend: "coherent L plain mount kc d \<Longrightarrow> keys_extend d d' \<Longrightarrow> coherent L plain mount kc d'"
  by (fastforce simp: coherent_def keys_extend_def)

text \<open>A hit is a cached entry younger than the time to live; a read adds nothing.\<close>

lemma key_cache_get_cases:
  assumes "lru_lawful L" and "key_cache_get L now k kc = (r, kc')"
  shows "r = Some p \<Longrightarrow> \<exists>at. l_peek L (kc_inner kc) k = Some (p, at) \<and> max 0 (now - at) < kc_ttl kc"
    and "l_peek L (kc_inner kc') j = Some v \<Longrightarrow> l_peek L (kc_inner kc) j = Some v"
proof -
  have get: "fst (l_get L c i) = l_peek L c i" "l_peek L (snd (l_get L c i)) = l_peek L c" for c i
    using assms(1) by (simp_all add: lru_lawful_def)
  have pop: "l_peek L (l_pop L c i) = (l_peek L c)(i := None)" for c i
    using assms(1) by (simp add: lru_lawful_def)
  obtain f inner where g: "l_get L (kc_inner kc) k = (f, inner)" by (cases "l_get L (kc_inner kc) k")
  with get(1) [of "kc_inner kc" k] get(2) [of "kc_inner kc" k]
  have f: "f = l_peek L (kc_inner kc) k" "l_peek L inner = l_peek L (kc_inner kc)" by simp_all
  show "\<exists>at. l_peek L (kc_inner kc) k = Some (p, at) \<and> max 0 (now - at) < kc_ttl kc" if "r = Some p"
    using assms(2) that g f by (auto simp: key_cache_get_def split: option.splits if_splits)
  show "l_peek L (kc_inner kc) j = Some v" if "l_peek L (kc_inner kc') j = Some v"
    using assms(2) that g f by (auto simp: key_cache_get_def pop split: option.splits if_splits)
qed

lemma coherent_get:
  "lru_lawful L \<Longrightarrow> coherent L plain mount kc d \<Longrightarrow> key_cache_get L now k kc = (r, kc') \<Longrightarrow>
   coherent L plain mount kc' d"
  using key_cache_get_cases(2) [of L now k kc r kc'] by (fastforce simp: coherent_def)

lemma coherent_put:
  assumes "lru_lawful L" and "coherent L plain mount kc d"
    and "find_dek_row k d = Some r" and "plain mount (dk_wrapped_dek r) = p"
  shows "coherent L plain mount (key_cache_put L now k p kc) d"
proof -
  have "l_peek L (l_put L (kc_inner kc) k (p, now)) k = Some (p, now)"
    and "j \<noteq> k \<Longrightarrow> l_peek L (l_put L (kc_inner kc) k (p, now)) j \<in> {None, l_peek L (kc_inner kc) j}" for j
    using assms(1) by (simp_all add: lru_lawful_def)
  then have "l_peek L (l_put L (kc_inner kc) k (p, now)) j = Some v \<Longrightarrow>
      (j = k \<and> v = (p, now)) \<or> l_peek L (kc_inner kc) j = Some v" for j v
    by (cases "j = k") fastforce+
  with assms(2-4) show ?thesis by (fastforce simp: coherent_def key_cache_put_def)
qed

text \<open>The state between the steps of the lifecycle: rows have only appeared since the start, and the
  cache agrees with the table.\<close>

definition dek_inv :: "'c lru \<Rightarrow> (string \<Rightarrow> string \<Rightarrow> bytes) \<Rightarrow> string \<Rightarrow> tenant_db
    \<Rightarrow> ('c, 'z) key_world_scheme \<Rightarrow> bool" where
  "dek_inv L plain mount d0 w \<longleftrightarrow> keys_extend d0 (w_db w) \<and> coherent L plain mount (w_keys w) (w_db w)"

definition holds_key :: "(string \<Rightarrow> string \<Rightarrow> bytes) \<Rightarrow> string \<Rightarrow> uuid \<Rightarrow> bytes \<Rightarrow> ('c, 'z) key_world_scheme \<Rightarrow> bool" where
  "holds_key plain mount c p w \<longleftrightarrow> (\<exists>r. find_dek_row c (w_db w) = Some r \<and> plain mount (dk_wrapped_dek r) = p)"

lemma dek_inv_extend:
  "dek_inv L plain mount d0 w \<Longrightarrow> keys_extend (w_db w) d \<Longrightarrow> dek_inv L plain mount d0 (w\<lparr>w_tick := n, w_db := d\<rparr>)"
  by (auto simp: dek_inv_def intro: keys_extend_trans coherent_extend)

lemma find_dek_inv:
  assumes "keys_grow E" and "dek_inv L plain mount d0 w"
  shows "wp (find_dek E c) (\<lambda>r w'. dek_inv L plain mount d0 w' \<and> r = find_dek_row c (w_db w')
      \<and> keys_extend (w_db w) (w_db w')) (\<lambda>_. dek_inv L plain mount d0) w"
  using assms by (auto simp: find_dek_def wp_simps Let_def keys_grow_def intro!: dek_inv_extend)

lemma insert_if_absent_inv:
  assumes "keys_grow E" and "dek_inv L plain mount d0 w" and "plain mount wr = p"
  shows "wp (insert_if_absent E c wr t) (\<lambda>b w'. dek_inv L plain mount d0 w' \<and> find_dek_row c (w_db w') \<noteq> None
      \<and> (b \<longrightarrow> holds_key plain mount c p w')) (\<lambda>_. dek_inv L plain mount d0) w"
proof -
  let ?d = "e_interfere E (w_tick w) (w_db w)"
  have e1: "keys_extend (w_db w) ?d" using assms(1) by (simp add: keys_grow_def)
  note ext = e1 keys_extend_trans [OF e1 insert_dek_extends [of ?d c wr t]]
  show ?thesis
    using assms(2,3) ext find_insert_dek [of c wr t ?d]
    by (auto simp: insert_if_absent_def wp_simps Let_def holds_key_def insert_dek_def
        split: prod.splits fault.splits option.splits intro!: dek_inv_extend)
qed

section \<open>The lifecycle keeps the agreement\<close>

lemma get_or_create_dek_inv:
  assumes "lru_lawful L" and "keystore_lawful K plain" and "keys_grow E"
    and "coherent L plain mount (w_keys w) (w_db w)"
  shows "wp (get_or_create_dek L E K mount c)
     (\<lambda>p w'. dek_inv L plain mount (w_db w) w' \<and> holds_key plain mount c p w')
     (\<lambda>e w'. e \<noteq> DekPanic \<and> dek_inv L plain mount (w_db w) w') w"
proof -
  let ?I = "dek_inv L plain mount (w_db w)" and ?H = "holds_key plain mount c"
  let ?R = "\<lambda>e w'. e \<noteq> DekPanic \<and> ?I w'"
  have open_row: "wp (map_err DekVault (unwrap_dek K mount (dk_wrapped_dek r))) (\<lambda>p v'. ?I v' \<and> ?H p v') ?R v"
    if "?I v" "find_dek_row c (w_db v) = Some r" for r v
    using that assms(2)
    by (auto simp: wp_simps dek_inv_def holds_key_def keystore_lawful_def split: sum.splits)
  have look: "wp (map_err DekDatabase (find_dek E c)) (\<lambda>r v'. ?I v' \<and> r = find_dek_row c (w_db v')
      \<and> keys_extend (w_db v) (w_db v')) ?R v" if "?I v" for v
    using find_dek_inv [OF assms(3) that, of c] by (auto simp: wp_map_err elim!: wp_mono)
  have lost: "wp (bindE (map_err DekDatabase (find_dek E c)) (\<lambda>row. case row of None \<Rightarrow> throw DekPanic
      | Some row \<Rightarrow> map_err DekVault (unwrap_dek K mount (dk_wrapped_dek row)))) (\<lambda>p v'. ?I v' \<and> ?H p v') ?R v"
    if "?I v" "find_dek_row c (w_db v) \<noteq> None" for v
    by (rule wp_bindI [OF look [OF that(1)]])
      (use that(2) open_row in \<open>auto simp: keys_extend_def split: option.splits\<close>)
  have mint: "wp (bindE (map_err DekVault (create_dek K mount)) (\<lambda>dek. bindE (utc_now E) (\<lambda>now.
      bindE (map_err DekDatabase (insert_if_absent E c (snd dek) now)) (\<lambda>inserted.
      if inserted then ret (fst dek) else bindE (map_err DekDatabase (find_dek E c)) (\<lambda>row.
        case row of None \<Rightarrow> throw DekPanic | Some row \<Rightarrow> map_err DekVault (unwrap_dek K mount (dk_wrapped_dek row)))))))
      (\<lambda>p v'. ?I v' \<and> ?H p v') ?R v" if I: "?I v" for v
  proof (rule wp_bindI)
    show "wp (map_err DekVault (create_dek K mount)) (\<lambda>dek v'. ?I v' \<and> plain mount (snd dek) = fst dek) ?R v"
      using I assms(2) by (auto simp: wp_simps dek_inv_def keystore_lawful_def split: sum.splits)
    fix dek v' assume dek: "?I v' \<and> plain mount (snd dek) = fst dek"
    show "wp (bindE (utc_now E) (\<lambda>now. bindE (map_err DekDatabase (insert_if_absent E c (snd dek) now)) (\<lambda>inserted.
      if inserted then ret (fst dek) else bindE (map_err DekDatabase (find_dek E c)) (\<lambda>row.
        case row of None \<Rightarrow> throw DekPanic | Some row \<Rightarrow> map_err DekVault (unwrap_dek K mount (dk_wrapped_dek row))))))
      (\<lambda>p v'. ?I v' \<and> ?H p v') ?R v'"
      unfolding wp_simps(3)
      by (simp only: wp_utc_now) (rule wp_map_errI,
          rule wp_mono [OF insert_if_absent_inv [OF assms(3), where p = "fst dek"]],
          use dek lost in \<open>auto simp: dek_inv_def wp_simps\<close>)
  qed
  have body: "wp (bindE (bindE (map_err DekDatabase (find_dek E c)) (\<lambda>row. case row of
        Some row \<Rightarrow> map_err DekVault (unwrap_dek K mount (dk_wrapped_dek row))
      | None \<Rightarrow> bindE (map_err DekVault (create_dek K mount)) (\<lambda>dek. bindE (utc_now E) (\<lambda>now.
          bindE (map_err DekDatabase (insert_if_absent E c (snd dek) now)) (\<lambda>inserted.
          if inserted then ret (fst dek) else bindE (map_err DekDatabase (find_dek E c)) (\<lambda>row.
            case row of None \<Rightarrow> throw DekPanic
            | Some row \<Rightarrow> map_err DekVault (unwrap_dek K mount (dk_wrapped_dek row))))))))
      (\<lambda>plaintext. thenE (cache_put L E c plaintext) (ret plaintext)))
      (\<lambda>p v'. ?I v' \<and> ?H p v') ?R v" if "?I v" for v
  proof (rule wp_bindI, rule wp_bindI [OF look [OF that]])
    fix p v' assume "?I v' \<and> ?H p v'"
    then show "wp (thenE (cache_put L E c p) (ret p)) (\<lambda>p v'. ?I v' \<and> ?H p v') ?R v'"
      using coherent_put [OF assms(1)] by (auto simp: wp_simps dek_inv_def holds_key_def)
  qed (use open_row mint in \<open>auto split: option.splits\<close>)
  show ?thesis
    unfolding get_or_create_dek_def
  proof (rule wp_bindI)
    have "coherent L plain mount kc (w_db w)" "r = Some p \<Longrightarrow> \<exists>x. find_dek_row c (w_db w) = Some x \<and> plain mount (dk_wrapped_dek x) = p"
      if "key_cache_get L (e_instant E (w_tick w)) c (w_keys w) = (r, kc)" for r kc p
      using coherent_get [OF assms(1,4) that] key_cache_get_cases(1) [OF assms(1) that, of p] assms(4)
      by (auto simp: coherent_def)
    then show "wp (cache_get L E c) (\<lambda>h v. ?I v \<and> (case h of None \<Rightarrow> True | Some p \<Rightarrow> ?H p v)) ?R w"
      by (auto simp: wp_simps dek_inv_def holds_key_def split: prod.splits option.splits)
  qed (use body in \<open>auto simp: wp_simps split: option.splits\<close>)
qed

section \<open>Properties\<close>

text \<open>C29: A customer has one key.  Whatever fails and whatever other processes do, as long as they too
  only add keys, a call that returns a key returns the plaintext of the customer's row in the
  table, and no row that existed is replaced; so any two calls for a customer, in any
  process, that return a key return the same one.  The cache stays in agreement with the
  table, and the \<open>expect\<close> after a lost race never fires.\<close>

theorem one_key_per_customer:
  assumes "lru_lawful L" and "keystore_lawful K plain" and "keys_grow E"
    and "coherent L plain mount (w_keys w) (w_db w)"
  shows "wp (get_or_create_dek L E K mount c)
     (\<lambda>p w'. (\<exists>r. find_dek_row c (w_db w') = Some r \<and> plain mount (dk_wrapped_dek r) = p)
        \<and> keys_extend (w_db w) (w_db w') \<and> coherent L plain mount (w_keys w') (w_db w'))
     (\<lambda>e w'. e \<noteq> DekPanic \<and> keys_extend (w_db w) (w_db w') \<and> coherent L plain mount (w_keys w') (w_db w')) w"
  by (rule wp_mono [OF get_or_create_dek_inv [OF assms]]) (auto simp: dek_inv_def holds_key_def)

definition list_lru :: "(uuid \<times> cache_entry) list lru" where
  "list_lru = \<lparr>l_get = \<lambda>c k. (map_of c k, c), l_put = \<lambda>c k v. (k, v) # c,
     l_pop = \<lambda>c k. filter (\<lambda>x. fst x \<noteq> k) c, l_peek = map_of\<rparr>"

lemma lru_lawful_list [simp]: "lru_lawful list_lru"
proof -
  have "map_of (filter (\<lambda>x. fst x \<noteq> k) c) = (map_of c)(k := None)" for k and c :: "(uuid \<times> cache_entry) list"
    by (induction c) (auto simp: fun_eq_iff)
  then show ?thesis by (simp add: lru_lawful_def list_lru_def)
qed

definition sample_keystore :: keystore where
  "sample_keystore = \<lparr>k_create = \<lambda>n m. Inr (replicate 32 7, ''wrapped''), k_unwrap = \<lambda>n m x. Inr (replicate 32 7)\<rparr>"

lemma sample_keystore_lawful [simp]: "keystore_lawful sample_keystore (\<lambda>_ _. replicate 32 7)"
  by (simp add: keystore_lawful_def sample_keystore_def)

lemma quiet_keys_grow [simp]: "quiet E \<Longrightarrow> keys_grow E"
  by (simp add: keys_grow_def)

definition cold_world :: "(uuid \<times> cache_entry) list key_world" where
  "cold_world = \<lparr>w_db = empty_db, w_ctl = empty_ctl, w_tick = 0, w_keys = \<lparr>kc_inner = [], kc_ttl = 3600\<rparr>\<rparr>"

theorem one_key_per_customer_witness:
  "wp (get_or_create_dek list_lru (quiet_env 0) sample_keystore ''mount'' 20)
     (\<lambda>p w'. (\<exists>r. find_dek_row 20 (w_db w') = Some r \<and> replicate 32 7 = p)
        \<and> keys_extend (w_db cold_world) (w_db w') \<and> coherent list_lru (\<lambda>_ _. replicate 32 7) ''mount'' (w_keys w') (w_db w'))
     (\<lambda>e w'. e \<noteq> DekPanic \<and> keys_extend (w_db cold_world) (w_db w')
        \<and> coherent list_lru (\<lambda>_ _. replicate 32 7) ''mount'' (w_keys w') (w_db w')) cold_world"
  by (rule one_key_per_customer [OF lru_lawful_list sample_keystore_lawful])
    (simp_all add: coherent_def cold_world_def list_lru_def)

lemma keys_extend_covers: "keys_extend d d' \<Longrightarrow> find_dek_row c d \<noteq> None \<Longrightarrow> find_dek_row c d' \<noteq> None"
  by (auto simp: keys_extend_def)

lemma wp_find_dek_grow:
  assumes "keys_grow E"
  shows "wp (find_dek E c) (\<lambda>r w'. r = find_dek_row c (w_db w') \<and> keys_extend (w_db w) (w_db w'))
     (\<lambda>_ w'. keys_extend (w_db w) (w_db w')) w"
  using assms by (simp add: find_dek_def wp_simps Let_def keys_grow_def)

lemma wp_insert_grow:
  assumes "keys_grow E"
  shows "wp (insert_if_absent E c wr t) (\<lambda>_ w'. find_dek_row c (w_db w') \<noteq> None \<and> keys_extend (w_db w) (w_db w'))
     (\<lambda>_ w'. keys_extend (w_db w) (w_db w')) w"
proof -
  let ?d = "e_interfere E (w_tick w) (w_db w)"
  have e1: "keys_extend (w_db w) ?d" using assms by (simp add: keys_grow_def)
  note ext = e1 keys_extend_trans [OF e1 insert_dek_extends [of ?d c wr t]]
  have "find_dek_row c (snd (insert_dek c wr t ?d)) \<noteq> None" by (simp add: find_insert_dek split: option.splits)
  with ext show ?thesis
    by (auto simp: insert_if_absent_def wp_simps Let_def split: prod.splits fault.splits)
qed

text \<open>The loop of the batch, with its counters generalised.\<close>

lemma pre_provision_loop_covers:
  fixes w :: "'z world_scheme"
  assumes "keys_grow E" and "keys_extend d0 (w_db w)"
  shows "wp (pre_provision_loop E K mount ids out)
     (\<lambda>out' w'. pp_created out' + pp_already_existed out' = pp_created out + pp_already_existed out + length ids
        \<and> (\<forall>c \<in> set ids. find_dek_row c (w_db w') \<noteq> None) \<and> keys_extend d0 (w_db w') \<and> keys_extend (w_db w) (w_db w'))
     (\<lambda>_ w'. keys_extend d0 (w_db w')) w"
  using assms(2)
proof (induction ids arbitrary: out w)
  case Nil
  then show ?case by (simp add: wp_simps)
next
  case (Cons c ids)
  define Q where "Q = (\<lambda>(out'' :: pre_provision_outcome) (w' :: 'z world_scheme). pp_created out'' + pp_already_existed out'' = pp_created out + pp_already_existed out + length (c # ids)
      \<and> (\<forall>x \<in> set (c # ids). find_dek_row x (w_db w') \<noteq> None) \<and> keys_extend d0 (w_db w') \<and> keys_extend (w_db w) (w_db w'))"
  have rest: "wp (pre_provision_loop E K mount ids out')
     Q
     (\<lambda>_ w'. keys_extend d0 (w_db w')) v"
    if "pp_created out' + pp_already_existed out' = pp_created out + pp_already_existed out + 1"
      and "find_dek_row c (w_db v) \<noteq> None" and "keys_extend (w_db w) (w_db v)"
    for out' and v :: "'z world_scheme"
    by (rule wp_mono [OF Cons.IH [OF keys_extend_trans [OF Cons.prems that(3)]]])
      (use that in \<open>auto simp: Q_def dest: keys_extend_covers intro: keys_extend_trans\<close>)
  have look: "wp (map_err DekDatabase (find_dek E c)) (\<lambda>r v. r = find_dek_row c (w_db v) \<and> keys_extend (w_db w) (w_db v))
      (\<lambda>_ w'. keys_extend d0 (w_db w')) w"
    by (rule wp_map_errI, rule wp_mono [OF wp_find_dek_grow [OF assms(1)]])
      (auto intro: keys_extend_trans [OF Cons.prems])
  have ins: "wp (map_err DekDatabase (insert_if_absent E c wr t))
      (\<lambda>_ v'. find_dek_row c (w_db v') \<noteq> None \<and> keys_extend (w_db w) (w_db v')) (\<lambda>_ w'. keys_extend d0 (w_db w')) v"
    if "keys_extend (w_db w) (w_db v)" for wr t and v :: "'z world_scheme"
    by (rule wp_map_errI, rule wp_mono [OF wp_insert_grow [OF assms(1)]])
      (use that Cons.prems in \<open>auto intro: keys_extend_trans\<close>)
  show ?case
    unfolding pre_provision_loop.simps Q_def [symmetric]
  proof (rule wp_bindI [OF look], elim conjE)
    fix r and v :: "'z world_scheme"
    assume r: "r = find_dek_row c (w_db v)" and ext: "keys_extend (w_db w) (w_db v)"
    show "wp (case r of Some _ \<Rightarrow> pre_provision_loop E K mount ids (out\<lparr>pp_already_existed := pp_already_existed out + 1\<rparr>)
       | None \<Rightarrow> bindE (map_err DekVault (create_dek K mount)) (\<lambda>dek. bindE (utc_now E) (\<lambda>now.
          bindE (map_err DekDatabase (insert_if_absent E c (snd dek) now)) (\<lambda>inserted.
          pre_provision_loop E K mount ids (if inserted then out\<lparr>pp_created := pp_created out + 1\<rparr>
           else out\<lparr>pp_already_existed := pp_already_existed out + 1\<rparr>)))))
      Q
      (\<lambda>_ w'. keys_extend d0 (w_db w')) v"
    proof (cases r)
      case None
      have mid: "wp (bindE (map_err DekDatabase (insert_if_absent E c (snd dek) now)) (\<lambda>inserted.
          pre_provision_loop E K mount ids (if inserted then out\<lparr>pp_created := pp_created out + 1\<rparr>
           else out\<lparr>pp_already_existed := pp_already_existed out + 1\<rparr>)))
        Q
        (\<lambda>_ w'. keys_extend d0 (w_db w')) v'" if "w_db v' = w_db v"
        for dek :: "bytes \<times> string" and now and v' :: "'z world_scheme"
        by (rule wp_bindI [OF ins]) (use that ext in \<open>auto intro!: rest\<close>)
      show ?thesis
        unfolding None option.case
        by (rule wp_bindI [where Q' = "\<lambda>_ v'. w_db v' = w_db v"])
          (use mid ext Cons.prems in \<open>auto simp: wp_simps(4) wp_create_dek wp_simps(3) [of "utc_now E"] wp_utc_now
             split: sum.splits intro: keys_extend_trans\<close>)
    qed (use r ext in \<open>auto intro!: rest\<close>)
  qed
qed

text \<open>The batch that provisions keys ahead of use leaves every requested customer with a key, accounts
  for each request once, as created or as already there, and never replaces a key.\<close>

theorem pre_provision_covers_all:
  assumes "keys_grow E"
  shows "wp (pre_provision_deks E K mount ids)
     (\<lambda>out w'. pp_created out + pp_already_existed out = length ids
        \<and> (\<forall>c \<in> set ids. find_dek_row c (w_db w') \<noteq> None) \<and> keys_extend (w_db w) (w_db w'))
     (\<lambda>_ w'. keys_extend (w_db w) (w_db w')) w"
  unfolding pre_provision_deks_def
  by (rule wp_mono [OF pre_provision_loop_covers [OF assms keys_extend_refl]]) auto

theorem pre_provision_covers_all_witness:
  "wp (pre_provision_deks (quiet_env 0) sample_keystore ''mount'' [20, 21, 20])
     (\<lambda>out w'. pp_created out + pp_already_existed out = length [20, 21, 20 :: uuid]
        \<and> (\<forall>c \<in> set [20, 21, 20]. find_dek_row c (w_db w') \<noteq> None) \<and> keys_extend (w_db cold_world) (w_db w'))
     (\<lambda>_ w'. keys_extend (w_db cold_world) (w_db w')) cold_world"
  by (rule pre_provision_covers_all) simp

end
