(* ===== verification/Worker.thy ===== *)
theory Worker
  imports Outbox QuietHours Quota Dek
begin

text \<open>
  The dispatcher's worker (\<open>dispatcher/worker.rs\<close>) and the sender it calls (\<open>sender/mod.rs\<close>): the
  gates a claimed row passes in order, the decryption and the provider call, what is
  written for each outcome, and one turn of a channel's claim loop.

  The provider behind \<open>Sender::send\<close> is a parameter: a function from the number of the
  interaction, the destination and the body to its answer.  The state keeps a log \<open>w_sent\<close> of
  the calls made to it, with the row each was made for; the code has no such log, and
  nothing in the model reads it.
\<close>

section \<open>The sender\<close>

record send_outcome =
  so_provider_ref :: string
  so_provider_status :: string

text \<open>A provider's rejection carries its HTTP status, a \<open>u16\<close>.\<close>

datatype sender_error = SendHttp | SendProvider "16 word" string

fun is_retryable :: "sender_error \<Rightarrow> bool" where
  "is_retryable SendHttp = True"
| "is_retryable (SendProvider status body) = (500 \<le> status)"

type_synonym sender = "nat \<Rightarrow> string \<Rightarrow> string \<Rightarrow> sender_error + send_outcome"

section \<open>The worker's state\<close>

record 'c dispatcher_world = "'c key_world" +
  w_quota :: quota_tracker
  w_switches :: active_set
  w_draining :: "(uuid \<times> kill_switch) list"
  w_sent :: "(outbox_row \<times> string \<times> string) list"

record 'c dispatcher_context =
  dc_lru :: "'c lru"
  dc_keystore :: keystore
  dc_crypto :: crypto
  dc_mount :: string
  dc_sender :: sender
  dc_verification_mode :: string
  dc_default_timezone :: string
  dc_quiet_hours_policy :: "quiet_hours_policy option"
  dc_uuid :: uuid_parser
  dc_zones :: zone_parser

abbreviation (input) ENFORCE :: string where "ENFORCE \<equiv> ''enforce''"
abbreviation (input) CLAIM_BATCH_SIZE :: nat where "CLAIM_BATCH_SIZE \<equiv> 20"
abbreviation (input) LEASE_DURATION :: int where "LEASE_DURATION \<equiv> mins 2"
abbreviation (input) MAX_SEND_ATTEMPTS :: int where "MAX_SEND_ATTEMPTS \<equiv> 8"
abbreviation (input) BACKOFF_BASE_MS :: int where "BACKOFF_BASE_MS \<equiv> 30000"
abbreviation (input) BACKOFF_MULTIPLIER :: int where "BACKOFF_MULTIPLIER \<equiv> 2"
abbreviation (input) BACKOFF_CAP_MS :: int where "BACKOFF_CAP_MS \<equiv> 1800000"

definition claim_exclusion :: "uuid_parser \<Rightarrow> string \<Rightarrow> ('c, 'z) dispatcher_world_scheme \<Rightarrow> channel_exclusion" where
  "claim_exclusion pu channel w =
     exclusion_for_channel pu (active_snapshot (w_switches w) @ map snd (w_draining w)) channel"

datatype dispatch_error =
    DispatchDatabase sqlx_error
  | DispatchDek dek_error
  | DispatchEncryption encryption_error
  | InvalidUtf8
  | MissingRequest uuid
  | MissingPayload uuid

text \<open>\<open>i64\<close> saturation; the exponent is an \<open>i16\<close> cast to \<open>u32\<close>.\<close>

definition sat_i64 :: "int \<Rightarrow> int" where
  "sat_i64 x = max (- (2 ^ 63)) (min x (2 ^ 63 - 1))"

definition backoff_ms :: "int \<Rightarrow> int" where
  "backoff_ms attempts =
    (let exponent = nat (min (max (- 32768) (attempts - 1)) 6 mod 2 ^ 32) in
     min (sat_i64 (BACKOFF_BASE_MS * sat_i64 (BACKOFF_MULTIPLIER ^ exponent))) BACKOFF_CAP_MS)"

definition backoff_delay :: "env \<Rightarrow> int \<Rightarrow> ('z world_scheme, 'e, int) io" where
  "backoff_delay E attempts =
     bindE (random_upto E (max (backoff_ms attempts div 2) 1)) (\<lambda>jitter_ms.
       ret (millis (backoff_ms attempts + jitter_ms)))"

text \<open>\<open>u16::to_string\<close>.\<close>

fun to_decimal :: "nat \<Rightarrow> string" where
  "to_decimal n = (if n < 10 then [char_of (48 + n)] else to_decimal (n div 10) @ [char_of (48 + n mod 10)])"

declare to_decimal.simps [simp del]

fun provider_status_of :: "sender_error \<Rightarrow> string option" where
  "provider_status_of (SendProvider status body) = Some (to_decimal (unat status))"
| "provider_status_of SendHttp = None"

section \<open>The gates\<close>

text \<open>Each gate returns whether it disposed of the row, the early return of \<open>try_process\<close>.\<close>

definition finish_row :: "env \<Rightarrow> outbox_row \<Rightarrow> string \<Rightarrow> string option \<Rightarrow> string option
    \<Rightarrow> ('z world_scheme, dispatch_error, unit) io" where
  "finish_row E row status provider_ref provider_status =
     map_err DispatchDatabase (write_terminal E (ob_created_at row) (ob_comms_request_id row)
       (ob_customer_id row) status provider_ref provider_status status)"

definition put_off :: "env \<Rightarrow> outbox_row \<Rightarrow> timestamp \<Rightarrow> ('z world_scheme, dispatch_error, unit) io" where
  "put_off E row next_attempt_at =
     map_err DispatchDatabase (reschedule_retry E (ob_comms_request_id row) next_attempt_at)"

definition expiry_gate :: "env \<Rightarrow> outbox_row \<Rightarrow> ('z world_scheme, dispatch_error, bool) io" where
  "expiry_gate E row =
     (case ob_expires_at row of
        None \<Rightarrow> ret False
      | Some expires_at \<Rightarrow> bindE (utc_now E) (\<lambda>now.
          if expires_at \<le> now then thenE (finish_row E row ''expired'' None None) (ret True)
          else ret False))"

definition suppression_gate :: "env \<Rightarrow> outbox_row \<Rightarrow> ('z world_scheme, dispatch_error, bool) io" where
  "suppression_gate E row =
     bindE (map_err DispatchDatabase (is_suppressed E (ob_created_at row) (ob_comms_request_id row))) (\<lambda>s.
       if s then thenE (finish_row E row ''suppressed_list'' None None) (ret True) else ret False)"

definition verification_gate :: "env \<Rightarrow> string \<Rightarrow> outbox_row \<Rightarrow> ('z world_scheme, dispatch_error, bool) io" where
  "verification_gate E mode row =
     (if ob_class row \<in> {TRANSACTIONAL, MARKETING} then
        bindE (map_err DispatchDatabase (load_verified_at E (ob_address_id row))) (\<lambda>v.
        if v = None then
          if mode = ENFORCE then thenE (finish_row E row ''unverified_address'' None None) (ret True)
          else thenE (map_err DispatchDatabase (record_event E (ob_comms_request_id row)
                   (ob_customer_id row) ''unverified_address'')) (ret False)
        else ret False)
      else ret False)"

definition consent_gate :: "env \<Rightarrow> outbox_row \<Rightarrow> ('z world_scheme, dispatch_error, bool) io" where
  "consent_gate E row =
     (if ob_class row = MARKETING then
        bindE (map_err DispatchDatabase (is_consented E (ob_address_id row) (ob_class row))) (\<lambda>c.
          if \<not> c then thenE (finish_row E row ''suppressed_consent'' None None) (ret True) else ret False)
      else ret False)"

definition quota_check :: "env \<Rightarrow> outbox_row \<Rightarrow> (('c, 'z) dispatcher_world_scheme, 'e, quota_decision) io" where
  "quota_check E row =
     bindE (utc_now E) (\<lambda>now.
     bindE (gets w_quota) (\<lambda>q.
       let (decision, q') = check_and_record q (ob_producer_id row) (ob_channel row) (ob_class row) now in
       thenE (modifyE (\<lambda>w. w\<lparr>w_quota := q'\<rparr>)) (ret decision)))"

definition quota_gate :: "env \<Rightarrow> outbox_row \<Rightarrow> (('c, 'z) dispatcher_world_scheme, dispatch_error, bool) io" where
  "quota_gate E row =
     bindE (quota_check E row) (\<lambda>decision. case decision of
       Admit \<Rightarrow> ret False
     | SoftBreach \<Rightarrow> ret False
     | Defer next_attempt_at \<Rightarrow> thenE (put_off E row next_attempt_at) (ret True))"

definition quiet_hours_gate :: "env \<Rightarrow> 'c dispatcher_context \<Rightarrow> outbox_row
    \<Rightarrow> ('z world_scheme, dispatch_error, bool) io" where
  "quiet_hours_gate E cx row =
     (case dc_quiet_hours_policy cx of
        None \<Rightarrow> ret False
      | Some policy \<Rightarrow>
         bindE (map_err DispatchDatabase (load_customer_timezone E (ob_customer_id row))) (\<lambda>tz.
         let customer_tz = (case tz of None \<Rightarrow> dc_default_timezone cx | Some z \<Rightarrow> z) in
         bindE (utc_now E) (\<lambda>now.
         bindE (resolve_reschedule E (dc_zones cx) now customer_tz (dc_default_timezone cx) policy) (\<lambda>r.
         case r of
           None \<Rightarrow> ret False
         | Some next_attempt_at \<Rightarrow> thenE (put_off E row next_attempt_at) (ret True)))))"

section \<open>Delivery\<close>

definition provider_send :: "sender \<Rightarrow> outbox_row \<Rightarrow> string \<Rightarrow> string
    \<Rightarrow> (('c, 'z) dispatcher_world_scheme, 'e, sender_error + send_outcome) io" where
  "provider_send send row destination body w =
     (Inr (send (w_tick w) destination body),
      w\<lparr>w_tick := Suc (w_tick w), w_sent := w_sent w @ [(row, destination, body)]\<rparr>)"

definition open_text :: "crypto \<Rightarrow> bytes \<Rightarrow> bytes \<Rightarrow> bytes \<Rightarrow> dispatch_error + string" where
  "open_text C dek aad blob =
     (case decrypt C dek aad blob of
        Inl e \<Rightarrow> Inl (DispatchEncryption e)
      | Inr plaintext \<Rightarrow> ok_or InvalidUtf8 (from_utf8 plaintext))"

definition send_and_record :: "env \<Rightarrow> sender \<Rightarrow> outbox_row \<Rightarrow> string \<Rightarrow> string
    \<Rightarrow> (('c, 'z) dispatcher_world_scheme, dispatch_error, unit) io" where
  "send_and_record E send row destination body =
     bindE (provider_send send row destination body) (\<lambda>r. case r of
       Inr outcome \<Rightarrow> finish_row E row ''sent'' (Some (so_provider_ref outcome)) (Some (so_provider_status outcome))
     | Inl err \<Rightarrow>
         if is_retryable err \<and> ob_attempts row < MAX_SEND_ATTEMPTS then
           bindE (utc_now E) (\<lambda>now. bindE (backoff_delay E (ob_attempts row)) (\<lambda>delay.
             put_off E row (now + delay)))
         else finish_row E row ''failed'' None (provider_status_of err))"

definition deliver :: "env \<Rightarrow> 'c dispatcher_context \<Rightarrow> outbox_row
    \<Rightarrow> (('c, 'z) dispatcher_world_scheme, dispatch_error, unit) io" where
  "deliver E cx row =
     bindE (map_err DispatchDatabase (load_ciphertexts E (ob_created_at row) (ob_comms_request_id row))) (\<lambda>found.
     bindE (of_result (ok_or (MissingRequest (ob_comms_request_id row)) found)) (\<lambda>ciphertexts.
     bindE (map_err DispatchDek
        (get_or_create_dek (dc_lru cx) E (dc_keystore cx) (dc_mount cx) (ob_customer_id row))) (\<lambda>dek.
     let aad = cy_uuid_bytes (dc_crypto cx) (ob_comms_request_id row) in
     bindE (of_result (open_text (dc_crypto cx) dek aad (rc_destination_ciphertext ciphertexts))) (\<lambda>destination.
     bindE (of_result (ok_or (MissingPayload (ob_comms_request_id row)) (rc_payload_ciphertext ciphertexts)))
       (\<lambda>payload_ciphertext.
     bindE (of_result (open_text (dc_crypto cx) dek aad payload_ciphertext)) (\<lambda>body.
     bindE (map_err DispatchDatabase (is_cancelled E (ob_comms_request_id row))) (\<lambda>cancelled.
     if cancelled then finish_row E row ''cancelled'' None None
     else send_and_record E (dc_sender cx) row destination body)))))))"

definition gate :: "('s, 'e, bool) io \<Rightarrow> ('s, 'e, unit) io \<Rightarrow> ('s, 'e, unit) io" where
  "gate g rest = bindE g (\<lambda>disposed. if disposed then ret () else rest)"

definition try_process :: "env \<Rightarrow> 'c dispatcher_context \<Rightarrow> outbox_row
    \<Rightarrow> (('c, 'z) dispatcher_world_scheme, dispatch_error, unit) io" where
  "try_process E cx row =
     gate (expiry_gate E row) (
     gate (suppression_gate E row) (
     gate (verification_gate E (dc_verification_mode cx) row) (
     gate (consent_gate E row) (
     gate (quota_gate E row) (
     gate (quiet_hours_gate E cx row) (
     deliver E cx row))))))"

text \<open>A row's failure is logged and goes no further.\<close>

definition process_one :: "env \<Rightarrow> 'c dispatcher_context \<Rightarrow> outbox_row
    \<Rightarrow> (('c, 'z) dispatcher_world_scheme, 'e, unit) io" where
  "process_one E cx row = bindE (attempt (try_process E cx row)) (\<lambda>_. ret ())"

section \<open>The claim loop\<close>

text \<open>A failed claim is retried for as long as it fails; \<open>None\<close> is a retry still going on when the
  fuel is spent.\<close>

fun claim_retrying :: "nat \<Rightarrow> env \<Rightarrow> string \<Rightarrow> timestamp \<Rightarrow> channel_exclusion
    \<Rightarrow> ('z world_scheme, 'e, outbox_row list option) io" where
  "claim_retrying 0 E channel leased_until x = ret None"
| "claim_retrying (Suc fuel) E channel leased_until x =
     bindE (attempt (claim E channel CLAIM_BATCH_SIZE leased_until x)) (\<lambda>r. case r of
       Inr rows \<Rightarrow> ret (Some rows)
     | Inl _ \<Rightarrow> claim_retrying fuel E channel leased_until x)"

text \<open>One turn of \<open>run_channel_loop\<close>; the value is whether the claim came back, and an empty one
  waits for the next notification or poll.\<close>

definition channel_turn :: "nat \<Rightarrow> env \<Rightarrow> 'c dispatcher_context \<Rightarrow> string
    \<Rightarrow> (('c, 'z) dispatcher_world_scheme, 'e, bool) io" where
  "channel_turn fuel E cx channel =
     bindE (utc_now E) (\<lambda>now.
     bindE (gets (claim_exclusion (dc_uuid cx) channel)) (\<lambda>exclusion.
     bindE (claim_retrying fuel E channel (now + LEASE_DURATION) exclusion) (\<lambda>claimed. case claimed of
       None \<Rightarrow> ret False
     | Some rows \<Rightarrow> thenE (for_each (process_one E cx) rows) (ret True))))"

fun run_channel_loop :: "nat \<Rightarrow> nat \<Rightarrow> env \<Rightarrow> 'c dispatcher_context \<Rightarrow> string
    \<Rightarrow> (('c, 'z) dispatcher_world_scheme, 'e, unit) io" where
  "run_channel_loop fuel 0 E cx channel = ret ()"
| "run_channel_loop fuel (Suc turns) E cx channel =
     thenE (channel_turn fuel E cx channel) (run_channel_loop fuel turns E cx channel)"

section \<open>What the gates leave alone\<close>

text \<open>A part \<open>g\<close> of the state that statements and the quota check do not touch has the same value
  after every gate.  Two parts matter: the log, to which only \<open>provider_send\<close> adds, and the key
  cache.\<close>

definition untouched :: "(('c, 'z) dispatcher_world_scheme \<Rightarrow> 'x) \<Rightarrow> bool" where
  "untouched g \<longleftrightarrow> (\<forall>w n d. g (w\<lparr>w_tick := n, w_db := d\<rparr>) = g w) \<and> (\<forall>w n. g (w\<lparr>w_tick := n\<rparr>) = g w)
     \<and> (\<forall>w q. g (w\<lparr>w_quota := q\<rparr>) = g w)"

definition same :: "('s \<Rightarrow> 'x) \<Rightarrow> 'x \<Rightarrow> 's \<Rightarrow> bool" where
  "same g x w \<longleftrightarrow> g w = x"

abbreviation sent_is :: "(outbox_row \<times> string \<times> string) list \<Rightarrow> ('c, 'z) dispatcher_world_scheme \<Rightarrow> bool" where
  "sent_is \<equiv> same w_sent"

lemma untouched_parts [keeps_intros]: "untouched w_sent" "untouched w_keys"
  by (simp_all add: untouched_def)

lemma untouchedD: "untouched g \<Longrightarrow> g (w\<lparr>w_tick := n, w_db := d\<rparr>) = g w" "untouched g \<Longrightarrow> g (w\<lparr>w_tick := n\<rparr>) = g w"
  "untouched g \<Longrightarrow> g (w\<lparr>w_quota := q\<rparr>) = g w"
  by (simp_all add: untouched_def)

lemma same_prims [keeps_intros]:
  assumes "untouched g"
  shows "keeps (same g x) (stmt E f)" "keeps (same g x) (query E f')" "keeps (same g x) (exec E h)"
    "keeps (same g x) (utc_now E)" "keeps (same g x) (random_upto E n)"
    "keeps (same g x) (modifyE (\<lambda>w. w\<lparr>w_quota := q\<rparr>))"
  by (rule wp_keeps; auto simp: same_def wp_simps Let_def untouchedD [OF assms] split: sum.splits fault.splits)+

lemma sent_is_dek_prims [keeps_intros]:
  "keeps (sent_is l) (cache_get L E k)" "keeps (sent_is l) (cache_put L E k p)"
  "keeps (sent_is l) (create_dek K m)" "keeps (sent_is l) (unwrap_dek K m x)"
  by (rule wp_keeps; auto simp: same_def wp_simps Let_def split: sum.splits prod.splits)+

lemma keeps_Let_prod [keeps_intros]:
  "(\<And>a b. x = (a, b) \<Longrightarrow> keeps P (f a b)) \<Longrightarrow> keeps P (let (a, b) = x in f a b)"
  by (simp split: prod.splits)

lemma same_statements [keeps_intros]:
  assumes "untouched g"
  shows "keeps (same g x) (write_terminal E cre i cust ev pr ps fs)" "keeps (same g x) (reschedule_retry E i t)"
    "keeps (same g x) (record_event E i cust ev)" "keeps (same g x) (is_cancelled E i)"
    "keeps (same g x) (is_suppressed E cre i)" "keeps (same g x) (is_consented E a cl)"
    "keeps (same g x) (load_verified_at E a)" "keeps (same g x) (load_customer_timezone E c)"
    "keeps (same g x) (load_ciphertexts E cre i)"
  unfolding write_terminal_def reschedule_retry_def record_event_def is_cancelled_def is_suppressed_def
    is_consented_def load_verified_at_def load_customer_timezone_def load_ciphertexts_def
  by (intro keeps_intros assms)+

lemma sent_is_dek [keeps_intros]: "keeps (sent_is l) (get_or_create_dek L E K m c)"
  unfolding get_or_create_dek_def find_dek_def insert_if_absent_def by (intro keeps_intros)

lemma same_reschedule [keeps_intros]: "untouched g \<Longrightarrow> keeps (same g x) (resolve_reschedule E pz now tz dtz p)"
  unfolding resolve_reschedule_def Let_def by (intro keeps_intros)

lemma same_writes [keeps_intros]:
  assumes "untouched g"
  shows "keeps (same g x) (finish_row E row st pr ps)" "keeps (same g x) (put_off E row t)"
    "keeps (same g x) (backoff_delay E a)" "keeps (same g x) (quota_check E row)"
  unfolding finish_row_def put_off_def backoff_delay_def quota_check_def by (intro keeps_intros assms)+

lemma keeps_case_decision [keeps_intros]:
  "keeps P m \<Longrightarrow> keeps P m' \<Longrightarrow> (\<And>t. keeps P (f t)) \<Longrightarrow>
   keeps P (case x of Admit \<Rightarrow> m | SoftBreach \<Rightarrow> m' | Defer t \<Rightarrow> f t)"
  by (simp split: quota_decision.splits)

lemma same_gates [keeps_intros]:
  assumes "untouched g"
  shows "keeps (same g x) (expiry_gate E row)" "keeps (same g x) (suppression_gate E row)"
    "keeps (same g x) (verification_gate E mode row)" "keeps (same g x) (consent_gate E row)"
    "keeps (same g x) (quota_gate E row)" "keeps (same g x) (quiet_hours_gate E cx row)"
  unfolding expiry_gate_def suppression_gate_def verification_gate_def consent_gate_def quota_gate_def
    quiet_hours_gate_def Let_def
  by (intro keeps_intros assms)+

text \<open>A property of the database that survives everything the worker writes for a row.\<close>

definition tolerates :: "outbox_row \<Rightarrow> (tenant_db \<Rightarrow> bool) \<Rightarrow> bool" where
  "tolerates row P \<longleftrightarrow> (\<forall>d. P d \<longrightarrow>
     (\<forall>now st pr ps. P (finalized now (ob_created_at row) (ob_comms_request_id row) (ob_customer_id row) st pr ps st d))
   \<and> (\<forall>t. P (rescheduled (ob_comms_request_id row) t d))
   \<and> (\<forall>now ev. P (add_event (internal_event (ob_comms_request_id row) (ob_customer_id row) now ev None None) d))
   \<and> (\<forall>c wr t. P (snd (insert_dek c wr t d))))"

lemma keeps_conj: "keeps P m \<Longrightarrow> keeps Q m \<Longrightarrow> keeps (\<lambda>s. P s \<and> Q s) m"
  by (simp add: keeps_def)

lemma keeps_worker_misc [keeps_intros]:
  "keeps (db_inv P) (modifyE (\<lambda>w. w\<lparr>w_quota := q\<rparr>))" "keeps (db_inv P) (provider_send send row dst body)"
  by (rule wp_keeps; simp add: db_inv_def wp_def modifyE_def provider_send_def)+

lemma keeps_resolve_reschedule [keeps_intros]: "keeps (db_inv P) (resolve_reschedule E pz now tz dtz p)"
  unfolding resolve_reschedule_def Let_def by (intro keeps_intros)

lemma keeps_gate [keeps_intros]: "keeps P g \<Longrightarrow> keeps P rest \<Longrightarrow> keeps P (gate g rest)"
  unfolding gate_def by (intro keeps_intros)

lemma keeps_row_writes [keeps_intros]:
  assumes "db_stable E P" and "tolerates row P"
  shows "keeps (db_inv P) (finish_row E row st pr ps)" "keeps (db_inv P) (put_off E row t)"
    "keeps (db_inv P) (record_event E (ob_comms_request_id row) (ob_customer_id row) ev)"
  unfolding finish_row_def put_off_def
  by (intro keeps_intros assms(1), use assms(2) in \<open>simp add: tolerates_def\<close>)+

lemma keeps_gates [keeps_intros]:
  assumes "db_stable E P" and "tolerates row P"
  shows "keeps (db_inv P) (expiry_gate E row)" "keeps (db_inv P) (suppression_gate E row)"
    "keeps (db_inv P) (verification_gate E mode row)" "keeps (db_inv P) (consent_gate E row)"
    "keeps (db_inv P) (quota_gate E row)" "keeps (db_inv P) (quiet_hours_gate E cx row)"
  unfolding expiry_gate_def suppression_gate_def verification_gate_def consent_gate_def quota_gate_def
    quota_check_def quiet_hours_gate_def Let_def [where s = "case_option _ _ _"]
  by (intro keeps_row_writes [OF assms] keeps_intros assms(1))+

lemma keeps_worker_dek:
  assumes "db_stable E P" and "tolerates row P"
  shows "keeps (db_inv P) (get_or_create_dek L E K mount c)"
  using assms by (intro keeps_get_or_create_dek) (auto simp: tolerates_def)

lemma keeps_try_process [keeps_intros]:
  assumes "db_stable E P" and "tolerates row P"
  shows "keeps (db_inv P) (try_process E cx row)"
  unfolding try_process_def deliver_def send_and_record_def backoff_delay_def Let_def
  by (intro keeps_row_writes [OF assms] keeps_worker_dek [OF assms] keeps_gates [OF assms] keeps_intros assms(1))

lemma keeps_process_one [keeps_intros]:
  assumes "db_stable E P" and "tolerates row P"
  shows "keeps (db_inv P) (process_one E cx row)"
  unfolding process_one_def by (intro keeps_intros assms)

section \<open>Rows that must not be sent\<close>

definition expired_for_good :: "env \<Rightarrow> outbox_row \<Rightarrow> tenant_db \<Rightarrow> bool" where
  "expired_for_good E row d \<longleftrightarrow> (\<exists>t. ob_expires_at row = Some t \<and> (\<forall>n. t \<le> e_clock E n))"

definition suppressed_for_good :: "env \<Rightarrow> outbox_row \<Rightarrow> tenant_db \<Rightarrow> bool" where
  "suppressed_for_good E row d \<longleftrightarrow> (\<forall>n. suppressed (e_clock E n) (ob_created_at row) (ob_comms_request_id row) d)"

definition unverified :: "string \<Rightarrow> outbox_row \<Rightarrow> tenant_db \<Rightarrow> bool" where
  "unverified mode row d \<longleftrightarrow> mode = ENFORCE \<and> ob_class row \<in> {TRANSACTIONAL, MARKETING}
     \<and> verified_at (ob_address_id row) d = None"

definition opted_out :: "outbox_row \<Rightarrow> tenant_db \<Rightarrow> bool" where
  "opted_out row d \<longleftrightarrow> ob_class row = MARKETING \<and> \<not> consented (ob_address_id row) MARKETING d"

definition called_off :: "outbox_row \<Rightarrow> tenant_db \<Rightarrow> bool" where
  "called_off row d \<longleftrightarrow> (case find_outbox (ob_comms_request_id row) d of
     None \<Rightarrow> True | Some r \<Rightarrow> ob_cancelled_at r \<noteq> None)"

definition must_not_send :: "env \<Rightarrow> string \<Rightarrow> outbox_row \<Rightarrow> (tenant_db \<Rightarrow> bool) set" where
  "must_not_send E mode row = {expired_for_good E row, suppressed_for_good E row, unverified mode row,
     opted_out row, called_off row}"

text \<open>The columns the gates read; none of the worker's writes changes them.\<close>

lemma row_writes_frame [simp]:
  "t_customer_address (finalized now cre i cust ev pr ps fs d) = t_customer_address d"
  "t_consent (finalized now cre i cust ev pr ps fs d) = t_consent d"
  "t_suppression (finalized now cre i cust ev pr ps fs d) = t_suppression d"
  "t_customer_address (rescheduled i t d) = t_customer_address d" "t_consent (rescheduled i t d) = t_consent d"
  "t_suppression (rescheduled i t d) = t_suppression d" "t_comms_request (rescheduled i t d) = t_comms_request d"
  "t_customer_address (add_event e d) = t_customer_address d" "t_consent (add_event e d) = t_consent d"
  "t_suppression (add_event e d) = t_suppression d" "t_comms_request (add_event e d) = t_comms_request d"
  "t_outbox (add_event e d) = t_outbox d"
  "t_customer_address (snd (insert_dek c wr t d)) = t_customer_address d"
  "t_consent (snd (insert_dek c wr t d)) = t_consent d"
  "t_suppression (snd (insert_dek c wr t d)) = t_suppression d"
  "t_comms_request (snd (insert_dek c wr t d)) = t_comms_request d"
  "t_outbox (snd (insert_dek c wr t d)) = t_outbox d"
  by (simp_all add: finalized_def Let_def rescheduled_def add_event_def insert_dek_def)

lemma suppressed_finalized:
  "suppressed now created_at i d \<Longrightarrow> suppressed now created_at i (finalized n' cre j cust ev pr ps fs d)"
proof -
  let ?g = "\<lambda>r. if cr_created_at r = cre \<and> cr_id r = j
      then r\<lparr>cr_final_status := Some fs, cr_finalized_at := Some n'\<rparr> else r"
  assume "suppressed now created_at i d"
  then obtain cr s where *: "cr \<in> set (t_comms_request d)" "s \<in> set (t_suppression d)"
      "su_destination_hmac s = cr_destination_hmac cr" "cr_created_at cr = created_at" "cr_id cr = i" "now < su_review_at s"
    unfolding suppressed_def by blast
  have "?g cr \<in> set (t_comms_request (finalized n' cre j cust ev pr ps fs d))"
    using *(1) unfolding finalized_def Let_def by (simp add: set_upd_where)
  moreover have "cr_destination_hmac (?g cr) = cr_destination_hmac cr" "cr_created_at (?g cr) = cr_created_at cr"
      "cr_id (?g cr) = cr_id cr" by simp_all
  ultimately show ?thesis
    unfolding suppressed_def row_writes_frame using *(2-6) by (intro bexI [of _ "?g cr"] bexI [of _ s]) simp_all
qed

lemma called_off_rescheduled:
  "called_off row d \<Longrightarrow> called_off row (rescheduled (ob_comms_request_id row) t d)"
  by (auto simp: called_off_def find_outbox_def rescheduled_def find_row_upd_where_other split: option.splits)

lemma called_off_finalized: "called_off row (finalized now cre (ob_comms_request_id row) cust ev pr ps fs d)"
  using finalized_effect [of now cre "ob_comms_request_id row" ev fs d cust pr ps]
  by (simp add: called_off_def terminal_effect_def)

lemma tolerates_must_not_send:
  assumes "B \<in> must_not_send E mode row"
  shows "tolerates row B"
proof -
  have "tolerates row (expired_for_good E row)" by (simp add: tolerates_def expired_for_good_def)
  moreover have "tolerates row (suppressed_for_good E row)"
    unfolding tolerates_def suppressed_for_good_def
    by (simp add: suppressed_finalized) (simp add: suppressed_def)
  moreover have "tolerates row (unverified mode row)"
    by (simp add: tolerates_def unverified_def verified_at_def)
  moreover have "tolerates row (opted_out row)"
    by (simp add: tolerates_def opted_out_def consented_def)
  moreover have "tolerates row (called_off row)"
    unfolding tolerates_def
    by (simp add: called_off_rescheduled called_off_finalized) (simp add: called_off_def find_outbox_def)
  ultimately show ?thesis using assms by (auto simp: must_not_send_def)
qed

lemma gate_blocks:
  "wp g (\<lambda>disposed w'. disposed \<and> P w') (\<lambda>_. P) w \<Longrightarrow> wp (gate g rest) (\<lambda>_. P) (\<lambda>_. P) w"
  unfolding gate_def by (erule wp_bindI) (auto simp: wp_simps)

lemma gate_passes:
  assumes "keeps I g" and "I w" and "\<And>v. I v \<Longrightarrow> P v" and "\<And>v. I v \<Longrightarrow> wp rest (\<lambda>_. P) (\<lambda>_. P) v"
  shows "wp (gate g rest) (\<lambda>_. P) (\<lambda>_. P) w"
proof -
  have "wp g (\<lambda>_. I) (\<lambda>_. P) w" using keeps_wp [OF assms(1,2)] by (rule wp_mono) (auto intro: assms(3))
  then show ?thesis unfolding gate_def by (rule wp_bindI) (use assms(3,4) in \<open>auto simp: wp_simps\<close>)
qed

lemma finish_disposes:
  "sent_is l w \<Longrightarrow> wp (thenE (finish_row E row st pr ps) (ret True)) (\<lambda>disposed w'. disposed \<and> sent_is l w') (\<lambda>_. sent_is l) w"
  by (rule wp_bindI [OF keeps_wp [OF same_writes(1) [OF untouched_parts(1)]]]) (auto simp: wp_simps)

lemma sent_is_upd [simp]:
  "sent_is l (w\<lparr>w_tick := n\<rparr>) = sent_is l w" "sent_is l (w\<lparr>w_tick := n, w_db := d\<rparr>) = sent_is l w"
  by (simp_all add: same_def)

lemma blocking_gates:
  assumes "sent_is l w"
  shows "expired_for_good E row (w_db w) \<Longrightarrow>
      wp (expiry_gate E row) (\<lambda>disposed w'. disposed \<and> sent_is l w') (\<lambda>_. sent_is l) w"
    and "db_stable E (suppressed_for_good E row) \<Longrightarrow> suppressed_for_good E row (w_db w) \<Longrightarrow>
      wp (suppression_gate E row) (\<lambda>disposed w'. disposed \<and> sent_is l w') (\<lambda>_. sent_is l) w"
    and "db_stable E (unverified mode row) \<Longrightarrow> unverified mode row (w_db w) \<Longrightarrow>
      wp (verification_gate E mode row) (\<lambda>disposed w'. disposed \<and> sent_is l w') (\<lambda>_. sent_is l) w"
    and "db_stable E (opted_out row) \<Longrightarrow> opted_out row (w_db w) \<Longrightarrow>
      wp (consent_gate E row) (\<lambda>disposed w'. disposed \<and> sent_is l w') (\<lambda>_. sent_is l) w"
proof -
  show "wp (expiry_gate E row) (\<lambda>disposed w'. disposed \<and> sent_is l w') (\<lambda>_. sent_is l) w"
    if "expired_for_good E row (w_db w)"
    using that assms unfolding expired_for_good_def expiry_gate_def
    by (auto simp: wp_utc_now wp_bindE [of "utc_now E"] intro!: finish_disposes)
  show "wp (suppression_gate E row) (\<lambda>disposed w'. disposed \<and> sent_is l w') (\<lambda>_. sent_is l) w"
    if "db_stable E (suppressed_for_good E row)" "suppressed_for_good E row (w_db w)"
    using stableD [OF that] assms unfolding suppression_gate_def is_suppressed_def
    by (auto simp: wp_query wp_map_err wp_bindE [of "map_err _ _"] Let_def suppressed_for_good_def intro!: finish_disposes)
  show "wp (verification_gate E mode row) (\<lambda>disposed w'. disposed \<and> sent_is l w') (\<lambda>_. sent_is l) w"
    if "db_stable E (unverified mode row)" "unverified mode row (w_db w)"
    using stableD [OF that] assms unfolding verification_gate_def load_verified_at_def
    by (auto simp: wp_query wp_map_err wp_bindE [of "map_err _ _"] Let_def unverified_def intro!: finish_disposes)
  show "wp (consent_gate E row) (\<lambda>disposed w'. disposed \<and> sent_is l w') (\<lambda>_. sent_is l) w"
    if "db_stable E (opted_out row)" "opted_out row (w_db w)"
    using stableD [OF that] assms unfolding consent_gate_def is_consented_def
    by (auto simp: wp_query wp_map_err wp_bindE [of "map_err _ _"] Let_def opted_out_def intro!: finish_disposes)
qed

text \<open>The last check before the provider: a row that is called off gets no further.\<close>

lemma cancellation_blocks:
  fixes w :: "('c, 'z) dispatcher_world_scheme"
  assumes "db_stable E (called_off row)" and "called_off row (w_db w)" and "sent_is l w"
  shows "wp (deliver E cx row) (\<lambda>_. sent_is l) (\<lambda>_. sent_is l) w"
proof -
  let ?I = "\<lambda>v :: ('c, 'z) dispatcher_world_scheme. sent_is l v \<and> db_inv (called_off row) v"
  have tol: "tolerates row (called_off row)"
    by (rule tolerates_must_not_send [of _ undefined undefined]) (simp add: must_not_send_def)
  have I: "?I w" using assms(2,3) by (simp add: db_inv_def)
  have keep: "wp (map_err f m) (\<lambda>_. ?I) (\<lambda>_. sent_is l) v"
    if "keeps (sent_is l) m" "keeps (db_inv (called_off row)) m" "?I v" for f m v
    using keeps_wp [OF keeps_conj [OF that(1,2)] that(3)] by (auto simp: wp_map_err elim: wp_mono)
  have last: "wp (bindE (map_err DispatchDatabase (is_cancelled E (ob_comms_request_id row))) (\<lambda>cancelled.
      if cancelled then finish_row E row ''cancelled'' None None else m)) (\<lambda>_. sent_is l) (\<lambda>_. sent_is l) v"
    if v: "?I v" for m v
  proof (rule wp_bindI)
    have "called_off row (e_interfere E (w_tick v) (w_db v))"
      using stableD [OF assms(1)] v by (simp add: db_inv_def)
    then show "wp (map_err DispatchDatabase (is_cancelled E (ob_comms_request_id row)))
        (\<lambda>c v'. c \<and> sent_is l v') (\<lambda>_. sent_is l) v"
      using v by (auto simp: is_cancelled_def wp_map_err wp_stmt Let_def called_off_def split: option.splits fault.splits)
    fix c and v' :: "('c, 'z) dispatcher_world_scheme" assume "c \<and> sent_is l v'"
    then show "wp (if c then finish_row E row ''cancelled'' None None else m) (\<lambda>_. sent_is l) (\<lambda>_. sent_is l) v'"
      by (simp add: keeps_wp [OF same_writes(1) [OF untouched_parts(1)]])
  qed
  show ?thesis
    unfolding deliver_def Let_def
    by (intro wp_bindI [OF keep] keeps_intros keeps_worker_dek [OF assms(1) tol] assms(1) I)
      (auto simp: wp_bindE [of "of_result _"] wp_of_result split: sum.splits
        intro!: wp_bindI [OF keep] sent_is_dek keeps_worker_dek [OF assms(1) tol] last)
qed

section \<open>A concrete dispatcher\<close>

definition sample_context :: "(uuid \<times> cache_entry) list dispatcher_context" where
  "sample_context = \<lparr>dc_lru = list_lru, dc_keystore = sample_keystore, dc_crypto = framed_crypto,
     dc_mount = ''mount'', dc_sender = \<lambda>n dst body. Inr \<lparr>so_provider_ref = ''ref'', so_provider_status = ''ok''\<rparr>,
     dc_verification_mode = ENFORCE, dc_default_timezone = ''UTC'', dc_quiet_hours_policy = None,
     dc_uuid = \<lambda>_. None, dc_zones = \<lambda>_. None\<rparr>"

definition dispatcher_at :: "tenant_db \<Rightarrow> (uuid \<times> cache_entry) list dispatcher_world" where
  "dispatcher_at d = \<lparr>w_db = d, w_ctl = empty_ctl, w_tick = 0, w_keys = \<lparr>kc_inner = [], kc_ttl = 3600\<rparr>,
     w_quota = \<lparr>qt_tz = fixed_zone 0, qt_config = [], qt_counters = []\<rparr>, w_switches = new_cache,
     w_draining = [], w_sent = []\<rparr>"

text \<open>The sample row as a claim returns it, in a database that holds it.\<close>

definition claimed_row :: outbox_row where
  "claimed_row = leased (mins 2) sample_row"

definition claimed_db :: tenant_db where
  "claimed_db = sample_db\<lparr>t_outbox := [claimed_row]\<rparr>"

section \<open>Properties\<close>

lemma blocked_row_sends_nothing:
  fixes w :: "('c, 'z) dispatcher_world_scheme"
  assumes "B \<in> must_not_send E (dc_verification_mode cx) row" and "db_stable E B" and "B (w_db w)"
  shows "w_sent (snd (try_process E cx row w)) = w_sent w"
proof -
  let ?S = "sent_is (w_sent w) :: ('c, 'z) dispatcher_world_scheme \<Rightarrow> bool"
  let ?I = "\<lambda>v. ?S v \<and> db_inv B v"
  have keep: "keeps ?I (expiry_gate E row)" "keeps ?I (suppression_gate E row)"
      "keeps ?I (verification_gate E (dc_verification_mode cx) row)" "keeps ?I (consent_gate E row)"
      "keeps ?I (quota_gate E row)" "keeps ?I (quiet_hours_gate E cx row)"
    by (intro keeps_conj same_gates [OF untouched_parts(1)] keeps_gates assms(2) tolerates_must_not_send [OF assms(1)])+
  have pass: "wp (gate g rest) (\<lambda>_. ?S) (\<lambda>_. ?S) v"
    if "keeps ?I g" "?I v" "\<And>v. ?I v \<Longrightarrow> wp rest (\<lambda>_. ?S) (\<lambda>_. ?S) v" for g :: "(_, 'e, _) io" and rest v
    by (rule gate_passes [OF that(1,2) _ that(3)]) simp
  have start: "?I w" using assms(3) by (simp add: same_def db_inv_def)
  from assms(1) consider (e) "B = expired_for_good E row" | (s) "B = suppressed_for_good E row"
    | (v) "B = unverified (dc_verification_mode cx) row" | (o) "B = opted_out row" | (c) "B = called_off row"
    by (auto simp: must_not_send_def)
  then have "wp (try_process E cx row) (\<lambda>_. ?S) (\<lambda>_. ?S) w"
  proof cases
    case e
    then show ?thesis unfolding try_process_def using start by (intro gate_blocks blocking_gates(1)) (simp_all add: db_inv_def)
  next
    case s
    then show ?thesis unfolding try_process_def
      using assms(2) by (intro pass [OF keep(1) start] gate_blocks blocking_gates(2)) (simp_all add: db_inv_def)
  next
    case v
    then show ?thesis unfolding try_process_def
      using assms(2) by (intro pass [OF keep(1) start] pass [OF keep(2)] gate_blocks blocking_gates(3)) (simp_all add: db_inv_def)
  next
    case o
    then show ?thesis unfolding try_process_def
      using assms(2)
      by (intro pass [OF keep(1) start] pass [OF keep(2)] pass [OF keep(3)] gate_blocks blocking_gates(4)) (simp_all add: db_inv_def)
  next
    case c
    then show ?thesis unfolding try_process_def
      using assms(2)
      by (intro pass [OF keep(1) start] pass [OF keep(2)] pass [OF keep(3)] pass [OF keep(4)] pass [OF keep(5)]
          pass [OF keep(6)] cancellation_blocks) (simp_all add: db_inv_def)
  qed
  then show ?thesis by (simp add: wp_snd same_def)
qed

text \<open>C3: A row that must not be sent is not sent.  If the row has expired, or its destination is on
  the suppression list, or its address is unverified while verification is enforced, or it is
  marketing without consent, or it was cancelled or is no longer queued, and the other
  sessions leave that so, then processing the row makes no provider call, whatever fails on
  the way and whatever the other gates say.\<close>

theorem blocked_row_is_never_sent:
  fixes w :: "('c, 'z) dispatcher_world_scheme"
  assumes "B \<in> must_not_send E (dc_verification_mode cx) row" and "db_stable E B" and "B (w_db w)"
  shows "w_sent (snd (try_process E cx row w)) = w_sent w"
  using assms by (rule blocked_row_sends_nothing)

theorem blocked_row_is_never_sent_witness:
  "w_sent (snd (try_process (quiet_env 5) sample_context claimed_row (dispatcher_at claimed_db))) = []"
  using blocked_row_is_never_sent [of "unverified ENFORCE claimed_row" "quiet_env 5" sample_context claimed_row
      "dispatcher_at claimed_db"]
  by (simp add: must_not_send_def quiet_stable sample_context_def unverified_def verified_at_def dispatcher_at_def
      claimed_db_def claimed_row_def leased_def sample_defs)

text \<open>What is left of a row in the queue: no lease, and after a terminal write no row.\<close>

definition settled :: "uuid \<Rightarrow> tenant_db \<Rightarrow> bool" where
  "settled i d \<longleftrightarrow> (\<forall>r \<in> set (t_outbox d). ob_comms_request_id r = i \<longrightarrow> ob_leased_until r = None)"

definition gone :: "uuid \<Rightarrow> tenant_db \<Rightarrow> bool" where
  "gone i d \<longleftrightarrow> (\<forall>r \<in> set (t_outbox d). ob_comms_request_id r \<noteq> i)"

text \<open>What a provider's answer to the call at interaction \<open>n\<close> means for the row: accepted or finally
  rejected, it is gone; to be retried, it is due again after the backoff, which adds at most
  half to the capped delay.\<close>

definition answered :: "env \<Rightarrow> nat \<Rightarrow> sender_error + send_outcome \<Rightarrow> outbox_row \<Rightarrow> tenant_db \<Rightarrow> bool" where
  "answered E n answer row d \<longleftrightarrow>
     (case answer of
        Inr _ \<Rightarrow> gone (ob_comms_request_id row) d
      | Inl err \<Rightarrow>
         if is_retryable err \<and> ob_attempts row < MAX_SEND_ATTEMPTS then
           (\<forall>r \<in> set (t_outbox d). ob_comms_request_id r = ob_comms_request_id row \<longrightarrow> ob_leased_until r = None
              \<and> e_clock E (Suc n) + millis (backoff_ms (ob_attempts row)) \<le> ob_next_attempt_at r
              \<and> 2 * (ob_next_attempt_at r - e_clock E (Suc n)) \<le> 3 * millis (backoff_ms (ob_attempts row)))
         else gone (ob_comms_request_id row) d)"

lemma sat_i64_small: "0 \<le> x \<Longrightarrow> x \<le> 4000000 \<Longrightarrow> sat_i64 x = x"
  by (simp add: sat_i64_def)

lemma backoff_ms_eq:
  assumes "1 \<le> attempts" and "attempts \<le> 32767"
  shows "backoff_ms attempts = min (30000 * 2 ^ nat (attempts - 1)) 1800000"
proof -
  let ?e = "nat (min (attempts - 1) 6)"
  have "(2 :: int) ^ ?e \<le> 2 ^ 6" by (rule power_increasing) auto
  then have small: "(2 :: int) ^ ?e \<le> 64" by simp
  have pos: "(0 :: int) \<le> 2 ^ ?e" by simp
  have "max (- 32768) (attempts - 1) = attempts - 1" using assms by simp
  moreover have "min (attempts - 1) 6 mod 2 ^ 32 = min (attempts - 1) 6"
    using assms by (intro mod_pos_pos_trivial) auto
  ultimately have b: "backoff_ms attempts = min (30000 * 2 ^ ?e) 1800000"
    using small pos by (simp add: backoff_ms_def Let_def sat_i64_small)
  show ?thesis
  proof (cases "attempts \<le> 7")
    case True
    then show ?thesis unfolding b by simp
  next
    case False
    then have "(2 :: int) ^ 6 \<le> 2 ^ nat (attempts - 1)" by (intro power_increasing) auto
    then have "(64 :: int) \<le> 2 ^ nat (attempts - 1)" by simp
    with False show ?thesis unfolding b by simp
  qed
qed

lemma sat_i64_ge: "x \<le> y \<Longrightarrow> 0 \<le> x \<Longrightarrow> x \<le> 4000000 \<Longrightarrow> x \<le> sat_i64 y"
  by (simp add: sat_i64_def)

lemma backoff_ms_pos: "30000 \<le> backoff_ms attempts"
proof -
  have "(1 :: int) \<le> sat_i64 (2 ^ k)" for k by (rule sat_i64_ge) simp_all
  then have "30000 \<le> 30000 * sat_i64 (2 ^ k)" for k by simp
  then have "30000 \<le> sat_i64 (30000 * sat_i64 (2 ^ k))" for k by (rule sat_i64_ge) simp_all
  then show ?thesis by (simp add: backoff_ms_def Let_def)
qed

lemma backoff_delay_bounds:
  "wp (backoff_delay E a) (\<lambda>delay w'. millis (backoff_ms a) \<le> delay \<and> 2 * delay \<le> 3 * millis (backoff_ms a)
     \<and> w' = w\<lparr>w_tick := Suc (w_tick w)\<rparr>) R w"
proof -
  define b where "b = backoff_ms a"
  define j where "j = int (e_random E (w_tick w)) mod (max (b div 2) 1 + 1)"
  have "30000 \<le> b" unfolding b_def by (rule backoff_ms_pos)
  then have m: "max (b div 2) 1 = b div 2" "0 < b div 2 + 1" by auto
  have "0 \<le> j" "j < b div 2 + 1" 
    unfolding j_def m(1) using pos_mod_sign [OF m(2)] pos_mod_bound [OF m(2)] by blast+
  then have "0 \<le> j" "2 * j \<le> b" by presburger+
  then have "millis b \<le> millis (b + j)" "2 * millis (b + j) \<le> 3 * millis b" by simp_all
  then show ?thesis unfolding backoff_delay_def wp_bindE wp_random_upto wp_ret b_def [symmetric] j_def by simp
qed

lemma finalized_gone: "gone i (finalized now cre i cust ev pr ps fs d)"
  by (simp add: gone_def finalized_def Let_def set_del_where)

lemma gone_settled: "gone i d \<Longrightarrow> settled i d"
  by (simp add: gone_def settled_def)

lemma rescheduled_rows:
  assumes "r \<in> set (t_outbox (rescheduled i t d))" and "ob_comms_request_id r = i"
  shows "ob_leased_until r = None" and "ob_next_attempt_at r = t"
proof -
  have "r \<in> (\<lambda>r. if ob_comms_request_id r = i then r\<lparr>ob_leased_until := None, ob_next_attempt_at := t\<rparr> else r) ` set (t_outbox d)"
    using assms(1) by (simp add: rescheduled_def set_upd_where)
  then obtain r0 where r: "r = (if ob_comms_request_id r0 = i
      then r0\<lparr>ob_leased_until := None, ob_next_attempt_at := t\<rparr> else r0)"
    by (rule imageE)
  with assms(2) have "ob_comms_request_id r0 = i" by (cases "ob_comms_request_id r0 = i") simp_all
  with r show "ob_leased_until r = None" "ob_next_attempt_at r = t" by simp_all
qed

lemma finish_row_gone:
  "wp (finish_row E row st pr ps) (\<lambda>_ w'. gone (ob_comms_request_id row) (w_db w') \<and> w_sent w' = w_sent w)
     (\<lambda>_ w'. w_sent w' = w_sent w) w"
  by (simp add: finish_row_def write_terminal_def wp_simps Let_def finalized_gone split: fault.splits)

lemma put_off_settles:
  "wp (put_off E row t) (\<lambda>_ w'. (\<forall>r \<in> set (t_outbox (w_db w')). ob_comms_request_id r = ob_comms_request_id row \<longrightarrow>
        ob_leased_until r = None \<and> ob_next_attempt_at r = t) \<and> w_sent w' = w_sent w)
     (\<lambda>_ w'. w_sent w' = w_sent w) w"
  by (simp add: put_off_def reschedule_retry_def wp_simps Let_def rescheduled_rows split: fault.splits)

definition handled :: "env \<Rightarrow> sender \<Rightarrow> outbox_row \<Rightarrow> (outbox_row \<times> string \<times> string) list
    \<Rightarrow> ('c, 'z) dispatcher_world_scheme \<Rightarrow> bool" where
  "handled E send row l w \<longleftrightarrow> settled (ob_comms_request_id row) (w_db w)
     \<and> (w_sent w = l \<or> (\<exists>n dst body. w_sent w = l @ [(row, dst, body)] \<and> answered E n (send n dst body) row (w_db w)))"

definition sent_at_most :: "outbox_row \<Rightarrow> (outbox_row \<times> string \<times> string) list
    \<Rightarrow> ('c, 'z) dispatcher_world_scheme \<Rightarrow> bool" where
  "sent_at_most row l w \<longleftrightarrow> w_sent w = l \<or> (\<exists>dst body. w_sent w = l @ [(row, dst, body)])"

definition disposes :: "outbox_row \<Rightarrow> (('c, 'z) dispatcher_world_scheme, dispatch_error, bool) io \<Rightarrow> bool" where
  "disposes row g \<longleftrightarrow> (\<forall>w. wp g (\<lambda>disposed w'. w_sent w' = w_sent w \<and> (disposed \<longrightarrow> settled (ob_comms_request_id row) (w_db w')))
     (\<lambda>_ w'. w_sent w' = w_sent w) w)"

lemma disposes_intros:
  fixes m :: "(('c, 'z) dispatcher_world_scheme, dispatch_error, 'a) io"
  shows "disposes row (ret False)"
    and "disposes row (thenE (finish_row E row st pr ps) (ret True))"
    and "disposes row (thenE (put_off E row t) (ret True))"
    and "(\<And>l. keeps (sent_is l) m) \<Longrightarrow> (\<And>a. disposes row (f a)) \<Longrightarrow> disposes row (bindE m f)"
    and "disposes row g \<Longrightarrow> disposes row h \<Longrightarrow> disposes row (if b then g else h)"
    and "disposes row g \<Longrightarrow> (\<And>a. disposes row (k a)) \<Longrightarrow> disposes row (case x of None \<Rightarrow> g | Some a \<Rightarrow> k a)"
    and "disposes row g \<Longrightarrow> disposes row h \<Longrightarrow> (\<And>t. disposes row (p t)) \<Longrightarrow>
      disposes row (case y of Admit \<Rightarrow> g | SoftBreach \<Rightarrow> h | Defer t \<Rightarrow> p t)"
proof -
  show "disposes row (thenE (finish_row E row st pr ps) (ret True))"
    unfolding disposes_def by (intro allI, rule wp_bindI [OF finish_row_gone]) (simp add: wp_simps gone_settled)
  show "disposes row (thenE (put_off E row t) (ret True))"
    unfolding disposes_def by (intro allI, rule wp_bindI [OF put_off_settles]) (simp add: wp_simps settled_def)
  show "disposes row (bindE m f)" if m: "\<And>l. keeps (sent_is l) m" and f: "\<And>a. disposes row (f a)"
    unfolding disposes_def
  proof
    fix w :: "('c, 'z) dispatcher_world_scheme"
    have "wp m (\<lambda>_. sent_is (w_sent w)) (\<lambda>_. sent_is (w_sent w)) w" by (rule keeps_wp [OF m]) (simp add: same_def)
    then have m': "wp m (\<lambda>_ v. w_sent v = w_sent w) (\<lambda>_ v. w_sent v = w_sent w) w"
      by (rule wp_mono) (simp_all add: same_def)
    show "wp (bindE m f) (\<lambda>disposed w'. w_sent w' = w_sent w \<and> (disposed \<longrightarrow> settled (ob_comms_request_id row) (w_db w')))
        (\<lambda>_ w'. w_sent w' = w_sent w) w"
    proof (rule wp_bindI [OF m'])
      fix a and v :: "('c, 'z) dispatcher_world_scheme" assume v: "w_sent v = w_sent w"
      show "wp (f a) (\<lambda>disposed w'. w_sent w' = w_sent w \<and> (disposed \<longrightarrow> settled (ob_comms_request_id row) (w_db w')))
          (\<lambda>_ w'. w_sent w' = w_sent w) v"
        using f [of a] unfolding disposes_def v [symmetric] by blast
    qed
  qed
qed (auto simp: disposes_def wp_simps split: option.splits quota_decision.splits)

lemma disposes_gates:
  "disposes row (expiry_gate E row)" "disposes row (suppression_gate E row)"
  "disposes row (verification_gate E mode row)" "disposes row (consent_gate E row)"
  "disposes row (quota_gate E row)" "disposes row (quiet_hours_gate E cx row)"
  unfolding expiry_gate_def suppression_gate_def verification_gate_def consent_gate_def quota_gate_def
    quiet_hours_gate_def Let_def
  by (intro disposes_intros keeps_intros)+

lemma gate_handled:
  fixes w :: "('c, 'z) dispatcher_world_scheme"
  assumes "disposes row g" and "\<And>v. wp rest (\<lambda>_. handled E send row (w_sent v)) (\<lambda>_. sent_at_most row (w_sent v)) v"
  shows "wp (gate g rest) (\<lambda>_. handled E send row (w_sent w)) (\<lambda>_. sent_at_most row (w_sent w)) w"
proof -
  have "wp g (\<lambda>disposed w'. w_sent w' = w_sent w \<and> (disposed \<longrightarrow> settled (ob_comms_request_id row) (w_db w')))
      (\<lambda>_. sent_at_most row (w_sent w)) w"
    using assms(1) [unfolded disposes_def, rule_format, of w] by (rule wp_mono) (auto simp: sent_at_most_def)
  then show ?thesis unfolding gate_def
  proof (rule wp_bindI)
    fix a and v :: "('c, 'z) dispatcher_world_scheme"
    assume "w_sent v = w_sent w \<and> (a \<longrightarrow> settled (ob_comms_request_id row) (w_db v))"
    then show "wp (if a then ret () else rest) (\<lambda>_. handled E send row (w_sent w)) (\<lambda>_. sent_at_most row (w_sent w)) v"
      using assms(2) [of v] by (auto simp: wp_simps handled_def)
  qed
qed

lemma wp_provider_send [wp_simps]:
  "wp (provider_send send row dst body) Q R w = Q (send (w_tick w) dst body)
     (w\<lparr>w_tick := Suc (w_tick w), w_sent := w_sent w @ [(row, dst, body)]\<rparr>)"
  by (simp add: wp_def provider_send_def)

lemma send_and_record_handled:
  fixes w :: "('c, 'z) dispatcher_world_scheme"
  shows "wp (send_and_record E send row dst body) (\<lambda>_. handled E send row (w_sent w)) (\<lambda>_. sent_at_most row (w_sent w)) w"
proof -
  let ?n = "w_tick w"
  let ?v = "w\<lparr>w_tick := Suc ?n, w_sent := w_sent w @ [(row, dst, body)]\<rparr>"
  have finish: "wp (finish_row E row st pr ps) (\<lambda>_. handled E send row (w_sent w)) (\<lambda>_. sent_at_most row (w_sent w)) ?v"
    if "\<And>d. gone (ob_comms_request_id row) d \<Longrightarrow> answered E ?n (send ?n dst body) row d" for st pr ps
    by (rule wp_mono [OF finish_row_gone]) (auto simp: handled_def sent_at_most_def gone_settled intro: that)
  have retry: "wp (bindE (utc_now E) (\<lambda>now. bindE (backoff_delay E (ob_attempts row)) (\<lambda>delay. put_off E row (now + delay))))
      (\<lambda>_. handled E send row (w_sent w)) (\<lambda>_. sent_at_most row (w_sent w)) ?v"
    if "send ?n dst body = Inl err" "is_retryable err" "ob_attempts row < 8" for err
    unfolding wp_bindE [of "utc_now E"] wp_utc_now
  proof (rule wp_bindI [OF backoff_delay_bounds], rule wp_mono [OF put_off_settles], goal_cases)
    case (1 delay v u v')
    then show ?case using that
      by (auto simp: handled_def settled_def answered_def intro!: exI [of _ ?n] exI [of _ dst] exI [of _ body])
  qed (auto simp: sent_at_most_def)
  show ?thesis
    unfolding send_and_record_def wp_bindE [of "provider_send _ _ _ _"] wp_provider_send
    by (auto split: sum.splits intro!: finish retry simp: answered_def)
qed

lemma deliver_handled:
  "wp (deliver E cx row) (\<lambda>_. handled E (dc_sender cx) row (w_sent w)) (\<lambda>_. sent_at_most row (w_sent w)) w"
  for w :: "('c, 'z) dispatcher_world_scheme"
proof -
  let ?l = "w_sent w"
  have keep: "wp m (\<lambda>_. sent_is ?l) (\<lambda>_. sent_at_most row ?l) v"
    if "keeps (sent_is ?l) m" "sent_is ?l v" for m :: "(('c, 'z) dispatcher_world_scheme, 'e, 'a) io" and v
    using keeps_wp [OF that] by (rule wp_mono) (auto simp: sent_at_most_def same_def)
  have last: "wp (if c then finish_row E row st None None else send_and_record E send row dst body)
      (\<lambda>_. handled E send row ?l) (\<lambda>_. sent_at_most row ?l) v" if "sent_is ?l v" for c send dst body st v
  proof (cases c)
    case True
    then show ?thesis using that
      by simp (rule wp_mono [OF finish_row_gone], auto simp: handled_def sent_at_most_def same_def gone_settled)
  next
    case False
    then show ?thesis using that send_and_record_handled [of E send row dst body v] by (simp add: same_def)
  qed
  show ?thesis
    unfolding deliver_def Let_def
    by (intro wp_bindI [OF keep] keeps_intros last) (simp_all add: same_def)
qed

lemma try_process_handled:
  "wp (try_process E cx row) (\<lambda>_. handled E (dc_sender cx) row (w_sent w)) (\<lambda>_. sent_at_most row (w_sent w)) w"
  unfolding try_process_def by (intro gate_handled disposes_gates deliver_handled)

text \<open>C20: Processing a claimed row calls the provider at most once.  When it returns without an error
  the row is not left leased: it is gone from the queue or due again.  After a provider call
  it is gone if the provider accepted the message, rejected it for good, or this was the
  eighth attempt or later; otherwise its next attempt lies between one and one and a half
  times the backoff from now.  This holds whatever other sessions do and whatever fails.\<close>

theorem processing_settles_row:
  "wp (try_process E cx row) (\<lambda>_. handled E (dc_sender cx) row (w_sent w)) (\<lambda>_. sent_at_most row (w_sent w)) w"
  by (rule try_process_handled)

text \<open>The backoff doubles from thirty seconds per attempt and is capped at thirty minutes, with
  jitter of at most half on top; the saturating arithmetic of the code never bites.\<close>

theorem backoff_doubles_up_to_cap:
  assumes "1 \<le> attempts" and "attempts \<le> 32767"
  shows "wp (backoff_delay E attempts)
     (\<lambda>delay w'. let base = millis (min (30000 * 2 ^ nat (attempts - 1)) 1800000) in
        base \<le> delay \<and> 2 * delay \<le> 3 * base \<and> w_db w' = w_db w) (\<lambda>_ _. False) w"
  by (rule wp_mono [OF backoff_delay_bounds]) (simp_all add: backoff_ms_eq [OF assms] Let_def)

theorem backoff_doubles_up_to_cap_witness:
  "wp (backoff_delay (quiet_env 0) 3)
     (\<lambda>delay w'. let base = millis (min (30000 * 2 ^ nat (3 - 1)) 1800000) in
        base \<le> delay \<and> 2 * delay \<le> 3 * base \<and> w_db w' = w_db still_world) (\<lambda>_ _. False) still_world"
  by (rule backoff_doubles_up_to_cap) simp_all

section \<open>What is sent\<close>

text \<open>The ledger row's ciphertexts, the customer's key row, and the agreement of the key cache with the
  table: what the decryption of a row depends on.\<close>

definition stored :: "outbox_row \<Rightarrow> bytes \<Rightarrow> bytes \<Rightarrow> tenant_db \<Rightarrow> bool" where
  "stored row dct pct d \<longleftrightarrow> (\<exists>cr. find_request (ob_created_at row) (ob_comms_request_id row) d = Some cr
     \<and> cr_destination_ciphertext cr = dct \<and> cr_payload_ciphertext cr = Some pct)"

definition openable :: "'c lru \<Rightarrow> (string \<Rightarrow> string \<Rightarrow> bytes) \<Rightarrow> string \<Rightarrow> 'c key_cache \<Rightarrow> outbox_row
    \<Rightarrow> bytes \<Rightarrow> bytes \<Rightarrow> customer_dek_row \<Rightarrow> tenant_db \<Rightarrow> bool" where
  "openable L plain mount kc row dct pct k d \<longleftrightarrow> stored row dct pct d
     \<and> coherent L plain mount kc d \<and> find_dek_row (ob_customer_id row) d = Some k"

definition carries :: "crypto \<Rightarrow> bytes \<Rightarrow> outbox_row \<Rightarrow> bytes \<Rightarrow> bytes
    \<Rightarrow> (outbox_row \<times> string \<times> string) list \<Rightarrow> ('c, 'z) dispatcher_world_scheme \<Rightarrow> bool" where
  "carries C key row dct pct l w \<longleftrightarrow> w_sent w = l \<or> (\<exists>dst body. w_sent w = l @ [(row, dst, body)]
     \<and> decrypt C key (cy_uuid_bytes C (ob_comms_request_id row)) dct = Inr (as_bytes dst)
     \<and> decrypt C key (cy_uuid_bytes C (ob_comms_request_id row)) pct = Inr (as_bytes body))"

lemma open_text_bytes: "open_text C key aad blob = Inr s \<Longrightarrow> decrypt C key aad blob = Inr (as_bytes s)"
  by (auto simp: open_text_def ok_or_def as_bytes_from_utf8 split: sum.splits option.splits)

lemma stored_finalized:
  assumes "stored row dct pct d"
  shows "stored row dct pct (finalized now cre i cust ev pr ps fs d)"
proof -
  let ?g = "\<lambda>r. if cr_created_at r = cre \<and> cr_id r = i
      then r\<lparr>cr_final_status := Some fs, cr_finalized_at := Some now\<rparr> else r"
  have req: "find_request c j (finalized now cre i cust ev pr ps fs d) = map_option ?g (find_request c j d)" for c j
    by (simp add: finalized_def Let_def find_request_def add_event_def find_row_upd_where_other)
  obtain cr where "find_request (ob_created_at row) (ob_comms_request_id row) d = Some cr"
      "cr_destination_ciphertext cr = dct" "cr_payload_ciphertext cr = Some pct"
    using assms unfolding stored_def by blast
  then show ?thesis unfolding stored_def req by (intro exI [of _ "?g cr"]) simp
qed

lemma tolerates_openable: "tolerates row (openable L plain mount kc row dct pct k)"
proof -
  have dek: "find_dek_row c (finalized now cre i cust ev pr ps fs d) = find_dek_row c d"
    "find_dek_row c (rescheduled i t d) = find_dek_row c d" "find_dek_row c (add_event e d) = find_dek_row c d"
    for c now cre i cust ev pr ps fs t e and d :: tenant_db
    by (simp_all add: find_dek_row_def finalized_def Let_def rescheduled_def add_event_def)
  have req: "stored row dct pct (rescheduled i t d) = stored row dct pct d"
    "stored row dct pct (add_event e d) = stored row dct pct d"
    "stored row dct pct (snd (insert_dek c wr t d)) = stored row dct pct d" for i t e c wr and d :: tenant_db
    by (simp_all add: stored_def find_request_def)
  show ?thesis
    unfolding tolerates_def openable_def coherent_def
    using insert_dek_extends by (auto simp: dek req stored_finalized keys_extend_def) blast+
qed

lemma openable_stable:
  assumes "keys_grow E" and "db_stable E (stored row dct pct)"
  shows "db_stable E (openable L plain mount kc row dct pct k)"
  using assms coherent_extend [of L plain mount kc]
  by (auto simp: db_stable_def openable_def keys_grow_def keys_extend_def)

lemma send_and_record_sends:
  "wp (send_and_record E send row dst body) (\<lambda>_ w'. w_sent w' = w_sent w @ [(row, dst, body)])
     (\<lambda>_ w'. w_sent w' = w_sent w @ [(row, dst, body)]) w"
  for w :: "('c, 'z) dispatcher_world_scheme"
proof -
  let ?P = "\<lambda>v :: ('c, 'z) dispatcher_world_scheme. sent_is (w_sent w @ [(row, dst, body)]) v"
  let ?rest = "\<lambda>r. case r of
       Inr outcome \<Rightarrow> finish_row E row ''sent'' (Some (so_provider_ref outcome)) (Some (so_provider_status outcome))
     | Inl err \<Rightarrow>
         if is_retryable err \<and> ob_attempts row < MAX_SEND_ATTEMPTS then
           bindE (utc_now E) (\<lambda>now. bindE (backoff_delay E (ob_attempts row)) (\<lambda>delay.
             put_off E row (now + delay)))
         else finish_row E row ''failed'' None (provider_status_of err)"
  have "keeps ?P (?rest r)" for r by (intro keeps_intros)
  then have "wp (send_and_record E send row dst body) (\<lambda>_. ?P) (\<lambda>_. ?P) w"
    unfolding send_and_record_def wp_bindE [of "provider_send _ _ _ _"] wp_provider_send
    by (rule keeps_wp) (simp add: same_def)
  then show ?thesis by (rule wp_mono) (simp_all add: same_def)
qed

lemma deliver_carries:
  fixes w :: "('c, 'z) dispatcher_world_scheme"
  assumes "lru_lawful (dc_lru cx)" and "keystore_lawful (dc_keystore cx) plain" and "keys_grow E"
    and "db_stable E (stored row dct pct)"
    and "openable (dc_lru cx) plain (dc_mount cx) (w_keys w) row dct pct k (w_db w)"
  shows "wp (deliver E cx row) (\<lambda>_. carries (dc_crypto cx) (plain (dc_mount cx) (dk_wrapped_dek k)) row dct pct (w_sent w))
     (\<lambda>_. carries (dc_crypto cx) (plain (dc_mount cx) (dk_wrapped_dek k)) row dct pct (w_sent w)) w"
proof -
  let ?l = "w_sent w" and ?key = "plain (dc_mount cx) (dk_wrapped_dek k)" and ?C = "dc_crypto cx"
  let ?aad = "cy_uuid_bytes ?C (ob_comms_request_id row)"
  let ?S = "\<lambda>v :: ('c, 'z) dispatcher_world_scheme. sent_is ?l v"
  let ?Q = "carries ?C ?key row dct pct ?l :: ('c, 'z) dispatcher_world_scheme \<Rightarrow> bool"
  let ?O = "\<lambda>v :: ('c, 'z) dispatcher_world_scheme.
      ?S v \<and> w_keys v = w_keys w \<and> openable (dc_lru cx) plain (dc_mount cx) (w_keys w) row dct pct k (w_db v)"
  have S: "?Q v" if "?S v" for v using that by (simp add: same_def carries_def)
  have load: "wp (map_err DispatchDatabase (load_ciphertexts E (ob_created_at row) (ob_comms_request_id row)))
      (\<lambda>found v. ?O v \<and> found = Some \<lparr>rc_destination_ciphertext = dct, rc_payload_ciphertext = Some pct\<rparr>) (\<lambda>_. ?Q) w"
    using stableD [OF openable_stable [OF assms(3,4)] assms(5), of "w_tick w"]
    by (auto simp: load_ciphertexts_def wp_simps Let_def same_def carries_def openable_def stored_def)
  have dek: "wp (map_err DispatchDek (get_or_create_dek (dc_lru cx) E (dc_keystore cx) (dc_mount cx) (ob_customer_id row)))
      (\<lambda>p v'. ?S v' \<and> p = ?key) (\<lambda>_. ?Q) v" if v: "?O v" for v
  proof -
    have "coherent (dc_lru cx) plain (dc_mount cx) (w_keys v) (w_db v)"
      and k: "find_dek_row (ob_customer_id row) (w_db v) = Some k" using v by (simp_all add: openable_def)
    note wp_conj [OF get_or_create_dek_inv [OF assms(1-3) this(1), of "ob_customer_id row"]
      keeps_wp [OF sent_is_dek [of ?l "dc_lru cx" E "dc_keystore cx" "dc_mount cx" "ob_customer_id row"], of v]]
    then show ?thesis using v k
      by (auto simp: wp_map_err dek_inv_def holds_key_def keys_extend_def same_def carries_def elim!: wp_mono)
  qed
  have last: "wp (bindE (map_err DispatchDatabase (is_cancelled E (ob_comms_request_id row))) (\<lambda>cancelled.
      if cancelled then finish_row E row ''cancelled'' None None else send_and_record E (dc_sender cx) row dst body))
      (\<lambda>_. ?Q) (\<lambda>_. ?Q) v"
    if "?S v" "decrypt ?C ?key ?aad dct = Inr (as_bytes dst)" "decrypt ?C ?key ?aad pct = Inr (as_bytes body)" for dst body v
  proof (rule wp_bindI)
    have "keeps ?S (map_err DispatchDatabase (is_cancelled E (ob_comms_request_id row)))" by (intro keeps_intros)
    from keeps_wp [OF this that(1)]
    show "wp (map_err DispatchDatabase (is_cancelled E (ob_comms_request_id row))) (\<lambda>_. ?S) (\<lambda>_. ?Q) v"
      by (rule wp_mono) (auto intro: S)
    fix c v' assume v': "?S v'"
    have "wp (finish_row E row ''cancelled'' None None) (\<lambda>_. ?Q) (\<lambda>_. ?Q) v'"
      using keeps_wp [OF same_writes(1) [OF untouched_parts(1)] v'] by (rule wp_mono) (auto intro: S)
    moreover have "wp (send_and_record E (dc_sender cx) row dst body) (\<lambda>_. ?Q) (\<lambda>_. ?Q) v'"
      using send_and_record_sends by (rule wp_mono) (use v' that in \<open>auto simp: carries_def same_def\<close>)
    ultimately show "wp (if c then finish_row E row ''cancelled'' None None
        else send_and_record E (dc_sender cx) row dst body) (\<lambda>_. ?Q) (\<lambda>_. ?Q) v'" by simp
  qed
  show ?thesis
    unfolding deliver_def Let_def
    by (rule wp_bindI [OF load])
      (auto simp: wp_bindE [of "of_result _"] wp_of_result ok_or_def split: sum.splits
        intro!: wp_bindI [OF dek] S last open_text_bytes)
qed

lemma try_process_carries:
  fixes w :: "('c, 'z) dispatcher_world_scheme"
  assumes "lru_lawful (dc_lru cx)" and "keystore_lawful (dc_keystore cx) plain" and "keys_grow E"
    and "db_stable E (stored row dct pct)" and "stored row dct pct (w_db w)"
    and "coherent (dc_lru cx) plain (dc_mount cx) (w_keys w) (w_db w)"
    and "find_dek_row (ob_customer_id row) (w_db w) = Some k"
  shows "carries (dc_crypto cx) (plain (dc_mount cx) (dk_wrapped_dek k)) row dct pct (w_sent w)
     (snd (try_process E cx row w))"
proof -
  let ?D = "openable (dc_lru cx) plain (dc_mount cx) (w_keys w) row dct pct k"
  let ?P = "carries (dc_crypto cx) (plain (dc_mount cx) (dk_wrapped_dek k)) row dct pct (w_sent w)
      :: ('c, 'z) dispatcher_world_scheme \<Rightarrow> bool"
  let ?I = "\<lambda>v :: ('c, 'z) dispatcher_world_scheme. sent_is (w_sent w) v \<and> same w_keys (w_keys w) v \<and> db_inv ?D v"
  have keep: "keeps ?I (expiry_gate E row)" "keeps ?I (suppression_gate E row)"
      "keeps ?I (verification_gate E (dc_verification_mode cx) row)" "keeps ?I (consent_gate E row)"
      "keeps ?I (quota_gate E row)" "keeps ?I (quiet_hours_gate E cx row)"
    by (intro keeps_conj same_gates untouched_parts keeps_gates openable_stable [OF assms(3,4)] tolerates_openable)+
  have pass: "wp (gate g rest) (\<lambda>_. ?P) (\<lambda>_. ?P) v"
    if "keeps ?I g" "?I v" "\<And>v. ?I v \<Longrightarrow> wp rest (\<lambda>_. ?P) (\<lambda>_. ?P) v" for g :: "(_, 'e, _) io" and rest v
    by (rule gate_passes [OF that(1,2) _ that(3)]) (simp add: carries_def same_def)
  have "?I w" using assms(5-7) by (simp add: same_def db_inv_def openable_def)
  moreover have "wp (deliver E cx row) (\<lambda>_. ?P) (\<lambda>_. ?P) v" if "?I v" for v
    using deliver_carries [OF assms(1-4), of v k] that by (simp add: same_def db_inv_def)
  ultimately have "wp (try_process E cx row) (\<lambda>_. ?P) (\<lambda>_. ?P) w"
    unfolding try_process_def by (intro pass keep)
  then show ?thesis by (simp add: wp_snd)
qed

text \<open>What goes to the provider is the stored message.  Whatever fails on the way,
  the only call a row can cause carries the destination and the body that the
  ledger row's two ciphertexts decrypt to under the customer's own key, with the request id
  as associated data; so a ciphertext moved to another request or another customer is never
  sent.\<close>

theorem sends_the_stored_message:
  fixes w :: "('c, 'z) dispatcher_world_scheme"
  assumes "lru_lawful (dc_lru cx)" and "keystore_lawful (dc_keystore cx) plain" and "keys_grow E"
    and "db_stable E (stored row dct pct)" and "stored row dct pct (w_db w)"
    and "coherent (dc_lru cx) plain (dc_mount cx) (w_keys w) (w_db w)"
    and "find_dek_row (ob_customer_id row) (w_db w) = Some k"
  shows "carries (dc_crypto cx) (plain (dc_mount cx) (dk_wrapped_dek k)) row dct pct (w_sent w)
     (snd (try_process E cx row w))"
  using assms by (rule try_process_carries)

definition key_row :: customer_dek_row where
  "key_row = \<lparr>dk_customer_id = 20, dk_wrapped_dek = ''wrapped'', dk_created_at = 0, dk_shredded_at = None\<rparr>"

theorem sends_the_stored_message_witness:
  "carries framed_crypto (replicate 32 7) claimed_row [2] [3] []
     (snd (try_process (quiet_env 5) sample_context claimed_row
        (dispatcher_at (claimed_db\<lparr>t_customer_dek := [key_row]\<rparr>))))"
  using sends_the_stored_message [of sample_context "\<lambda>_ _. replicate 32 7" "quiet_env 5" claimed_row "[2]" "[3]"
      "dispatcher_at (claimed_db\<lparr>t_customer_dek := [key_row]\<rparr>)" key_row]
  by (simp add: quiet_stable sample_context_def dispatcher_at_def claimed_db_def claimed_row_def leased_def
      sample_defs stored_def find_request_def coherent_def list_lru_def [symmetric] find_dek_row_def key_row_def)
    (simp add: list_lru_def)

section \<open>Turns of the claim loop\<close>

lemma free_of_leased [simp]: "free_of pu ss (leased u r) = free_of pu ss r"
  by (simp add: free_of_def matches_row_def)

lemma lease_rows_free:
  assumes "distinct (map ob_comms_request_id (t_outbox d))"
    and "lease (claimable now locked channel (exclusion_for_channel pu ss channel)) n u d = Inr (rows, d')"
    and "\<not> ce_blocked_entirely (exclusion_for_channel pu ss channel)" and "r \<in> set rows"
  shows "ob_channel r = channel \<and> free_of pu ss r"
proof -
  let ?P = "claimable now locked channel (exclusion_for_channel pu ss channel)"
  obtain r0 where "r = leased u r0" "r0 \<in> set (pick ?P n (t_outbox d))"
    using assms(4) unfolding lease_Inr(2) [OF assms(1,2)] by auto
  moreover from this have "?P r0" using set_pick [of ?P n "t_outbox d"] by blast
  ultimately show ?thesis by (simp add: claimable_iff_free [OF assms(3)])
qed

lemma claim_rows_free:
  assumes "db_stable E queue_ok" and "queue_ok (w_db w)"
  shows "wp (claim E channel n u (exclusion_for_channel pu ss channel))
     (\<lambda>rows w'. (\<forall>r \<in> set rows. ob_channel r = channel \<and> free_of pu ss r) \<and> queue_ok (w_db w') \<and> w_sent w' = w_sent w)
     (\<lambda>_ w'. queue_ok (w_db w') \<and> w_sent w' = w_sent w) w"
proof (cases "ce_blocked_entirely (exclusion_for_channel pu ss channel)")
  case True
  with assms(2) show ?thesis by (simp add: claim_def wp_simps)
next
  case False
  have "queue_ok (e_interfere E (w_tick w) (w_db w))" by (rule stableD [OF assms])
  with lease_rows_free [OF queue_okD] lease_queue_ok False show ?thesis
    by (auto simp: claim_def wp_simps Let_def split: sum.splits fault.splits)
qed

lemma claim_retrying_rows_free:
  assumes "db_stable E queue_ok" and "queue_ok (w_db w)" and "w_sent w = l"
  shows "wp (claim_retrying fuel E channel u (exclusion_for_channel pu ss channel))
     (\<lambda>found w'. (\<forall>rows. found = Some rows \<longrightarrow> (\<forall>r \<in> set rows. ob_channel r = channel \<and> free_of pu ss r))
        \<and> queue_ok (w_db w') \<and> w_sent w' = l) (\<lambda>_ _. False) w"
  using assms(2,3)
proof (induction fuel arbitrary: w)
  case 0
  then show ?case by (simp add: wp_simps)
next
  case (Suc fuel)
  show ?case
    unfolding claim_retrying.simps wp_bindE wp_attempt
    by (rule wp_mono [OF claim_rows_free [OF assms(1) Suc.prems(1)]]) (use Suc in \<open>auto simp: wp_simps\<close>)
qed

text \<open>The messages a run adds to the log, all for rows that satisfy \<open>P\<close>.\<close>

definition adds :: "(outbox_row \<Rightarrow> bool) \<Rightarrow> (outbox_row \<times> string \<times> string) list \<Rightarrow> ('c, 'z) dispatcher_world_scheme \<Rightarrow> bool" where
  "adds P l w \<longleftrightarrow> (\<exists>ms. w_sent w = l @ ms \<and> (\<forall>m \<in> set ms. P (fst m)))"

lemma keeps_adds_process_one: "P row \<Longrightarrow> keeps (adds P l) (process_one E cx row)"
proof (rule wp_keeps)
  fix w :: "('a, 'b) dispatcher_world_scheme"
  assume P: "P row" and "adds P l w"
  then obtain ms where ms: "w_sent w = l @ ms" "\<forall>m \<in> set ms. P (fst m)" by (auto simp: adds_def)
  have "adds P l v" if "sent_at_most row (w_sent w) v" for v :: "('a, 'b) dispatcher_world_scheme"
    using that P ms by (force simp: sent_at_most_def adds_def)
  moreover from this have "adds P l v" if "handled E send row (w_sent w) v" for send and v :: "('a, 'b) dispatcher_world_scheme"
    using that by (auto simp: handled_def sent_at_most_def)
  ultimately show "wp (process_one E cx row) (\<lambda>_. adds P l) (\<lambda>_. adds P l) w"
    unfolding process_one_def wp_bindE wp_attempt wp_ret by (intro wp_mono [OF try_process_handled [of E cx row w]])
qed

text \<open>C21: The kill switch works.  Whatever one turn of a channel's loop sends, it sends only for rows of
  that channel that no switch of the process's engaged set and no switch still draining
  matches, as the two were when the turn began; and this for any number of failed claims.\<close>

theorem turn_sends_only_free_rows:
  fixes w :: "('c, 'z) dispatcher_world_scheme"
  assumes "db_stable E queue_ok" and "queue_ok (w_db w)"
  shows "\<exists>ms. w_sent (snd (channel_turn fuel E cx channel w)) = w_sent w @ ms
     \<and> (\<forall>m \<in> set ms. ob_channel (fst m) = channel
          \<and> free_of (dc_uuid cx) (active_snapshot (w_switches w) @ map snd (w_draining w)) (fst m))"
proof -
  let ?ss = "active_snapshot (w_switches w) @ map snd (w_draining w)"
  let ?P = "\<lambda>r. ob_channel r = channel \<and> free_of (dc_uuid cx) ?ss r"
  have each: "wp (for_each (process_one E cx) rows) (\<lambda>_. adds ?P (w_sent w)) (\<lambda>_. adds ?P (w_sent w)) v"
    if "\<forall>r \<in> set rows. ?P r" "w_sent v = w_sent w" for rows v
  proof (rule keeps_wp)
    show "keeps (adds ?P (w_sent w)) (for_each (process_one E cx) rows)"
      by (rule keeps_for_each, rule keeps_adds_process_one) (use that(1) in blast)
  qed (use that(2) in \<open>auto simp: adds_def\<close>)
  have "wp (channel_turn fuel E cx channel) (\<lambda>_. adds ?P (w_sent w)) (\<lambda>_. adds ?P (w_sent w)) w"
    unfolding channel_turn_def wp_bindE [of "utc_now E"] wp_utc_now wp_bindE [of "gets _"] wp_gets claim_exclusion_def
  proof (rule wp_bindI)
    show "wp (claim_retrying fuel E channel (e_clock E (w_tick w) + LEASE_DURATION)
          (exclusion_for_channel (dc_uuid cx) (active_snapshot (w_switches (w\<lparr>w_tick := Suc (w_tick w)\<rparr>))
            @ map snd (w_draining (w\<lparr>w_tick := Suc (w_tick w)\<rparr>))) channel))
        (\<lambda>found v. (\<forall>rows. found = Some rows \<longrightarrow> (\<forall>r \<in> set rows. ?P r)) \<and> w_sent v = w_sent w)
        (\<lambda>_. adds ?P (w_sent w)) (w\<lparr>w_tick := Suc (w_tick w)\<rparr>)"
      by (rule wp_mono [OF claim_retrying_rows_free [OF assms(1), of _ "w_sent w"]]) (use assms(2) in simp_all)
    fix found and v :: "('c, 'z) dispatcher_world_scheme"
    assume "(\<forall>rows. found = Some rows \<longrightarrow> (\<forall>r \<in> set rows. ?P r)) \<and> w_sent v = w_sent w"
    then show "wp (case found of None \<Rightarrow> ret False | Some rows \<Rightarrow> thenE (for_each (process_one E cx) rows) (ret True))
        (\<lambda>_. adds ?P (w_sent w)) (\<lambda>_. adds ?P (w_sent w)) v"
      by (cases found) (auto simp: wp_ret adds_def [of _ _ v] intro!: wp_bindI [OF each])
  qed
  then show ?thesis by (simp add: wp_snd adds_def)
qed

theorem turn_sends_only_free_rows_witness:
  "\<exists>ms. w_sent (snd (channel_turn 1 (quiet_env 5) sample_context ''sms'' (dispatcher_at sample_db)
            :: (sqlx_error + bool) \<times> (uuid \<times> cache_entry) list dispatcher_world)) = [] @ ms
     \<and> (\<forall>m \<in> set ms. ob_channel (fst m) = ''sms'' \<and> free_of (dc_uuid sample_context) [] (fst m))"
  using turn_sends_only_free_rows [of "quiet_env 5" "dispatcher_at sample_db" 1 sample_context "''sms''"] sample_queue_ok
  by (simp add: quiet_stable dispatcher_at_def new_cache_def active_snapshot_def queued_world_def)

lemma tolerates_queue_ok [simp]: "tolerates row queue_ok"
proof -
  have "t_comms_event (snd (insert_dek c wr t d)) = t_comms_event d" for c wr t and d :: tenant_db
    by (simp add: insert_dek_def)
  then show ?thesis by (simp add: tolerates_def queue_ok_writes queue_ok_def [of "snd _"]) (simp add: queue_ok_def)
qed

lemma keeps_claim_retrying:
  "db_stable E queue_ok \<Longrightarrow> keeps (db_inv queue_ok) (claim_retrying fuel E channel u x)"
  by (induction fuel) (auto intro!: keeps_intros)

lemma keeps_channel_turn [keeps_intros]:
  "db_stable E queue_ok \<Longrightarrow> keeps (db_inv queue_ok) (channel_turn fuel E cx channel)"
  unfolding channel_turn_def
  by (intro keeps_intros keeps_claim_retrying) simp_all

text \<open>C22: The queue and the ledger stay consistent over any number of turns of a channel's loop, whatever
  fails, whatever the providers answer, and next to any sessions that keep them so.\<close>

theorem channel_loop_keeps_queue:
  assumes "db_stable E queue_ok" and "queue_ok (w_db w)"
  shows "queue_ok (w_db (snd (run_channel_loop fuel turns E cx channel w)))"
proof (rule keeps_dbD [where P = queue_ok, OF _ assms(2)])
  show "keeps (db_inv queue_ok) (run_channel_loop fuel turns E cx channel)"
    using assms(1) by (induction turns) (auto intro!: keeps_intros)
qed

theorem channel_loop_keeps_queue_witness:
  "queue_ok (w_db (snd (run_channel_loop 1 3 (quiet_env 5) sample_context ''sms'' (dispatcher_at sample_db)
     :: (sqlx_error + unit) \<times> (uuid \<times> cache_entry) list dispatcher_world)))"
  using channel_loop_keeps_queue [of "quiet_env 5" "dispatcher_at sample_db" 1 3 sample_context "''sms''"] sample_queue_ok
  by (simp add: quiet_stable dispatcher_at_def queued_world_def)

text \<open>Room for \<open>k\<close> more claims before the attempt counter of a row overflows.\<close>

definition roomy :: "nat \<Rightarrow> tenant_db \<Rightarrow> bool" where
  "roomy k d \<longleftrightarrow> (\<forall>r \<in> set (t_outbox d). ob_attempts r + int k < SMALLINT_MAX)"

lemma lease_roomy:
  assumes "roomy (Suc k) d"
  shows "\<exists>rows d'. lease P n u d = Inr (rows, d') \<and> roomy k d'"
proof -
  let ?ids = "map ob_comms_request_id (pick P n (t_outbox d))"
  have "\<not> (\<exists>r \<in> set (t_outbox d). ob_comms_request_id r \<in> set ?ids \<and> ob_attempts r \<ge> SMALLINT_MAX)"
    using assms by (fastforce simp: roomy_def)
  moreover have "roomy k (d\<lparr>t_outbox := upd_where (\<lambda>r. ob_comms_request_id r \<in> set ?ids) (leased u) (t_outbox d)\<rparr>)"
    using assms by (fastforce simp: roomy_def set_upd_where)
  ultimately show ?thesis by (simp add: lease_def Let_def)
qed

text \<open>The retry of a failing claim ends as soon as one round trip to the database succeeds: if one of
  the next \<open>fuel\<close> interactions is free of faults and no attempt counter is about to overflow,
  the retry returns a batch.\<close>

theorem claim_retry_ends:
  fixes w :: "'z world_scheme"
  assumes "\<And>k. db_stable E (roomy k)" and "roomy fuel (w_db w)"
    and "i < fuel" and "e_fault E (w_tick w + i) = NoFault"
  shows "wp (claim_retrying fuel E channel u x) (\<lambda>found _. found \<noteq> None) (\<lambda>(_ :: 'e) _. False) w"
  using assms(2-4)
proof (induction fuel arbitrary: w i)
  case (Suc fuel)
  let ?d = "e_interfere E (w_tick w) (w_db w)"
  let ?P = "claimable (e_clock E (w_tick w)) (e_locked E (w_tick w)) channel x"
  obtain rows d' where l: "lease ?P CLAIM_BATCH_SIZE u ?d = Inr (rows, d')" and d': "roomy fuel d'"
    using lease_roomy [OF stableD [OF assms(1) Suc.prems(1)]] by blast
  have d: "roomy fuel ?d" using stableD [OF assms(1) Suc.prems(1), of "w_tick w"] by (fastforce simp: roomy_def)
  have retry: "wp (claim_retrying fuel E channel u x) (\<lambda>found _. found \<noteq> None) (\<lambda>(_ :: 'e) _. False)
      (w\<lparr>w_tick := Suc (w_tick w), w_db := d''\<rparr>)"
    if "e_fault E (w_tick w) \<noteq> NoFault" "roomy fuel d''" for d''
  proof (rule Suc.IH [of _ "i - 1"])
    have "i \<noteq> 0" using that(1) Suc.prems(3) by (cases i) auto
    then show "i - 1 < fuel" "e_fault E (w_tick (w\<lparr>w_tick := Suc (w_tick w), w_db := d''\<rparr>) + (i - 1)) = NoFault"
      using Suc.prems(2,3) by (simp_all add: add.commute)
  qed (simp add: that(2))
  show ?case
    using retry [OF _ d] retry [OF _ d'] l
    by (simp add: claim_def wp_simps Let_def split: fault.splits)
qed simp

theorem claim_retry_ends_witness:
  "wp (claim_retrying 1 (quiet_env 5) ''sms'' 9 default_exclusion) (\<lambda>found _. found \<noteq> None) (\<lambda>_ _. False) queued_world"
  by (rule claim_retry_ends [where i = 0]) (simp_all add: quiet_stable roomy_def sample_defs)

end
