(* ===== verification/Drain.thy ===== *)
theory Drain
  imports Worker
begin

text \<open>
  The tasks a kill switch starts in the dispatcher (\<open>dispatcher/drain.rs\<close>): the drain that sends a
  released switch's backlog at a limited rate, the sweep that discards the backlog of an
  engaged \<open>discard\<close> switch, and the bounded retry of the terminal writes of both.

  The loops run until a claim comes back empty; a claim error is retried.  Both take fuel, and
  their value is whether they returned before it was spent.  The one-second pauses are
  waits and leave no trace in the model.
\<close>

section \<open>Bounded retry of a terminal write\<close>

abbreviation (input) MAX_WRITE_TERMINAL_ATTEMPTS :: nat where "MAX_WRITE_TERMINAL_ATTEMPTS \<equiv> 5"

fun write_attempts :: "nat \<Rightarrow> env \<Rightarrow> string \<Rightarrow> outbox_row \<Rightarrow> ('z world_scheme, 'e, unit) io" where
  "write_attempts 0 E status row = ret ()"
| "write_attempts (Suc attempts) E status row =
     bindE (attempt (write_terminal E (ob_created_at row) (ob_comms_request_id row) (ob_customer_id row)
       status None None status)) (\<lambda>r. case r of
         Inr _ \<Rightarrow> ret ()
       | Inl _ \<Rightarrow> write_attempts attempts E status row)"

definition write_expired :: "env \<Rightarrow> outbox_row \<Rightarrow> ('z world_scheme, 'e, unit) io" where
  "write_expired E row = write_attempts MAX_WRITE_TERMINAL_ATTEMPTS E ''expired'' row"

definition write_discarded :: "env \<Rightarrow> outbox_row \<Rightarrow> ('z world_scheme, 'e, unit) io" where
  "write_discarded E row = write_attempts MAX_WRITE_TERMINAL_ATTEMPTS E ''discarded'' row"

section \<open>The loops\<close>

definition drain_row :: "env \<Rightarrow> 'c dispatcher_context \<Rightarrow> timestamp \<Rightarrow> outbox_row
    \<Rightarrow> (('c, 'z) dispatcher_world_scheme, 'e, unit) io" where
  "drain_row E cx now row =
     (if (case ob_expires_at row of None \<Rightarrow> False | Some expires_at \<Rightarrow> expires_at \<le> now)
      then write_expired E row else process_one E cx row)"

fun drain_released_scope :: "nat \<Rightarrow> env \<Rightarrow> 'c dispatcher_context \<Rightarrow> string \<Rightarrow> kill_switch \<Rightarrow> nat
    \<Rightarrow> (('c, 'z) dispatcher_world_scheme, 'e, bool) io" where
  "drain_released_scope 0 E cx channel s release_rate = ret False"
| "drain_released_scope (Suc fuel) E cx channel s release_rate =
     bindE (utc_now E) (\<lambda>now.
     bindE (gets (\<lambda>w. exclusion_for_channel (dc_uuid cx) (active_snapshot (w_switches w)) channel)) (\<lambda>exclusion.
     bindE (attempt (claim_for_scope E (dc_uuid cx) (Some channel) s release_rate (now + LEASE_DURATION) exclusion)) (\<lambda>r.
     case r of
       Inl _ \<Rightarrow> drain_released_scope fuel E cx channel s release_rate
     | Inr batch \<Rightarrow>
         if batch = [] then ret True
         else bindE (utc_now E) (\<lambda>now.
           thenE (for_each (drain_row E cx now) batch)
             (drain_released_scope fuel E cx channel s release_rate)))))"

fun discard_engaged_scope :: "nat \<Rightarrow> env \<Rightarrow> uuid_parser \<Rightarrow> kill_switch \<Rightarrow> nat \<Rightarrow> ('z world_scheme, 'e, bool) io" where
  "discard_engaged_scope 0 E pu s batch_size = ret False"
| "discard_engaged_scope (Suc fuel) E pu s batch_size =
     bindE (utc_now E) (\<lambda>now.
     bindE (attempt (claim_for_scope E pu None s batch_size (now + LEASE_DURATION) default_exclusion)) (\<lambda>r.
     case r of
       Inl _ \<Rightarrow> discard_engaged_scope fuel E pu s batch_size
     | Inr batch \<Rightarrow>
         if batch = [] then ret True
         else thenE (for_each (write_discarded E) batch) (discard_engaged_scope fuel E pu s batch_size)))"

text \<open>\<open>run_release_drain\<close> starts one drain per channel and waits for all of them; the model runs them one
  after the other, what the others do to the database in the meantime being part of the
  environment.  The switch leaves \<open>draining\<close> when all have returned.\<close>

fun drain_channels :: "nat \<Rightarrow> env \<Rightarrow> (string \<times> 'c dispatcher_context) list \<Rightarrow> kill_switch \<Rightarrow> nat
    \<Rightarrow> (('c, 'z) dispatcher_world_scheme, 'e, bool) io" where
  "drain_channels fuel E [] s release_rate = ret True"
| "drain_channels fuel E ((channel, cx) # contexts) s release_rate =
     bindE (drain_released_scope fuel E cx channel s release_rate) (\<lambda>finished.
       if finished then drain_channels fuel E contexts s release_rate else ret False)"

definition run_release_drain :: "nat \<Rightarrow> env \<Rightarrow> (string \<times> 'c dispatcher_context) list \<Rightarrow> kill_switch \<Rightarrow> nat
    \<Rightarrow> (('c, 'z) dispatcher_world_scheme, 'e, bool) io" where
  "run_release_drain fuel E contexts s release_rate =
     bindE (drain_channels fuel E contexts s release_rate) (\<lambda>finished.
       if finished then
         thenE (modifyE (\<lambda>w. w\<lparr>w_draining := filter (\<lambda>e. fst e \<noteq> ks_id s) (w_draining w)\<rparr>)) (ret True)
       else ret False)"

section \<open>The contract of a terminal writer\<close>

text \<open>Both loops hand the rows of a batch to a writer of one terminal status.  What they rely on: it
  never fails, it breaks nothing that a terminal write of the row keeps, and, undisturbed,
  it finalizes the row.\<close>

definition finalizes :: "string \<Rightarrow> outbox_row \<Rightarrow> tenant_db \<Rightarrow> tenant_db \<Rightarrow> bool" where
  "finalizes status row d d' \<longleftrightarrow> (\<exists>now. d' = finalized now (ob_created_at row) (ob_comms_request_id row)
     (ob_customer_id row) status None None status d)"

definition final_in :: "string \<Rightarrow> timestamp \<times> uuid \<Rightarrow> tenant_db \<Rightarrow> bool" where
  "final_in status k d \<longleftrightarrow> (\<exists>cr \<in> set (t_comms_request d). request_key cr = k \<and> cr_final_status cr = Some status)"

definition in_ledger :: "timestamp \<times> uuid \<Rightarrow> tenant_db \<Rightarrow> bool" where
  "in_ledger k d \<longleftrightarrow> k \<in> request_key ` set (t_comms_request d)"

lemma finalizes_outbox:
  "finalizes status row d d' \<Longrightarrow> t_outbox d' = filter (\<lambda>r. ob_comms_request_id r \<noteq> ob_comms_request_id row) (t_outbox d)"
  by (auto simp: finalizes_def finalized_def Let_def del_where_def add_event_def)

lemma finalizes_ledger:
  assumes "finalizes status row d d'"
  shows "in_ledger k d' = in_ledger k d"
    and "final_in status k d \<Longrightarrow> final_in status k d'"
    and "in_ledger (outbox_key row) d \<Longrightarrow> final_in status (outbox_key row) d'"
proof -
  obtain now where d': "d' = finalized now (ob_created_at row) (ob_comms_request_id row) (ob_customer_id row)
      status None None status d" using assms unfolding finalizes_def by blast
  let ?C = "\<lambda>r. cr_created_at r = ob_created_at row \<and> cr_id r = ob_comms_request_id row"
  let ?g = "\<lambda>r. r\<lparr>cr_final_status := Some status, cr_finalized_at := Some now\<rparr>"
  have req: "t_comms_request d' = upd_where ?C ?g (t_comms_request d)"
    by (simp add: d' finalized_def Let_def add_event_def)
  have key: "request_key (?g r) = request_key r" for r by (simp add: request_key_def)
  have "map request_key (upd_where ?C ?g (t_comms_request d)) = map request_key (t_comms_request d)"
    by (rule map_key_upd_where) (rule key)
  from arg_cong [OF this, of set] show "in_ledger k d' = in_ledger k d" unfolding in_ledger_def req by simp
  show "final_in status k d'" if "final_in status k d"
  proof -
    obtain cr where cr: "cr \<in> set (t_comms_request d)" "request_key cr = k" "cr_final_status cr = Some status"
      using \<open>final_in status k d\<close> unfolding final_in_def by blast
    then have "(if ?C cr then ?g cr else cr) \<in> set (t_comms_request d')" unfolding req set_upd_where by (intro imageI)
    moreover have "request_key (if ?C cr then ?g cr else cr) = k" using cr(2) key by (cases "?C cr") simp_all
    moreover have "cr_final_status (if ?C cr then ?g cr else cr) = Some status" using cr(3) by (cases "?C cr") simp_all
    ultimately show ?thesis unfolding final_in_def by (intro bexI conjI)
  qed
  show "final_in status (outbox_key row) d'" if "in_ledger (outbox_key row) d"
  proof -
    obtain cr where cr: "cr \<in> set (t_comms_request d)" "request_key cr = outbox_key row"
      using \<open>in_ledger (outbox_key row) d\<close> unfolding in_ledger_def by (metis imageE)
    then have C: "?C cr" by (simp add: request_key_def outbox_key_def)
    have "?g cr \<in> set (t_comms_request d')"
      unfolding req set_upd_where by (rule rev_image_eqI [OF cr(1)]) (simp only: if_P [OF C])
    then show ?thesis unfolding final_in_def using cr(2) key by (intro bexI [of _ "?g cr"]) simp_all
  qed
qed

locale terminal_writer =
  fixes put :: "env \<Rightarrow> outbox_row \<Rightarrow> ('z world_scheme, 'e, unit) io" and status :: string
  assumes never_fails: "wp (put E row) (\<lambda>_ _. True) (\<lambda>_ _. False) w"
    and tolerated: "db_stable E P \<Longrightarrow> tolerates row P \<Longrightarrow> keeps (db_inv P) (put E row)"
    and finalizes: "quiet E \<Longrightarrow> wp (put E row) (\<lambda>_ w'. finalizes status row (w_db w) (w_db w')) (\<lambda>_ _. False) w"
begin

lemma batch_never_fails: "wp (for_each (put E) rows) (\<lambda>_ _. True) (\<lambda>_ _. False) w"
proof (induction rows arbitrary: w)
  case (Cons row rows)
  show ?case unfolding for_each.simps by (rule wp_bindI [OF never_fails]) (rule Cons.IH)
qed (simp add: wp_simps)

lemma batch_keeps:
  assumes "db_stable E P" and "\<And>row. row \<in> set rows \<Longrightarrow> tolerates row P"
  shows "keeps (db_inv P) (for_each (put E) rows)"
  by (intro keeps_for_each tolerated assms)

text \<open>An undisturbed batch removes exactly its rows from the queue and finalizes their ledger rows.\<close>

lemma batch_finalizes:
  assumes "quiet E"
  shows "wp (for_each (put E) rows)
     (\<lambda>_ w'. t_outbox (w_db w') = filter (\<lambda>r. ob_comms_request_id r \<notin> ob_comms_request_id ` set rows) (t_outbox (w_db w))
        \<and> (\<forall>k. in_ledger k (w_db w') = in_ledger k (w_db w))
        \<and> (\<forall>k. final_in status k (w_db w) \<longrightarrow> final_in status k (w_db w'))
        \<and> (\<forall>row \<in> set rows. in_ledger (outbox_key row) (w_db w) \<longrightarrow> final_in status (outbox_key row) (w_db w')))
     (\<lambda>_ _. False) w"
proof (induction rows arbitrary: w)
  case Nil
  then show ?case by (simp add: wp_simps)
next
  case (Cons row rows)
  show ?case unfolding for_each.simps
  proof (rule wp_bindI [OF finalizes [OF assms]])
    fix u and v :: "'z world_scheme"
    assume f: "finalizes status row (w_db w) (w_db v)"
    show "wp (for_each (put E) rows)
       (\<lambda>_ w'. t_outbox (w_db w') = filter (\<lambda>r. ob_comms_request_id r \<notin> ob_comms_request_id ` set (row # rows)) (t_outbox (w_db w))
          \<and> (\<forall>k. in_ledger k (w_db w') = in_ledger k (w_db w))
          \<and> (\<forall>k. final_in status k (w_db w) \<longrightarrow> final_in status k (w_db w'))
          \<and> (\<forall>r \<in> set (row # rows). in_ledger (outbox_key r) (w_db w) \<longrightarrow> final_in status (outbox_key r) (w_db w')))
       (\<lambda>_ _. False) v"
      by (rule wp_mono [OF Cons.IH [of v]])
        (auto simp: finalizes_outbox [OF f] finalizes_ledger [OF f] simp del: split_paired_All intro!: filter_cong)
  qed
qed

end

lemma wp_write_terminal_quiet:
  assumes "quiet E"
  shows "wp (write_terminal E (ob_created_at row) (ob_comms_request_id row) (ob_customer_id row) st None None st)
     (\<lambda>_ w'. finalizes st row (w_db w) (w_db w')) (\<lambda>_ _. False) w"
  using assms by (auto simp: write_terminal_def wp_simps Let_def finalizes_def)

lemma write_attempts_never_fails: "wp (write_attempts n E st row) (\<lambda>_ _. True) (\<lambda>_ _. False) w"
proof (induction n arbitrary: w)
  case (Suc n)
  then show ?case by (auto simp: wp_simps wp_iff [of "write_terminal _ _ _ _ _ _ _ _"])
qed (simp add: wp_simps)

lemma write_attempts_tolerated:
  "db_stable E P \<Longrightarrow> tolerates row P \<Longrightarrow> keeps (db_inv P) (write_attempts n E st row)"
  by (induction n) (auto intro!: keeps_intros simp: tolerates_def)

lemma write_attempts_finalizes:
  "quiet E \<Longrightarrow> wp (write_attempts (Suc n) E st row) (\<lambda>_ w'. finalizes st row (w_db w) (w_db w')) (\<lambda>_ _. False) w"
  unfolding write_attempts.simps
  by (rule wp_bindI [where Q' = "\<lambda>r w'. \<exists>u. r = Inr u \<and> finalizes st row (w_db w) (w_db w')"])
    (auto simp: wp_attempt wp_ret intro!: wp_mono [OF wp_write_terminal_quiet])

interpretation expired_writer: terminal_writer write_expired "''expired''"
  unfolding write_expired_def
  by unfold_locales
    (simp_all only: write_attempts_never_fails write_attempts_tolerated write_attempts_finalizes numeral_eq_Suc)

interpretation discarded_writer: terminal_writer write_discarded "''discarded''"
  unfolding write_discarded_def
  by unfold_locales
    (simp_all only: write_attempts_never_fails write_attempts_tolerated write_attempts_finalizes numeral_eq_Suc)

section \<open>The rows of a batch\<close>

lemma leases_none:
  assumes "leases_candidates P n u d [] d'" and "0 < n"
  shows "d' = d" and "\<forall>r \<in> set (t_outbox d). \<not> P r"
proof -
  obtain taken where t: "taken \<subseteq> {r \<in> set (t_outbox d). P r}"
      "[] = map (leased u) (filter (\<lambda>r. r \<in> taken) (t_outbox d))"
      "d' = d\<lparr>t_outbox := map (\<lambda>r. if r \<in> taken then leased u r else r) (t_outbox d)\<rparr>"
      "length ([] :: outbox_row list) = min n (length (filter P (t_outbox d)))"
    using assms(1) unfolding leases_candidates_def by blast
  have "filter P (t_outbox d) = []" using t(4) assms(2) by (simp add: min_def split: if_splits)
  then show "\<forall>r \<in> set (t_outbox d). \<not> P r" by (simp add: filter_empty_conv)
  have "r \<notin> taken" if "r \<in> set (t_outbox d)" for r using t(2) that by (simp add: filter_empty_conv)
  then have "map (\<lambda>r. if r \<in> taken then leased u r else r) (t_outbox d) = t_outbox d" by (intro map_idI) simp
  then show "d' = d" by (simp add: t(3))
qed

lemma matches_row_leased [simp]: "matches_row pu s (leased u r) = matches_row pu s r"
  by (simp add: matches_row_def)

lemma leases_rows:
  assumes "leases_candidates P n u d rows d'" and "r \<in> set rows"
  shows "\<exists>r0. r = leased u r0 \<and> P r0"
proof -
  obtain taken where "taken \<subseteq> {r \<in> set (t_outbox d). P r}"
      "rows = map (leased u) (filter (\<lambda>r. r \<in> taken) (t_outbox d))"
    using assms(1) unfolding leases_candidates_def by blast
  with assms(2) show ?thesis by auto
qed

text \<open>Claiming for a scope next to other sessions: the queue stays consistent, the process's own
  state is untouched, every row is one the switch matches and no switch of the exclusion
  does, and an empty batch means that nothing was left to claim.\<close>

lemma claim_for_scope_batch:
  fixes w :: "('c, 'z) dispatcher_world_scheme"
  assumes "db_stable E queue_ok" and "queue_ok (w_db w)" and "0 < n"
  shows "wp (claim_for_scope E pu (Some channel) s n u (exclusion_for_channel pu ss channel))
     (\<lambda>rows w'. queue_ok (w_db w') \<and> w_switches w' = w_switches w \<and> w_sent w' = w_sent w
        \<and> (\<forall>r \<in> set rows. ob_channel r = channel \<and> matches_row pu s r \<and> free_of pu ss r)
        \<and> (rows = [] \<longrightarrow> (\<exists>n. \<forall>r \<in> set (t_outbox (w_db w')). \<not> scope_candidate E n pu ss (Some channel) s r)))
     (\<lambda>_ w'. queue_ok (w_db w') \<and> w_switches w' = w_switches w \<and> w_sent w' = w_sent w) w"
proof -
  let ?c = "claim_for_scope E pu (Some channel) s n u (exclusion_for_channel pu ss channel)"
  have x: "exclusion_for_channel pu ss channel = drain_exclusion pu ss (Some channel)" by (simp add: drain_exclusion_def)
  have sw: "untouched (w_switches :: ('c, 'z) dispatcher_world_scheme \<Rightarrow> _)" by (simp add: untouched_def)
  have frame: "keeps (same g v) ?c" if "untouched g" for g :: "('c, 'z) dispatcher_world_scheme \<Rightarrow> 'x" and v
    unfolding claim_for_scope_def by (intro keeps_intros that)
  note c1 = claim_for_scope_candidates [OF assms(1,2), of pu "Some channel" s n u ss, folded x]
  note c2 = keeps_wp [OF keeps_queue_ok_claim_for_scope [OF assms(1)], of w pu "Some channel" s n u "exclusion_for_channel pu ss channel"]
  note c3 = keeps_wp [OF frame [OF sw, of "w_switches w"]] keeps_wp [OF frame [OF untouched_parts(1), of "w_sent w"]]
  have rows: "(\<forall>r \<in> set rows. ob_channel r = channel \<and> matches_row pu s r \<and> free_of pu ss r)
      \<and> (rows = [] \<longrightarrow> (\<exists>k. \<forall>r \<in> set (t_outbox d'). \<not> scope_candidate E k pu ss (Some channel) s r))"
    if "leases_candidates (scope_candidate E k pu ss (Some channel) s) n u d rows d'" for k d rows d'
    using leases_rows [OF that] leases_none [OF _ assms(3)] that by (fastforce simp: scope_candidate_def)
  show ?thesis
    using wp_conj [OF c1 wp_conj [OF c2 wp_conj [OF c3]]] assms(2) rows
    by (auto simp: db_inv_def same_def elim!: wp_mono)
qed

lemma for_each_total:
  "(\<And>x w. wp (f x) (\<lambda>_ _. True) (\<lambda>_ _. False) w) \<Longrightarrow> wp (for_each f xs) (\<lambda>_ _. True) (\<lambda>_ _. False) w"
proof (induction xs arbitrary: w)
  case (Cons x xs)
  show ?case unfolding for_each.simps by (rule wp_bindI [OF Cons.prems]) (use Cons in blast)
qed (simp add: wp_simps)

lemma process_one_total: "wp (process_one E cx row) (\<lambda>_ _. True) (\<lambda>_ _. False) w"
  by (simp add: process_one_def wp_def attempt_def bindE_def ret_def split: prod.splits)

lemma drain_row_total: "wp (drain_row E cx now row) (\<lambda>_ _. True) (\<lambda>_ _. False) w"
  by (simp add: drain_row_def expired_writer.never_fails process_one_total)

lemma keeps_drain_row:
  "db_stable E P \<Longrightarrow> tolerates row P \<Longrightarrow> keeps (db_inv P) (drain_row E cx now row)"
  unfolding drain_row_def by (intro keeps_if expired_writer.tolerated keeps_process_one)

text \<open>Processing rows leaves the process's switches alone, and adds to the log only for those rows.\<close>

lemma switches_frame [keeps_intros]:
  "keeps (same w_switches x) (cache_get L E k)" "keeps (same w_switches x) (cache_put L E k p)"
  "keeps (same w_switches x) (create_dek K m)" "keeps (same w_switches x) (unwrap_dek K m y)"
  "keeps (same w_switches x) (provider_send send row dst body)"
  by (rule wp_keeps; auto simp: same_def wp_simps Let_def split: sum.splits prod.splits)+

lemma untouched_switches [keeps_intros]: "untouched w_switches"
  by (simp add: untouched_def)

lemma process_one_switches: "keeps (same w_switches x) (process_one E cx row)"
  unfolding process_one_def try_process_def deliver_def send_and_record_def get_or_create_dek_def find_dek_def
    insert_if_absent_def Let_def
  by (intro keeps_intros)

lemma write_attempts_frame: "untouched g \<Longrightarrow> keeps (same g x) (write_attempts n E st row)"
  by (induction n) (auto intro!: keeps_intros)

lemma drain_row_switches: "keeps (same w_switches x) (drain_row E cx now row)"
  unfolding drain_row_def write_expired_def
  by (intro keeps_if process_one_switches write_attempts_frame untouched_switches)

lemma drain_row_adds: "P row \<Longrightarrow> keeps (adds P l) (drain_row E cx now row)"
proof -
  assume P: "P row"
  have "keeps (adds P l) (write_expired E row)"
  proof (rule wp_keeps)
    fix w assume w: "adds P l w"
    show "wp (write_expired E row) (\<lambda>_. adds P l) (\<lambda>_. adds P l) w"
      using keeps_wp [OF write_attempts_frame [OF untouched_parts(1), of "w_sent w"], of w 5 E "''expired''" row] w
      unfolding write_expired_def by (auto simp: same_def adds_def elim!: wp_mono)
  qed
  with P show ?thesis unfolding drain_row_def by (intro keeps_if keeps_adds_process_one)
qed

section \<open>Properties\<close>

text \<open>What holds between the batches of a drain.\<close>

definition draining_inv :: "uuid_parser \<Rightarrow> string \<Rightarrow> kill_switch \<Rightarrow> active_set
    \<Rightarrow> (outbox_row \<times> string \<times> string) list \<Rightarrow> ('c, 'z) dispatcher_world_scheme \<Rightarrow> bool" where
  "draining_inv pu channel s a l w \<longleftrightarrow> db_inv queue_ok w \<and> same w_switches a w
     \<and> adds (\<lambda>r. ob_channel r = channel \<and> matches_row pu s r \<and> free_of pu (active_snapshot a) r) l w"

lemma drain_inv:
  fixes w :: "('c, 'z) dispatcher_world_scheme"
  assumes "db_stable E queue_ok" and "0 < rate" and "draining_inv (dc_uuid cx) channel s a l w"
  shows "wp (drain_released_scope fuel E cx channel s rate)
     (\<lambda>finished w'. draining_inv (dc_uuid cx) channel s a l w' \<and> (finished \<longrightarrow>
        (\<exists>n. \<forall>r \<in> set (t_outbox (w_db w')). \<not> scope_candidate E n (dc_uuid cx) (active_snapshot a) (Some channel) s r)))
     (\<lambda>(_ :: 'e) _. False) w"
  using assms(3)
proof (induction fuel arbitrary: w)
  case 0
  then show ?case by (simp add: wp_simps)
next
  case (Suc fuel)
  let ?I = "draining_inv (dc_uuid cx) channel s a l :: ('c, 'z) dispatcher_world_scheme \<Rightarrow> bool"
  let ?P = "\<lambda>r. ob_channel r = channel \<and> matches_row (dc_uuid cx) s r \<and> free_of (dc_uuid cx) (active_snapshot a) r"
  let ?Q = "\<lambda>finished w'. ?I w' \<and> (finished \<longrightarrow>
        (\<exists>n. \<forall>r \<in> set (t_outbox (w_db w')). \<not> scope_candidate E n (dc_uuid cx) (active_snapshot a) (Some channel) s r))"
  let ?w = "w\<lparr>w_tick := Suc (w_tick w)\<rparr>"
  have I: "?I (v\<lparr>w_tick := n\<rparr>)" if "?I v" for v n
    using that by (simp add: draining_inv_def db_inv_def same_def adds_def)
  have step: "keeps ?I (drain_row E cx t row)" if "?P row" for t row
    unfolding draining_inv_def
    by (intro keeps_conj keeps_drain_row assms(1) tolerates_queue_ok drain_row_switches drain_row_adds that)
  have batch: "wp (for_each (drain_row E cx t) rows) (\<lambda>_. ?I) (\<lambda>(_ :: 'e) _. False) v"
    if "?I v" "\<forall>r \<in> set rows. ?P r" for rows t v
    using wp_conj [OF keeps_wp [OF keeps_for_each [of rows ?I "drain_row E cx t"] that(1)]
        for_each_total [of "drain_row E cx t" rows v, OF drain_row_total]] that(2) step
    by (auto elim!: wp_mono)
  have ok: "queue_ok (w_db ?w)" "w_switches w = a" "adds ?P l w"
    using Suc.prems by (simp_all add: draining_inv_def db_inv_def same_def)
  have next_batch: "wp (bindE (utc_now E) (\<lambda>t. thenE (for_each (drain_row E cx t) rows)
      (drain_released_scope fuel E cx channel s rate))) ?Q (\<lambda>(_ :: 'e) _. False) v"
    if "?I v" "\<forall>r \<in> set rows. ?P r" for rows v
    unfolding wp_bindE [of "utc_now E"] wp_utc_now
    by (rule wp_bindI [OF batch [OF I [OF that(1)] that(2)]]) (rule Suc.IH)
  show ?case
    unfolding drain_released_scope.simps wp_bindE [of "utc_now E"] wp_utc_now wp_bindE [of "gets _"] wp_gets
      wp_bindE [of "attempt _"] wp_attempt
    by (rule wp_mono [OF claim_for_scope_batch [OF assms(1) ok(1) assms(2)]])
      (use ok Suc.IH next_batch in \<open>auto simp: wp_simps draining_inv_def db_inv_def same_def adds_def [of _ _ w] adds_def\<close>)
qed



text \<open>What a sweep has done to the rows of the queue: every row is still there, or the switch matches it
  and its ledger row carries the status \<open>discarded\<close>.\<close>

definition swept :: "uuid_parser \<Rightarrow> kill_switch \<Rightarrow> tenant_db \<Rightarrow> tenant_db \<Rightarrow> bool" where
  "swept pu s d d' \<longleftrightarrow> set (t_outbox d') \<subseteq> set (t_outbox d)
     \<and> (\<forall>r \<in> set (t_outbox d). r \<in> set (t_outbox d') \<or> (matches_row pu s r \<and> final_in ''discarded'' (outbox_key r) d'))"

definition backlog :: "uuid_parser \<Rightarrow> kill_switch \<Rightarrow> tenant_db \<Rightarrow> nat" where
  "backlog pu s d = length (filter (matches_row pu s) (t_outbox d))"

lemma leased_inj_ids:
  assumes "distinct (map ob_comms_request_id t)" and "taken \<subseteq> set t"
  shows "filter (\<lambda>r. ob_comms_request_id r \<notin> ob_comms_request_id ` set (map (leased u) (filter (\<lambda>r. r \<in> taken) t)))
      (map (\<lambda>r. if r \<in> taken then leased u r else r) t) = filter (\<lambda>r. r \<notin> taken) t"
proof -
  have ids: "ob_comms_request_id ` set (map (leased u) (filter (\<lambda>r. r \<in> taken) t)) = ob_comms_request_id ` taken"
    using assms(2) by (auto simp: image_iff) blast
  have "ob_comms_request_id r \<in> ob_comms_request_id ` taken \<longleftrightarrow> r \<in> taken" if "r \<in> set t" for r
    using key_inj [OF assms(1) that] assms(2) by (metis imageE image_eqI subsetD)
  then have "filter (\<lambda>r. ob_comms_request_id r \<notin> ob_comms_request_id ` taken)
      (map (\<lambda>r. if r \<in> taken then leased u r else r) t') = filter (\<lambda>r. r \<notin> taken) t'" if "set t' \<subseteq> set t" for t'
    using that by (induction t') auto
  then show ?thesis unfolding ids by blast
qed

lemma filter_shrinks:
  assumes "r \<in> set t" and "P r" and "r \<in> taken"
  shows "length (filter P (filter (\<lambda>r. r \<notin> taken) t)) < length (filter P t)"
proof -
  have "filter P (filter (\<lambda>r. r \<notin> taken) t) = filter (\<lambda>r. r \<notin> taken) (filter P t)" by (simp add: conj_commute)
  moreover have "length (filter (\<lambda>r. r \<notin> taken) (filter P t)) < length (filter P t)"
    by (rule length_filter_less [of r]) (use assms in auto)
  ultimately show ?thesis by simp
qed

lemma claim_for_scope_quiet:
  assumes "quiet E" and "roomy 1 (w_db w)"
  shows "wp (claim_for_scope E pu ch s n u x) (\<lambda>_ _. True) (\<lambda>_ _. False) w"
proof -
  have "roomy (Suc 0) (w_db w)" using assms(2) by simp
  from lease_roomy [OF this] assms(1) show ?thesis
    by (auto simp: claim_for_scope_def wp_simps Let_def split: option.splits sum.splits) (metis Inl_Inr_False)+
qed

text \<open>One batch of the sweep, undisturbed: it takes some candidates and finalizes exactly those.\<close>

lemma discard_batch:
  assumes "quiet E" and "queue_ok (w_db w)" and "roomy 1 (w_db w)" and "0 < n"
  shows "wp (bindE (attempt (claim_for_scope E pu None s n u default_exclusion)) (\<lambda>r. case r of
        Inl _ \<Rightarrow> ret None | Inr rows \<Rightarrow> if rows = [] then ret (Some False)
          else thenE (for_each (write_discarded E) rows) (ret (Some True))))
     (\<lambda>more w'. queue_ok (w_db w') \<and> roomy 1 (w_db w') \<and> swept pu s (w_db w) (w_db w')
        \<and> (\<forall>k. final_in ''discarded'' k (w_db w) \<longrightarrow> final_in ''discarded'' k (w_db w'))
        \<and> (more = Some False \<and> (\<exists>n. \<forall>r \<in> set (t_outbox (w_db w')). \<not> scope_candidate E n pu [] None s r)
           \<or> more = Some True \<and> backlog pu s (w_db w') < backlog pu s (w_db w)))
     (\<lambda>(_ :: 'e) _. False) w"
proof -
  let ?P = "scope_candidate E (w_tick w) pu [] None s"
  let ?Q = "\<lambda>more w'. queue_ok (w_db w') \<and> roomy 1 (w_db w') \<and> swept pu s (w_db w) (w_db w')
        \<and> (\<forall>k. final_in ''discarded'' k (w_db w) \<longrightarrow> final_in ''discarded'' k (w_db w'))
        \<and> (more = Some False \<and> (\<exists>n. \<forall>r \<in> set (t_outbox (w_db w')). \<not> scope_candidate E n pu [] None s r)
           \<or> more = Some True \<and> backlog pu s (w_db w') < backlog pu s (w_db w))"
  have st: "db_stable E queue_ok" using assms(1) by (rule quiet_stable)
  have x: "default_exclusion = drain_exclusion pu [] None" by (simp add: drain_exclusion_def)
  note claimed = wp_conj [OF wp_conj [OF claim_for_scope_candidates [OF st assms(2), of pu None s n u "[]", folded x]
      keeps_wp [OF keeps_queue_ok_claim_for_scope [OF st]]] claim_for_scope_quiet [OF assms(1,3)]]
  have none: "?Q (Some False) v" if l: "leases_candidates ?P n u (w_db w) [] (w_db v)" for v
    using leases_none [OF l assms(4)] assms(2,3) by (auto simp: swept_def simp del: split_paired_All)
  have sweep: "wp (thenE (for_each (write_discarded E) rows) (ret (Some True))) ?Q (\<lambda>(_ :: 'e) _. False) v"
    if l: "leases_candidates ?P n u (w_db w) rows (w_db v)" and ne: "rows \<noteq> []" and v: "queue_ok (w_db v)" for rows v
  proof -
    let ?t = "t_outbox (w_db w)"
    obtain taken where t: "taken \<subseteq> {r \<in> set ?t. ?P r}" "rows = map (leased u) (filter (\<lambda>r. r \<in> taken) ?t)"
        "w_db v = (w_db w)\<lparr>t_outbox := map (\<lambda>r. if r \<in> taken then leased u r else r) ?t\<rparr>"
      using l unfolding leases_candidates_def by blast
    have sub: "taken \<subseteq> set ?t" using t(1) by blast
    obtain r0 where r0: "r0 \<in> taken" "r0 \<in> set ?t" "matches_row pu s r0"
      using ne t(1,2) by (auto simp: filter_empty_conv scope_candidate_def)
    have frame: "in_ledger k (w_db v) = in_ledger k (w_db w)" "final_in st k (w_db v) = final_in st k (w_db w)" for k st
      by (simp_all add: t(3) in_ledger_def final_in_def)
    have key: "in_ledger (outbox_key r) (w_db w)" if "r \<in> set ?t" for r
      using assms(2) that unfolding queue_ok_def in_ledger_def by (metis image_eqI)
    note fin = discarded_writer.batch_finalizes [OF assms(1), of rows v]
    have out: "filter (\<lambda>r. ob_comms_request_id r \<notin> ob_comms_request_id ` set rows) (t_outbox (w_db v))
        = filter (\<lambda>r. r \<notin> taken) ?t"
      using leased_inj_ids [OF queue_okD [OF assms(2)] sub, of u] by (simp add: t(2,3))
    have "keeps (db_inv queue_ok) (for_each (write_discarded E) rows)"
      by (rule discarded_writer.batch_keeps [OF st]) simp
    then have "wp (for_each (write_discarded E) rows) (\<lambda>_. db_inv queue_ok) (\<lambda>_. db_inv queue_ok) v"
      by (rule keeps_wp) (simp add: db_inv_def v)
    note both = wp_conj [OF fin [unfolded out frame] this]
    have "wp (for_each (write_discarded E) rows) (\<lambda>_. ?Q (Some True)) (\<lambda>(_ :: 'e) _. False) v"
    proof (rule wp_mono [OF both], goal_cases)
      case (1 _ v')
      then have o: "t_outbox (w_db v') = filter (\<lambda>r. r \<notin> taken) ?t" by blast
      have "final_in ''discarded'' (outbox_key r) (w_db v')" if "r \<in> taken" for r
      proof -
        have "leased u r \<in> set rows" using that sub by (auto simp: t(2))
        moreover have k: "outbox_key (leased u r) = outbox_key r" by (simp add: outbox_key_def)
        moreover have "in_ledger (outbox_key (leased u r)) (w_db w)" unfolding k using key that sub by blast
        moreover have "\<forall>row \<in> set rows. in_ledger (outbox_key row) (w_db w) \<longrightarrow> final_in ''discarded'' (outbox_key row) (w_db v')"
          using 1 by blast
        ultimately show ?thesis by (metis (no_types))
      qed
      then have "swept pu s (w_db w) (w_db v')"
        using t(1) by (auto simp: swept_def o scope_candidate_def)
      moreover have "backlog pu s (w_db v') < backlog pu s (w_db w)"
        unfolding backlog_def o using r0 by (intro filter_shrinks)
      moreover have "roomy 1 (w_db v')" using assms(3) by (simp add: roomy_def o)
      ultimately show ?case using 1 by (simp add: db_inv_def del: split_paired_All)
    qed simp
    then show ?thesis by (rule wp_bindI) (simp add: wp_ret del: split_paired_All)
  qed
  show ?thesis
    unfolding wp_bindE [of "attempt _"] wp_attempt
    by (rule wp_mono [OF claimed]) (use assms(1,2) none sweep in \<open>auto simp: wp_ret db_inv_def simp del: split_paired_All\<close>)
qed

lemma swept_refl: "swept pu s d d"
  by (simp add: swept_def)

lemma swept_trans:
  assumes "swept pu s d d'" and "swept pu s d' d''"
    and "\<And>k. final_in ''discarded'' k d' \<Longrightarrow> final_in ''discarded'' k d''"
  shows "swept pu s d d''"
  using assms unfolding swept_def by blast

lemma wp_discard_Suc:
  "wp (discard_engaged_scope (Suc fuel) E pu s n) Q R w =
   wp (bindE (attempt (claim_for_scope E pu None s n (e_clock E (w_tick w) + LEASE_DURATION) default_exclusion)) (\<lambda>r. case r of
        Inl _ \<Rightarrow> ret None | Inr rows \<Rightarrow> if rows = [] then ret (Some False)
          else thenE (for_each (write_discarded E) rows) (ret (Some True))))
     (\<lambda>more. wp (if more = Some False then ret True else discard_engaged_scope fuel E pu s n) Q R) R
     (w\<lparr>w_tick := Suc (w_tick w)\<rparr>)"
proof -
  have fold: "wp (thenE m (ret (Some True))) (\<lambda>more. wp (if more = Some False then ret True else k) Q R) R v
      = wp (thenE m k) Q R v" for m k v
    by (simp add: wp_bindE wp_ret_eta)
  show ?thesis
    unfolding discard_engaged_scope.simps wp_bindE [of "utc_now E"] wp_utc_now wp_bindE [of "attempt _"] wp_attempt
    by (intro arg_cong2 [where f = "\<lambda>q r. wp (claim_for_scope E pu None s n _ default_exclusion) q r _"] ext)
      (simp_all add: wp_ret wp_ret_eta fold)
qed

lemma discard_sweeps:
  fixes w :: "'z world_scheme"
  assumes "quiet E" and "0 < n" and "queue_ok (w_db w)" and "roomy 1 (w_db w)" and "backlog pu s (w_db w) < fuel"
  shows "wp (discard_engaged_scope fuel E pu s n)
     (\<lambda>finished w'. finished \<and> swept pu s (w_db w) (w_db w')
        \<and> (\<forall>k. final_in ''discarded'' k (w_db w) \<longrightarrow> final_in ''discarded'' k (w_db w'))
        \<and> (\<exists>k. \<forall>r \<in> set (t_outbox (w_db w')). \<not> scope_candidate E k pu [] None s r))
     (\<lambda>(_ :: 'e) _. False) w"
  using assms(3-5)
proof (induction fuel arbitrary: w)
  case (Suc fuel)
  show ?case
    unfolding wp_discard_Suc
  proof (rule wp_mono [OF discard_batch [OF assms(1) _ _ assms(2)]], goal_cases)
    case (3 more v)
    then consider "more = Some False" "\<exists>k. \<forall>r \<in> set (t_outbox (w_db v)). \<not> scope_candidate E k pu [] None s r"
      | "more = Some True" "backlog pu s (w_db v) < backlog pu s (w_db w)" by auto
    then show ?case
    proof cases
      case 1
      with 3 show ?thesis by (simp add: wp_ret del: split_paired_All)
    next
      case 2
      have sw: "swept pu s (w_db w) (w_db v)"
        and mono: "\<forall>k. final_in ''discarded'' k (w_db w) \<longrightarrow> final_in ''discarded'' k (w_db v)"
        using 3 by simp_all
      have "wp (discard_engaged_scope fuel E pu s n) (\<lambda>finished w'. finished \<and> swept pu s (w_db v) (w_db w')
          \<and> (\<forall>k. final_in ''discarded'' k (w_db v) \<longrightarrow> final_in ''discarded'' k (w_db w'))
          \<and> (\<exists>k. \<forall>r \<in> set (t_outbox (w_db w')). \<not> scope_candidate E k pu [] None s r)) (\<lambda>(_ :: 'e) _. False) v"
        by (rule Suc.IH) (use 3 2 Suc.prems in auto)
      then have "wp (discard_engaged_scope fuel E pu s n) (\<lambda>finished w'. finished \<and> swept pu s (w_db w) (w_db w')
          \<and> (\<forall>k. final_in ''discarded'' k (w_db w) \<longrightarrow> final_in ''discarded'' k (w_db w'))
          \<and> (\<exists>k. \<forall>r \<in> set (t_outbox (w_db w')). \<not> scope_candidate E k pu [] None s r)) (\<lambda>(_ :: 'e) _. False) v"
      proof (rule wp_mono)
        fix finished and v' :: "'z world_scheme"
        assume v': "finished \<and> swept pu s (w_db v) (w_db v')
          \<and> (\<forall>k. final_in ''discarded'' k (w_db v) \<longrightarrow> final_in ''discarded'' k (w_db v'))
          \<and> (\<exists>k. \<forall>r \<in> set (t_outbox (w_db v')). \<not> scope_candidate E k pu [] None s r)"
        then have "swept pu s (w_db w) (w_db v')" by (intro swept_trans [OF sw]) blast+
        with v' mono show "finished \<and> swept pu s (w_db w) (w_db v')
          \<and> (\<forall>k. final_in ''discarded'' k (w_db w) \<longrightarrow> final_in ''discarded'' k (w_db v'))
          \<and> (\<exists>k. \<forall>r \<in> set (t_outbox (w_db v')). \<not> scope_candidate E k pu [] None s r)" by blast
      qed
      then show ?thesis using 2(1) by simp
    qed
  qed (use Suc.prems in simp_all)
qed simp



end
