(* ===== verification/Dispatcher.thy ===== *)
theory Dispatcher
  imports Drain
begin

text \<open>
  The dispatcher process (\<open>bin/dispatcher.rs\<close>, \<open>dispatcher/leader.rs\<close>): winning the leader lock, and the
  concurrent tasks that share the kill-switch cache and the map of draining switches.

  The tasks run on a multi-threaded runtime.  The steps they take between locks are the rules of
  \<open>task_step\<close>: the refresh loop swaps the cache and then, in a second step, hands the difference to
  \<open>on_delta\<close>; a claim loop snapshots the cache and then reads the draining map; a drain that
  has finished removes its switch.
\<close>

section \<open>Leadership\<close>

text \<open>\<open>connect\<close> and \<open>try_lock\<close> are the outcomes of the connection attempt and of
  \<open>pg_try_advisory_lock\<close> at each turn; the value is the number of turns until the lock was won.\<close>

fun acquire :: "nat \<Rightarrow> (nat \<Rightarrow> bool) \<Rightarrow> (nat \<Rightarrow> sqlx_error + bool) \<Rightarrow> nat \<Rightarrow> nat option" where
  "acquire 0 connect try_lock turn = None"
| "acquire (Suc fuel) connect try_lock turn =
     (if \<not> connect turn then acquire fuel connect try_lock (Suc turn)
      else case try_lock turn of
        Inr True \<Rightarrow> Some turn
      | Inr False \<Rightarrow> acquire fuel connect try_lock (Suc turn)
      | Inl _ \<Rightarrow> acquire fuel connect try_lock (Suc turn))"

lemma acquire_Some:
  "acquire fuel connect try_lock turn = Some k \<Longrightarrow>
   turn \<le> k \<and> connect k \<and> try_lock k = Inr True \<and> (\<forall>j. turn \<le> j \<and> j < k \<longrightarrow> \<not> (connect j \<and> try_lock j = Inr True))"
proof (induction fuel arbitrary: turn)
  case (Suc fuel)
  show ?case
  proof (cases "connect turn \<and> try_lock turn = Inr True")
    case True
    with Suc.prems show ?thesis by auto
  next
    case False
    then have "acquire fuel connect try_lock (Suc turn) = Some k"
      using Suc.prems by (auto split: if_splits sum.splits bool.splits)
    from Suc.IH [OF this] False show ?thesis by (metis Suc_leD Suc_leI le_neq_implies_less)
  qed
qed simp

section \<open>Reacting to a refresh\<close>

datatype spawned = SpawnDiscard kill_switch | SpawnDrain kill_switch

definition on_delta :: "refresh_delta \<Rightarrow> (uuid \<times> kill_switch) list \<Rightarrow> spawned list \<times> (uuid \<times> kill_switch) list" where
  "on_delta delta draining =
    (let discards = filter (\<lambda>s. ks_on_queued s = DISCARD) (rd_newly_engaged delta);
         drains = filter (\<lambda>s. ks_on_queued s = HOLD) (rd_released delta)
     in (map SpawnDiscard discards @ map SpawnDrain drains,
         foldl (\<lambda>m s. AList.update (ks_id s) s m) draining drains))"

lemma on_delta_keys:
  "fst ` set (snd (on_delta delta m)) =
     fst ` set m \<union> ks_id ` {s \<in> set (rd_released delta). ks_on_queued s = HOLD}"
proof -
  have "fst ` set (foldl (\<lambda>m s. AList.update (ks_id s) s m) m ss) = fst ` set m \<union> ks_id ` set ss" for ss
  proof (induction ss arbitrary: m)
    case (Cons s ss)
    have "fst ` set (AList.update (ks_id s) s m) = insert (ks_id s) (fst ` set m)"
      by (simp add: dom_update)
    with Cons show ?case by simp
  qed simp
  then show ?thesis by (simp add: on_delta_def Let_def)
qed

section \<open>The tasks\<close>

record tasks =
  r_cache :: active_set
  r_pending :: "refresh_delta option"
  r_draining :: "(uuid \<times> kill_switch) list"
  r_snapshot :: "kill_switch list option"
  r_excluding :: "kill_switch list option"

text \<open>\<open>r_pending\<close> is the difference between the swap and \<open>on_delta\<close>, \<open>r_snapshot\<close> what a claim loop has read
  of the cache, \<open>r_excluding\<close> the switches its exclusion is then built from.  \<open>gap_free\<close> asks that no claim
  loop reads the draining map between the two steps of a refresh.  The \<open>on_queued\<close> of a switch never
  changes: it is \<open>hold\<close> for the switch \<open>i\<close> followed here.\<close>

inductive task_step :: "bool \<Rightarrow> uuid \<Rightarrow> tasks \<Rightarrow> tasks \<Rightarrow> bool" for gap_free :: bool and i :: uuid where
  swap: "r_pending t = None \<Longrightarrow> swap_in fresh rows (r_cache t) = (delta, a) \<Longrightarrow>
     (\<And>s. s \<in> set fresh \<Longrightarrow> ks_id s = i \<Longrightarrow> ks_on_queued s = HOLD) \<Longrightarrow>
     task_step gap_free i t (t\<lparr>r_cache := a, r_pending := Some delta\<rparr>)"
| react: "r_pending t = Some delta \<Longrightarrow>
     task_step gap_free i t (t\<lparr>r_pending := None, r_draining := snd (on_delta delta (r_draining t))\<rparr>)"
| snapshot: "task_step gap_free i t (t\<lparr>r_snapshot := Some (active_snapshot (r_cache t))\<rparr>)"
| build: "r_snapshot t = Some ss \<Longrightarrow> (gap_free \<Longrightarrow> r_pending t = None) \<Longrightarrow>
     task_step gap_free i t (t\<lparr>r_snapshot := None, r_excluding := Some (ss @ map snd (r_draining t))\<rparr>)"
| drained: "j \<noteq> i \<Longrightarrow>
     task_step gap_free i t (t\<lparr>r_draining := filter (\<lambda>e. fst e \<noteq> j) (r_draining t)\<rparr>)"

text \<open>Runs in which the drain of switch \<open>i\<close> does not finish.\<close>

inductive task_run :: "bool \<Rightarrow> uuid \<Rightarrow> tasks \<Rightarrow> tasks \<Rightarrow> bool" for gap_free :: bool and i :: uuid where
  refl: "task_run gap_free i t t"
| step: "task_run gap_free i t u \<Longrightarrow> task_step gap_free i u v \<Longrightarrow> task_run gap_free i t v"

inductive_cases task_stepE: "task_step gap_free i t u"

section \<open>A released switch stays excluded\<close>

definition held_back :: "uuid \<Rightarrow> tasks \<Rightarrow> bool" where
  "held_back i t \<longleftrightarrow> i \<in> fst ` set (r_draining t)
     \<or> (case r_pending t of None \<Rightarrow> False | Some delta \<Rightarrow> \<exists>s \<in> set (rd_released delta). ks_id s = i \<and> ks_on_queued s = HOLD)"

definition task_inv :: "uuid \<Rightarrow> tasks \<Rightarrow> bool" where
  "task_inv i t \<longleftrightarrow> cache_ok (r_cache t)
     \<and> (\<forall>s. (i, s) \<in> set (as_switches (r_cache t)) \<longrightarrow> ks_on_queued s = HOLD)
     \<and> (\<forall>(j, s) \<in> set (r_draining t). ks_id s = j)
     \<and> (i \<in> cached_ids (r_cache t) \<or> held_back i t)
     \<and> (\<forall>ss. r_snapshot t = Some ss \<longrightarrow> i \<in> ks_id ` set ss \<or> held_back i t)
     \<and> (\<forall>xs. r_excluding t = Some xs \<longrightarrow> i \<in> ks_id ` set xs)"

lemma draining_keyed:
  assumes "\<forall>(j, s) \<in> set m. ks_id s = j"
  shows "\<forall>(j, s) \<in> set (snd (on_delta delta m)). ks_id s = j"
proof -
  have "\<forall>(j, s) \<in> set (foldl (\<lambda>m s. AList.update (ks_id s) s m) m ss). ks_id s = j" for ss
    using assms
  proof (induction ss arbitrary: m)
    case (Cons s ss)
    have "set (AList.update (ks_id s) s m) \<subseteq> insert (ks_id s, s) (set m)" by (induction m) auto
    with Cons.prems have "\<forall>(j, x) \<in> set (AList.update (ks_id s) s m). ks_id x = j" by auto
    from Cons.IH [OF this] show ?case by simp
  qed simp
  then show ?thesis by (simp add: on_delta_def Let_def)
qed

lemma as_kill_switch_hold [simp]: "ks_on_queued (as_kill_switch p) = HOLD"
  by (simp add: as_kill_switch_def)

lemma fresh_hold:
  assumes "cache_ok a" and "\<And>s. s \<in> set fresh \<Longrightarrow> ks_id s = i \<Longrightarrow> ks_on_queued s = HOLD"
    and "\<And>s. (i, s) \<in> set (as_switches a) \<Longrightarrow> ks_on_queued s = HOLD"
    and "s \<in> set (fresh_list fresh rows a)" and "ks_id s = i"
  shows "ks_on_queued s = HOLD"
proof (cases "s \<in> set fresh")
  case True
  with assms(2,5) show ?thesis by blast
next
  case False
  then consider "\<exists>p. s = as_kill_switch p" | "s \<in> set (carried a)"
    using assms(4) by (auto simp: fresh_list_def split: option.splits)
  then show ?thesis
  proof cases
    case 2
    then obtain j where j: "(j, s) \<in> set (as_switches a)" by (auto simp: set_carried [OF assms(1)])
    moreover have "ks_id s = j" using j assms(1) unfolding cache_ok_def by fastforce
    ultimately show ?thesis using assms(3,5) by simp
  qed auto
qed

lemma task_inv_swap:
  assumes inv: "task_inv i t" and "r_pending t = None" and sw: "swap_in fresh rows (r_cache t) = (delta, a)"
    and hold: "\<And>s. s \<in> set fresh \<Longrightarrow> ks_id s = i \<Longrightarrow> ks_on_queued s = HOLD"
  shows "task_inv i (t\<lparr>r_cache := a, r_pending := Some delta\<rparr>)"
proof -
  let ?u = "t\<lparr>r_cache := a, r_pending := Some delta\<rparr>"
  have ok: "cache_ok (r_cache t)" and old: "(i, s) \<in> set (as_switches (r_cache t)) \<Longrightarrow> ks_on_queued s = HOLD" for s
    using inv by (auto simp: task_inv_def)
  have a: "as_switches a = by_id (fresh_list fresh rows (r_cache t))"
    using sw by (auto simp: swap_in_eq)
  have "ks_on_queued s = HOLD" if "(i, s) \<in> set (as_switches a)" for s
    using by_id_entry [of i s] that fresh_hold [OF ok hold old, where rows = rows and s = s] unfolding a by blast
  moreover have "cache_ok a" using swap_in_ok [OF ok, of fresh rows] by (simp add: sw)
  moreover have released: "held_back i ?u" if "i \<in> cached_ids (r_cache t)" "i \<notin> cached_ids a"
  proof -
    have "i \<in> ks_id ` set (rd_released delta)" using that swap_in_ids(2) [OF ok sw] by simp
    then obtain s where s: "s \<in> set (rd_released delta)" "ks_id s = i" by auto
    then have "s \<in> set (active_snapshot (r_cache t))" using sw by (auto simp: swap_in_eq)
    then obtain j where "(j, s) \<in> set (as_switches (r_cache t))" by (auto simp: active_snapshot_def)
    moreover from this have "ks_id s = j" using ok unfolding cache_ok_def by fastforce
    ultimately have "ks_on_queued s = HOLD" using old s(2) by simp
    with s show ?thesis by (auto simp: held_back_def)
  qed
  moreover have "held_back i ?u" if "held_back i t" using that assms(2) by (simp add: held_back_def)
  ultimately show ?thesis using inv by (auto simp: task_inv_def)
qed

lemma task_inv_step: "task_step True i t u \<Longrightarrow> task_inv i t \<Longrightarrow> task_inv i u"
proof (induction rule: task_step.induct)
  case (swap t fresh rows delta a)
  then show ?case by (intro task_inv_swap)
next
  case (react t delta)
  have "held_back i (t\<lparr>r_pending := None, r_draining := snd (on_delta delta (r_draining t))\<rparr>) = held_back i t"
    using react(1) on_delta_keys [of delta "r_draining t"] by (auto simp: held_back_def)
  moreover have "\<forall>(j, s) \<in> set (snd (on_delta delta (r_draining t))). ks_id s = j"
    using react(2) by (intro draining_keyed) (simp add: task_inv_def)
  ultimately show ?case using react(2) by (simp add: task_inv_def)
next
  case (snapshot t)
  have "held_back i (t\<lparr>r_snapshot := x\<rparr>) = held_back i t" for x by (simp add: held_back_def)
  with snapshot show ?case
    using ids_snapshot [of "r_cache t"] by (auto simp: task_inv_def)
next
  case (build t ss)
  have keyed: "\<forall>(j, s) \<in> set (r_draining t). ks_id s = j" and "i \<in> ks_id ` set ss \<or> held_back i t"
    using build(1,3) by (simp_all add: task_inv_def)
  then have "i \<in> ks_id ` set ss \<or> i \<in> fst ` set (r_draining t)"
    using build(2) by (simp add: held_back_def)
  moreover have "fst ` set (r_draining t) = (\<lambda>e. ks_id (snd e)) ` set (r_draining t)"
    by (rule image_cong) (use keyed in auto)
  then have "fst ` set (r_draining t) = ks_id ` set (map snd (r_draining t))" by (simp add: image_image)
  moreover have "held_back i (t\<lparr>r_snapshot := x, r_excluding := y\<rparr>) = held_back i t" for x y by (simp add: held_back_def)
  ultimately show ?case using build(3) by (simp add: task_inv_def image_Un)
next
  case (drained j t)
  have "i \<in> fst ` set (filter (\<lambda>e. fst e \<noteq> j) (r_draining t)) \<longleftrightarrow> i \<in> fst ` set (r_draining t)"
    using drained(1) by force
  then have "held_back i (t\<lparr>r_draining := filter (\<lambda>e. fst e \<noteq> j) (r_draining t)\<rparr>) = held_back i t"
    by (simp add: held_back_def)
  with drained(2) show ?case by (auto simp: task_inv_def)
qed

section \<open>Properties\<close>

text \<open>C33: A released switch is never dropped by the claim loops: as long as no claim loop reads the draining
  map between a refresh's swap and its reaction, every exclusion built from the moment a
  \<open>hold\<close> switch is engaged until its drain finishes contains that switch, whatever refreshes,
  releases and other drains happen in between.\<close>

theorem released_switch_stays_excluded:
  assumes "task_run True i t u" and "task_inv i t" and "r_excluding u = Some xs"
  shows "\<exists>s \<in> set xs. ks_id s = i"
proof -
  from assms(1,2) have "task_inv i u"
    by (induction rule: task_run.induct) (auto intro: task_inv_step)
  with assms(3) show ?thesis by (auto simp: task_inv_def)
qed

definition engaged_tasks :: tasks where
  "engaged_tasks = \<lparr>r_cache = \<lparr>as_switches = [(5, sample_global)], as_platform_ids = []\<rparr>, r_pending = None,
     r_draining = [], r_snapshot = None, r_excluding = None\<rparr>"

lemma engaged_tasks_inv: "task_inv 5 engaged_tasks"
  by (simp add: task_inv_def engaged_tasks_def cache_ok_def sample_global_def)

theorem released_switch_stays_excluded_witness:
  "\<exists>s \<in> set (active_snapshot (r_cache engaged_tasks) @ map snd (r_draining engaged_tasks)). ks_id s = 5"
proof (rule released_switch_stays_excluded [OF _ engaged_tasks_inv])
  let ?u = "engaged_tasks\<lparr>r_snapshot := Some (active_snapshot (r_cache engaged_tasks))\<rparr>"
  have "task_run True 5 engaged_tasks ?u" by (rule task_run.step [OF task_run.refl task_step.snapshot])
  then show "task_run True 5 engaged_tasks (?u\<lparr>r_snapshot := None,
      r_excluding := Some (active_snapshot (r_cache engaged_tasks) @ map snd (r_draining ?u))\<rparr>)"
    by (rule task_run.step, intro task_step.build) (simp_all add: engaged_tasks_def)
qed (simp add: engaged_tasks_def)


end
