(* ===== verification/Command.thy ===== *)
theory Command
  imports Dek
begin

text \<open>
  What the operator commands share: opening the pool of one tenant (\<open>tenant/pool.rs\<close>,
  \<open>db.rs\<close>), the tenant's HMAC pepper (\<open>tenant_pepper.rs\<close>), the resolution of a tenant by its slug
  that every command starts with, and the load, compare, write, audit sequence the setters of
  one row repeat.  The contract of such a setter is the locale \<open>row_setting\<close>; the components
  interpret it on their own rows.

  \<open>parsed\<close> is what \<open>sqlx\<close> makes of the base database URL.  Opening a pool is one interaction
  that may fail.
\<close>

section \<open>Tenant pools\<close>

text \<open>\<open>current_database()\<close> of a connection is the name the options carry; a different expectation
  panics.\<close>

definition connect_with_expected_database :: "env \<Rightarrow> string \<Rightarrow> string \<Rightarrow> ('z world_scheme, sqlx_error, unit) io" where
  "connect_with_expected_database E database_name expected w =
    (let w' = w\<lparr>w_tick := Suc (w_tick w)\<rparr> in
     if e_fault E (w_tick w) \<noteq> NoFault then (Inl Io, w')
     else if database_name \<noteq> expected then (Inl (Panic ''tenant pool mis-routed''), w')
     else (Inr (), w'))"

definition connect_tenant_pool :: "env \<Rightarrow> sqlx_error + unit \<Rightarrow> uuid \<Rightarrow> string \<Rightarrow> ('z world_scheme, sqlx_error, uuid) io" where
  "connect_tenant_pool E parsed tenant_id database_name =
     thenE (of_result parsed)
     (bindE (bindE (find_by_id E tenant_id) (\<lambda>found. of_result (ok_or (Configuration ''no tenant registered with id'') found)))
       (\<lambda>tenant. thenE (connect_with_expected_database E database_name (tn_database_name tenant)) (ret tenant_id)))"

lemma wp_connect_with_expected_database [wp_simps]:
  "wp (connect_with_expected_database E n x) Q R w = (let w' = w\<lparr>w_tick := Suc (w_tick w)\<rparr> in
     if e_fault E (w_tick w) \<noteq> NoFault then R Io w'
     else if n \<noteq> x then R (Panic ''tenant pool mis-routed'') w' else Q () w')"
  by (simp add: wp_def connect_with_expected_database_def Let_def)

section \<open>The tenant pepper\<close>

datatype vault_error = VaultDatabase sqlx_error | VaultStore keystore_error

definition ensure_tenant_pepper :: "env \<Rightarrow> keystore \<Rightarrow> tenant_row \<Rightarrow> ('z world_scheme, vault_error, bytes) io" where
  "ensure_tenant_pepper E K tenant =
     (case tn_vault_pepper_wrapped tenant of
        Some wrapped \<Rightarrow> map_err VaultStore (unwrap_dek K (tn_vault_mount tenant) wrapped)
      | None \<Rightarrow>
         bindE (map_err VaultStore (create_dek K (tn_vault_mount tenant))) (\<lambda>secret.
         thenE (map_err VaultDatabase (record_vault_pepper_wrapped E (tn_id tenant) (snd secret)))
           (ret (fst secret))))"

section \<open>Resolving the tenant of a command\<close>

abbreviation no_tenant :: sqlx_error where
  "no_tenant \<equiv> Configuration ''no tenant registered with slug''"

text \<open>Readers reject an unknown slug silently; writers run \<open>reject\<close>, which audits, first.\<close>

definition resolve_tenant :: "env \<Rightarrow> string \<Rightarrow> ('z world_scheme, sqlx_error, tenant_row) io" where
  "resolve_tenant E slug = bindE (find_by_slug E slug) (\<lambda>found. of_result (ok_or no_tenant found))"

definition resolve_or_reject :: "env \<Rightarrow> string \<Rightarrow> ('z world_scheme, sqlx_error, unit) io
    \<Rightarrow> ('z world_scheme, sqlx_error, tenant_row) io" where
  "resolve_or_reject E slug reject = bindE (find_by_slug E slug) (\<lambda>found.
     case found of
       Some tenant \<Rightarrow> ret tenant
     | None \<Rightarrow> thenE reject (throw no_tenant))"

text \<open>A command on one tenant: resolve it, open its pool, run the body.  \<open>g\<close> is the \<open>From\<close>
  conversion into the command's error type.\<close>

definition tenant_command :: "(sqlx_error \<Rightarrow> 'e) \<Rightarrow> env \<Rightarrow> sqlx_error + unit \<Rightarrow> string
    \<Rightarrow> ('z world_scheme, sqlx_error, unit) io \<Rightarrow> (tenant_row \<Rightarrow> ('z world_scheme, 'e, 'a) io)
    \<Rightarrow> ('z world_scheme, 'e, 'a) io" where
  "tenant_command g E parsed slug reject body =
     bindE (map_err g (resolve_or_reject E slug reject)) (\<lambda>tenant.
     thenE (map_err g (connect_tenant_pool E parsed (tn_id tenant) (tn_database_name tenant)))
       (body tenant))"

definition tenant_read :: "(sqlx_error \<Rightarrow> 'e) \<Rightarrow> env \<Rightarrow> sqlx_error + unit \<Rightarrow> string
    \<Rightarrow> (tenant_row \<Rightarrow> ('z world_scheme, 'e, 'a) io) \<Rightarrow> ('z world_scheme, 'e, 'a) io" where
  "tenant_read g E parsed slug body =
     bindE (map_err g (resolve_tenant E slug)) (\<lambda>tenant.
     thenE (map_err g (connect_tenant_pool E parsed (tn_id tenant) (tn_database_name tenant)))
       (body tenant))"

text \<open>The body of the setters: what was there decides the outcome, and only a difference is
  written; the outcome is audited.\<close>

definition setting_outcome :: "('r \<Rightarrow> bool) \<Rightarrow> 'r option \<Rightarrow> string" where
  "setting_outcome matches existing =
     (case existing of None \<Rightarrow> ''created'' | Some r \<Rightarrow> if matches r then ''idempotent'' else ''updated'')"

definition configure_row :: "('z world_scheme, sqlx_error, 'r option) io \<Rightarrow> ('r \<Rightarrow> bool)
    \<Rightarrow> ('z world_scheme, sqlx_error, unit) io \<Rightarrow> (string \<Rightarrow> ('z world_scheme, sqlx_error, unit) io)
    \<Rightarrow> ('z world_scheme, sqlx_error, string) io" where
  "configure_row load matches store audit = bindE load (\<lambda>existing.
     let outcome = setting_outcome matches existing in
     thenE (if outcome \<noteq> ''idempotent'' then store else ret ())
       (thenE (audit outcome) (ret outcome)))"


section \<open>One audit row per command\<close>

text \<open>What the audit table says of a command: its action and the outcome it recorded.\<close>

definition audit_log :: "'z world_scheme \<Rightarrow> (string \<times> json option) list" where
  "audit_log w = map (\<lambda>r. (pa_action r, map_of (pa_detail r) ''outcome'')) (c_platform_audit (w_ctl w))"

text \<open>The control database as seen by one operator at a time: calls may fail, nobody else writes.\<close>

definition ctl_quiet :: "env \<Rightarrow> bool" where
  "ctl_quiet E \<longleftrightarrow> (\<forall>n c. e_ctl_interfere E n c = c)"

lemma quiet_ctl_quiet [simp]: "quiet E \<Longrightarrow> ctl_quiet E"
  by (simp add: ctl_quiet_def)

lemma ctl_quietD [simp]: "ctl_quiet E \<Longrightarrow> e_ctl_interfere E n c = c"
  by (simp add: ctl_quiet_def)

definition rejection :: "sqlx_error \<Rightarrow> bool" where
  "rejection e \<longleftrightarrow> (\<exists>s. e = Configuration s)"

lemma rejection_simps [simp]:
  "rejection (Configuration s)" "\<not> rejection Io" "\<not> rejection (Constraint c)" "\<not> rejection (Panic p)"
  "\<not> rejection RowNotFound" "\<not> rejection OutOfRange"
  by (simp_all add: rejection_def)

text \<open>A command of some action: when it returns, one row with the outcome it returns has been added;
  when it rejects its input, one row that says so; after any other error, at most one row.\<close>

definition returns_logged :: "string \<Rightarrow> string \<Rightarrow> 'z world_scheme \<Rightarrow> 'z world_scheme \<Rightarrow> bool" where
  "returns_logged action outcome w w' \<longleftrightarrow> audit_log w' = audit_log w @ [(action, Some (JStr outcome))]"

definition fails_logged :: "string \<Rightarrow> ('e \<Rightarrow> bool) \<Rightarrow> 'e \<Rightarrow> 'z world_scheme \<Rightarrow> 'z world_scheme \<Rightarrow> bool" where
  "fails_logged action rejects e w w' \<longleftrightarrow>
     (rejects e \<longrightarrow> returns_logged action ''rejected'' w w')
   \<and> (audit_log w' = audit_log w \<or> (\<exists>outcome. returns_logged action outcome w w'))"

definition audits_once :: "string \<Rightarrow> ('e \<Rightarrow> bool) \<Rightarrow> ('a \<Rightarrow> string) \<Rightarrow> ('z world_scheme, 'e, 'a) io \<Rightarrow> bool" where
  "audits_once action rejects outcome m \<longleftrightarrow>
     (\<forall>w. wp m (\<lambda>a. returns_logged action (outcome a) w) (\<lambda>e. fails_logged action rejects e w) w)"

text \<open>A step that leaves the audit table alone, and never rejects.\<close>

definition unlogged :: "('e \<Rightarrow> bool) \<Rightarrow> ('z world_scheme, 'e, 'a) io \<Rightarrow> bool" where
  "unlogged rejects m \<longleftrightarrow>
     (\<forall>w. wp m (\<lambda>_ w'. audit_log w' = audit_log w)
            (\<lambda>e w'. audit_log w' = audit_log w \<and> \<not> rejects e) w)"

named_theorems audit_intros \<open>steps that leave the audit table alone, and steps that add their row\<close>

lemma unlogged_ret [audit_intros]: "unlogged rejects (ret a)"
  by (simp add: unlogged_def wp_simps)

lemma unlogged_bindE [audit_intros]:
  assumes "unlogged rejects m" and "\<And>a. unlogged rejects (f a)"
  shows "unlogged rejects (bindE m f)"
  unfolding unlogged_def
proof
  fix w
  show "wp (bindE m f) (\<lambda>_ w'. audit_log w' = audit_log w)
            (\<lambda>e w'. audit_log w' = audit_log w \<and> \<not> rejects e) w"
    by (rule wp_bindI [OF assms(1) [unfolded unlogged_def, rule_format, of w]])
      (rule wp_mono [OF assms(2) [unfolded unlogged_def, rule_format]]; simp)
qed

lemma unlogged_if [audit_intros]: "unlogged rejects m \<Longrightarrow> unlogged rejects m' \<Longrightarrow> unlogged rejects (if b then m else m')"
  by simp

lemma unlogged_map_err [audit_intros]:
  assumes "unlogged (\<lambda>e. rejects (g e)) m"
  shows "unlogged rejects (map_err g m)"
  using assms by (simp add: unlogged_def wp_map_err)

lemma unlogged_stmt:
  assumes "\<And>n d e. f n d = Inl e \<Longrightarrow> \<not> rejection e"
  shows "unlogged rejection (stmt E f)"
  using assms by (auto simp: unlogged_def wp_simps Let_def audit_log_def split: sum.splits fault.splits)

lemma unlogged_query [audit_intros]: "unlogged rejection (query E f)"
  unfolding query_def by (rule unlogged_stmt) simp

lemma unlogged_exec [audit_intros]: "unlogged rejection (exec E f)"
  unfolding exec_def by (rule unlogged_stmt) simp

lemma unlogged_utc_now [audit_intros]: "unlogged rejects (utc_now E)"
  by (simp add: unlogged_def wp_simps audit_log_def)

lemma unlogged_new_uuid [audit_intros]: "unlogged rejects (new_uuid E)"
  by (simp add: unlogged_def wp_simps audit_log_def)

lemma unlogged_vault [audit_intros]:
  "(\<And>e. \<not> rejects e) \<Longrightarrow> unlogged rejects (create_dek K m)"
  "(\<And>e. \<not> rejects e) \<Longrightarrow> unlogged rejects (unwrap_dek K m x)"
  by (auto simp: unlogged_def wp_simps audit_log_def split: sum.splits)

lemma unlogged_ctl_query: "ctl_quiet E \<Longrightarrow> unlogged rejection (ctl_query E f)"
  by (simp add: unlogged_def wp_simps Let_def audit_log_def)

lemma unlogged_ctl_stmt:
  assumes "ctl_quiet E" and "\<And>n c a c'. f n c = Inr (a, c') \<Longrightarrow> c_platform_audit c' = c_platform_audit c"
    and "\<And>n c e. f n c = Inl e \<Longrightarrow> \<not> rejection e"
  shows "unlogged rejection (ctl_stmt E f)"
  using assms by (auto simp: unlogged_def wp_simps Let_def audit_log_def split: sum.splits fault.splits)

lemma unlogged_ctl_exec:
  "ctl_quiet E \<Longrightarrow> (\<And>n c. c_platform_audit (f n c) = c_platform_audit c) \<Longrightarrow> unlogged rejection (ctl_exec E f)"
  unfolding ctl_exec_def by (rule unlogged_ctl_stmt) auto

definition vault_rejection :: "vault_error \<Rightarrow> bool" where
  "vault_rejection e \<longleftrightarrow> (\<exists>s. e = VaultDatabase (Configuration s))"

lemma vault_rejection_simps [simp]:
  "vault_rejection (VaultDatabase e) = rejection e" "\<not> vault_rejection (VaultStore k)"
  by (auto simp: vault_rejection_def rejection_def)

lemma unlogged_ensure_tenant_pepper: "ctl_quiet E \<Longrightarrow> unlogged vault_rejection (ensure_tenant_pepper E K t)"
  unfolding ensure_tenant_pepper_def record_vault_pepper_wrapped_def
  by (auto split: option.splits intro!: audit_intros unlogged_ctl_exec)

lemma audits_once_bindE:
  assumes "unlogged rejects m" and "\<And>a. audits_once action rejects outcome (f a)"
  shows "audits_once action rejects outcome (bindE m f)"
  unfolding audits_once_def
proof
  fix w
  have "wp m (\<lambda>_ w'. audit_log w' = audit_log w) (\<lambda>e. fails_logged action rejects e w) w"
    by (rule wp_mono [OF assms(1) [unfolded unlogged_def, rule_format, of w]]) (auto simp: fails_logged_def)
  then show "wp (bindE m f) (\<lambda>a. returns_logged action (outcome a) w) (\<lambda>e. fails_logged action rejects e w) w"
    by (rule wp_bindI) (rule wp_mono [OF assms(2) [unfolded audits_once_def, rule_format]];
        simp add: returns_logged_def fails_logged_def)
qed

lemma audits_once_if:
  "(b \<Longrightarrow> audits_once action rejects outcome m) \<Longrightarrow> (\<not> b \<Longrightarrow> audits_once action rejects outcome m')
   \<Longrightarrow> audits_once action rejects outcome (if b then m else m')"
  by simp

lemma audits_once_case_option:
  "(x = None \<Longrightarrow> audits_once action rejects outcome m) \<Longrightarrow> (\<And>a. x = Some a \<Longrightarrow> audits_once action rejects outcome (f a))
   \<Longrightarrow> audits_once action rejects outcome (case x of None \<Rightarrow> m | Some a \<Rightarrow> f a)"
  by (simp split: option.splits)

lemma audits_once_map_err:
  assumes "audits_once action (\<lambda>e. rejects (g e)) outcome m"
  shows "audits_once action rejects outcome (map_err g m)"
  using assms by (simp add: audits_once_def wp_map_err fails_logged_def [abs_def])

text \<open>The audit write itself.\<close>

lemma audit_record_logs:
  assumes "ctl_quiet E" and "map_of detail ''outcome'' = Some (JStr out)"
  shows "wp (audit_record E actor action tenant detail)
     (\<lambda>_ w'. returns_logged action out w w' \<and> c_tenant (w_ctl w') = c_tenant (w_ctl w) \<and> w_db w' = w_db w)
     (\<lambda>e w'. \<not> rejection e \<and> (audit_log w' = audit_log w \<or> returns_logged action out w w')) w"
  using assms by (auto simp: audit_record_def wp_simps Let_def record_tx_def ins_pk_def audit_log_def
      returns_logged_def split: sum.splits fault.splits if_splits)

lemma audits_record_then_ret:
  assumes "ctl_quiet E" and "map_of detail ''outcome'' = Some (JStr (outcome a))"
  shows "audits_once action rejection outcome (thenE (audit_record E actor action tenant detail) (ret a))"
  unfolding audits_once_def wp_bindE wp_ret
  by (intro allI wp_mono [OF audit_record_logs [OF assms]]) (auto simp: fails_logged_def)

lemma audits_record_then_reject:
  assumes "ctl_quiet E" and "map_of detail ''outcome'' = Some (JStr ''rejected'')"
  shows "audits_once action rejection outcome (thenE (audit_record E actor action tenant detail) (throw (Configuration s)))"
  unfolding audits_once_def wp_bindE wp_throw
  by (intro allI wp_mono [OF audit_record_logs [OF assms]]) (auto simp: fails_logged_def)


lemma connect_tenant_pool_unlogged:
  assumes "ctl_quiet E" and "t \<in> set (c_tenant (w_ctl w))"
  shows "wp (connect_tenant_pool E (Inr ()) (tn_id t) db)
     (\<lambda>_ w'. audit_log w' = audit_log w \<and> w_db w' = w_db w) (\<lambda>e w'. audit_log w' = audit_log w \<and> \<not> rejection e) w"
proof -
  have "find_tenant (tn_id t) (w_ctl w) \<noteq> None"
    using assms(2) by (auto simp: find_tenant_def find_row_None)
  then show ?thesis using assms(1)
    by (auto simp: connect_tenant_pool_def find_by_id_def wp_simps Let_def audit_log_def ok_or_def split: option.splits)
qed

lemma audits_tenant_command:
  fixes m :: "tenant_row \<Rightarrow> ('z world_scheme, 'e, 'a) io"
  assumes E: "ctl_quiet E" and "map_of detail ''outcome'' = Some (JStr ''rejected'')"
    and m: "\<And>t. audits_once action rejects outcome (m t)" and g: "\<And>e. rejects (g e) = rejection e"
  shows "audits_once action rejects outcome
     (tenant_command g E (Inr ()) slug (audit_record E actor action None detail) m)"
  unfolding audits_once_def tenant_command_def
proof (intro allI wp_bindI [where Q' = "\<lambda>t w'. audit_log w' = audit_log w \<and> t \<in> set (c_tenant (w_ctl w'))" for w])
  fix w :: "'z world_scheme"
  have "wp (resolve_or_reject E slug (audit_record E actor action None detail))
      (\<lambda>t w'. audit_log w' = audit_log w \<and> t \<in> set (c_tenant (w_ctl w'))) (\<lambda>e. fails_logged action rejection e w) w"
    unfolding resolve_or_reject_def find_by_slug_def wp_simps(3) wp_ctl_query wp_case_option wp_ret wp_throw
    using E audit_record_logs [OF assms(1,2)]
    by (auto simp: Let_def audit_log_def fails_logged_def returns_logged_def dest: find_row_SomeD split: option.splits
        intro!: wp_mono [OF audit_record_logs [OF assms(1,2)]])
  then show "wp (map_err g (resolve_or_reject E slug (audit_record E actor action None detail)))
      (\<lambda>t w'. audit_log w' = audit_log w \<and> t \<in> set (c_tenant (w_ctl w'))) (\<lambda>e. fails_logged action rejects e w) w"
    by (simp add: wp_map_err fails_logged_def [abs_def] g)
next
  fix w :: "'z world_scheme" and t and w1 :: "'z world_scheme"
  assume w1: "audit_log w1 = audit_log w \<and> t \<in> set (c_tenant (w_ctl w1))"
  show "wp (thenE (map_err g (connect_tenant_pool E (Inr ()) (tn_id t) (tn_database_name t))) (m t))
      (\<lambda>a. returns_logged action (outcome a) w) (\<lambda>e. fails_logged action rejects e w) w1"
  proof (rule wp_bindI)
    show "wp (map_err g (connect_tenant_pool E (Inr ()) (tn_id t) (tn_database_name t)))
        (\<lambda>_ w'. audit_log w' = audit_log w) (\<lambda>e. fails_logged action rejects e w) w1"
      by (rule wp_map_errI, rule wp_mono [OF connect_tenant_pool_unlogged [OF E]]) (use w1 g in \<open>auto simp: fails_logged_def\<close>)
    fix a and v :: "'z world_scheme" assume "audit_log v = audit_log w"
    then show "wp (m t) (\<lambda>a. returns_logged action (outcome a) w) (\<lambda>e. fails_logged action rejects e w) v"
      by (intro wp_mono [OF m [unfolded audits_once_def, rule_format]]) (auto simp: returns_logged_def fails_logged_def)
  qed
qed

lemma audits_configure_row:
  assumes "ctl_quiet E" and "unlogged rejection load" and "unlogged rejection store"
    and "\<And>out. audit out = audit_record E actor action tenant (detail out)"
    and "\<And>out. map_of (detail out) ''outcome'' = Some (JStr out)"
  shows "audits_once action rejection (\<lambda>out. out) (configure_row load matches store audit)"
  unfolding configure_row_def Let_def assms(4)
  using assms(1-3,5) by (intro audits_once_bindE audits_record_then_ret audit_intros) auto

section \<open>Running a command to its end\<close>

lemma wp_any [simp]: "wp m (\<lambda>_ _. True) (\<lambda>_ _. True) w"
  by (simp add: wp_def split: sum.splits prod.splits)

text \<open>An operator who works alone on a registered tenant reaches the body of a command.\<close>

lemma tenant_command_reaches:
  fixes w :: "'z world_scheme"
  assumes "quiet E" and t: "find_row (\<lambda>t. tn_slug t = slug) (c_tenant (w_ctl w)) = Some t"
    and body: "\<And>n. wp (body t) Q (\<lambda>_ _. True) (w\<lparr>w_tick := n\<rparr>)"
  shows "wp (tenant_command g E (Inr ()) slug reject body) Q (\<lambda>_ _. True) w"
proof -
  have "find_tenant (tn_id t) (w_ctl w) \<noteq> None"
    using find_row_SomeD [OF t] by (auto simp: find_tenant_def find_row_None)
  with assms show ?thesis
    by (auto simp: tenant_command_def resolve_or_reject_def find_by_slug_def connect_tenant_pool_def find_by_id_def
        wp_simps Let_def ok_or_def split: option.splits)
qed

lemma stored_pepper:
  fixes w :: "'z world_scheme"
  assumes "keystore_lawful K plain" and "tn_vault_pepper_wrapped t = Some wr"
    and body: "\<And>n. wp (f (plain (tn_vault_mount t) wr)) Q (\<lambda>_ _. True) (w\<lparr>w_tick := n\<rparr>)"
  shows "wp (bindE (ensure_tenant_pepper E K t) f) Q (\<lambda>_ _. True) w"
  using assms by (auto simp: ensure_tenant_pepper_def keystore_lawful_def wp_simps split: sum.splits)

lemma ctl_keeps_tenant_command [keeps_intros]:
  assumes "ctl_stable E P" and "keeps (ctl_inv P) reject" and "\<And>t. keeps (ctl_inv P) (body t)"
  shows "keeps (ctl_inv P) (tenant_command g E parsed slug reject body)"
proof -
  have "keeps (ctl_inv P) (connect_with_expected_database E n x)" for n x
    by (rule wp_keeps) (auto simp: ctl_inv_def wp_simps Let_def)
  then show ?thesis
    unfolding tenant_command_def resolve_or_reject_def find_by_slug_def connect_tenant_pool_def find_by_id_def
    by (intro keeps_intros assms) auto
qed

section \<open>The contract of a setter\<close>

text \<open>A setting of the tenant is one row: \<open>look\<close> finds it, \<open>put\<close> writes it, \<open>fits\<close> says that a row
  holds what was asked for.  The laws are those of a variable.\<close>

locale row_setting =
  fixes look :: "tenant_db \<Rightarrow> 'r option" and fits :: "'r \<Rightarrow> bool" and put :: "timestamp \<Rightarrow> tenant_db \<Rightarrow> tenant_db"
  assumes look_put: "\<exists>r. look (put t d) = Some r \<and> fits r"
begin

text \<open>After a call that returns, the row is there and fits; the outcome says what was there
  before, and an idempotent call wrote nothing.\<close>

lemma configure_row_sets:
  fixes w :: "'z world_scheme"
  assumes E: "quiet E"
    and store: "\<And>w :: 'z world_scheme. wp store (\<lambda>_ w'. \<exists>t. w_db w' = put t (w_db w)) (\<lambda>_ _. True) w"
    and audit: "\<And>out (w :: 'z world_scheme). w_db (snd (audit out w)) = w_db w"
  shows "wp (configure_row (query E (\<lambda>_. look)) fits store audit)
     (\<lambda>out w'. (\<exists>r. look (w_db w') = Some r \<and> fits r)
        \<and> out = setting_outcome fits (look (w_db w))
        \<and> (out = ''idempotent'' \<longrightarrow> w_db w' = w_db w)) (\<lambda>_ _. True) w"
proof -
  let ?out = "setting_outcome fits (look (w_db w))"
  let ?P = "\<lambda>w'. (\<exists>r. look (w_db w') = Some r \<and> fits r) \<and> (?out = ''idempotent'' \<longrightarrow> w_db w' = w_db w)"
  let ?w1 = "w\<lparr>w_tick := Suc (w_tick w)\<rparr>"
  have fin: "wp (thenE (audit ?out) (ret ?out)) (\<lambda>out w'. ?P w' \<and> out = ?out) (\<lambda>_ _. True) v" if "?P v" for v :: "'z world_scheme"
    using that audit [of ?out v] by (auto simp: wp_def bindE_def ret_def split: prod.splits sum.splits)
  have "wp (if ?out \<noteq> ''idempotent'' then store else ret ()) (\<lambda>_. ?P) (\<lambda>_ _. True) ?w1"
  proof (cases "?out = ''idempotent''")
    case True
    then have "\<exists>r. look (w_db w) = Some r \<and> fits r"
      by (auto simp: setting_outcome_def split: option.splits if_splits)
    with True show ?thesis by (simp add: wp_ret)
  next
    case False
    have "wp store (\<lambda>_. ?P) (\<lambda>_ _. True) ?w1"
      by (rule wp_mono [OF store]) (use False look_put in auto)
    with False show ?thesis by simp
  qed
  then have "wp (thenE (if ?out \<noteq> ''idempotent'' then store else ret ()) (thenE (audit ?out) (ret ?out)))
      (\<lambda>out w'. ?P w' \<and> out = ?out) (\<lambda>_ _. True) ?w1"
    by (rule wp_bindI) (rule fin)
  then show ?thesis
    using E by (auto simp: configure_row_def Let_def wp_bindE wp_query elim!: wp_mono)
qed

end

section \<open>What a command leaves of the tenant database\<close>

lemma keeps_tenant_command [keeps_intros]:
  assumes "keeps (db_inv P) reject" and "\<And>t. keeps (db_inv P) (body t)"
  shows "keeps (db_inv P) (tenant_command g E parsed slug reject body)"
proof -
  have "keeps (db_inv P) (connect_with_expected_database E n x)" for n x
    by (rule wp_keeps) (auto simp: db_inv_def wp_simps Let_def)
  then show ?thesis
    unfolding tenant_command_def resolve_or_reject_def find_by_slug_def connect_tenant_pool_def find_by_id_def
    by (intro keeps_intros assms) auto
qed

lemma keeps_configure_row [keeps_intros]:
  "keeps P load \<Longrightarrow> keeps P store \<Longrightarrow> (\<And>out. keeps P (audit out)) \<Longrightarrow> keeps P (configure_row load fits store audit)"
  unfolding configure_row_def Let_def by (intro keeps_intros)

end
