(* ===== verification/Customer.thy ===== *)
theory Customer
  imports Command
begin

text \<open>
  The customer projection (\<open>customer/model.rs\<close>, \<open>repo.rs\<close>, \<open>resolve.rs\<close>): who a message is for and
  at which address, found or minted on the fly when the master data has not arrived yet.

  A transaction is one \<open>stmt\<close>; the functions on \<open>tenant_db\<close> that its statements become carry the
  names of the repository functions.  An \<open>expect\<close> or \<open>unreachable!\<close> that fires is a \<open>Panic\<close>.
\<close>

section \<open>Lookups\<close>

text \<open>\<open>None\<close> is \<open>unreachable!\<close>.\<close>

definition kind_for_channel :: "string \<Rightarrow> string option" where
  "kind_for_channel channel =
     (if channel = ''sms'' then Some ''msisdn''
      else if channel = ''email'' then Some ''email''
      else if channel = ''whatsapp'' then Some ''whatsapp''
      else None)"

abbreviation ALIAS_HOP_LIMIT :: nat where "ALIAS_HOP_LIMIT \<equiv> 8"

definition customer_at :: "uuid \<Rightarrow> tenant_db \<Rightarrow> customer_row option" where
  "customer_at i d = find_row (\<lambda>c. cu_id c = i) (t_customer d)"

definition find_customer :: "env \<Rightarrow> uuid \<Rightarrow> ('z world_scheme, sqlx_error, customer_row option) io" where
  "find_customer E i = query E (\<lambda>_. customer_at i)"

definition merged_into :: "uuid \<Rightarrow> tenant_db \<Rightarrow> uuid option" where
  "merged_into i d = map_option al_customer_id (find_row (\<lambda>a. al_old_customer_id a = i) (t_customer_alias d))"

fun follow_alias :: "nat \<Rightarrow> env \<Rightarrow> uuid \<Rightarrow> ('z world_scheme, sqlx_error, uuid) io" where
  "follow_alias 0 E current = ret current"
| "follow_alias (Suc hops) E current = bindE (query E (\<lambda>_. merged_into current)) (\<lambda>next_id.
     case next_id of
       Some i \<Rightarrow> follow_alias hops E i
     | None \<Rightarrow> ret current)"

definition expand_alias :: "env \<Rightarrow> uuid \<Rightarrow> ('z world_scheme, sqlx_error, uuid) io" where
  "expand_alias E i = follow_alias ALIAS_HOP_LIMIT E i"

text \<open>The recursive query: the rows of each depth from those of the depth before.\<close>

fun aliases :: "nat \<Rightarrow> uuid list \<Rightarrow> tenant_db \<Rightarrow> uuid list" where
  "aliases 0 ids d = ids"
| "aliases (Suc depth) ids d =
     ids @ aliases depth (concat (map (\<lambda>i. map al_old_customer_id
       (filter (\<lambda>a. al_customer_id a = i) (t_customer_alias d))) ids)) d"

definition alias_set :: "env \<Rightarrow> uuid \<Rightarrow> ('z world_scheme, sqlx_error, uuid list) io" where
  "alias_set E canonical_id = query E (\<lambda>_ d. remdups (aliases ALIAS_HOP_LIMIT [canonical_id] d))"

definition external_customer :: "string \<Rightarrow> string \<Rightarrow> tenant_db \<Rightarrow> uuid option" where
  "external_customer system external_id d =
     map_option cx_customer_id (find_row (\<lambda>x. cx_system x = system \<and> cx_external_id x = external_id) (t_customer_external_id d))"

definition find_customer_by_external_id :: "env \<Rightarrow> string \<Rightarrow> string \<Rightarrow> ('z world_scheme, sqlx_error, uuid option) io" where
  "find_customer_by_external_id E system external_id = query E (\<lambda>_. external_customer system external_id)"

definition holds :: "string \<Rightarrow> bytes \<Rightarrow> customer_address_row \<Rightarrow> bool" where
  "holds kind value_hmac a \<longleftrightarrow> ca_kind a = kind \<and> ca_value_hmac a = value_hmac \<and> ca_active_to a = None"

definition active_address :: "string \<Rightarrow> bytes \<Rightarrow> tenant_db \<Rightarrow> customer_address_row option" where
  "active_address kind value_hmac d = find_row (holds kind value_hmac) (t_customer_address d)"

definition find_active_address_by_hmac :: "env \<Rightarrow> string \<Rightarrow> bytes
    \<Rightarrow> ('z world_scheme, sqlx_error, customer_address_row option) io" where
  "find_active_address_by_hmac E kind value_hmac = query E (\<lambda>_. active_address kind value_hmac)"

definition find_active_address_for_customer :: "env \<Rightarrow> uuid \<Rightarrow> string \<Rightarrow> bytes
    \<Rightarrow> ('z world_scheme, sqlx_error, customer_address_row option) io" where
  "find_active_address_for_customer E customer_id kind value_hmac = query E (\<lambda>_ d.
     find_row (\<lambda>a. ca_customer_id a = customer_id \<and> holds kind value_hmac a) (t_customer_address d))"

section \<open>Statements inside a transaction\<close>

text \<open>\<open>i16\<close> addition in a release build wraps.\<close>

definition i16_succ :: "int \<Rightarrow> int" where
  "i16_succ r = (r + 1 + 32768) mod 65536 - 32768"

definition next_rank_for_update :: "uuid \<Rightarrow> string \<Rightarrow> tenant_db \<Rightarrow> sqlx_error + int" where
  "next_rank_for_update customer_id kind d =
     (if customer_at customer_id d = None then Inl RowNotFound
      else
       (let ranks = map ca_rank (filter (\<lambda>a. ca_customer_id a = customer_id \<and> ca_kind a = kind \<and> ca_active_to a = None)
              (t_customer_address d))
        in Inr (i16_succ (if ranks = [] then 0 else Max (set ranks)))))"

definition insert_customer :: "uuid \<Rightarrow> string \<Rightarrow> string \<Rightarrow> bool \<Rightarrow> timestamp option \<Rightarrow> timestamp \<Rightarrow> tenant_db
    \<Rightarrow> bool \<times> tenant_db" where
  "insert_customer i locale timezone provisional source_updated_at created_at d =
     (customer_at i d = None,
      d\<lparr>t_customer := ins_ignore cu_id \<lparr>cu_id = i, cu_locale = locale, cu_timezone = timezone,
          cu_provisional = provisional, cu_source_system = None, cu_source_updated_at = source_updated_at,
          cu_created_at = created_at\<rparr> (t_customer d)\<rparr>)"

definition insert_external_id :: "string \<Rightarrow> string \<Rightarrow> uuid \<Rightarrow> tenant_db \<Rightarrow> bool \<times> tenant_db" where
  "insert_external_id system external_id customer_id d =
     (external_customer system external_id d = None,
      d\<lparr>t_customer_external_id := ins_ignore (\<lambda>x. (cx_system x, cx_external_id x))
          \<lparr>cx_customer_id = customer_id, cx_system = system, cx_external_id = external_id\<rparr>
          (t_customer_external_id d)\<rparr>)"

text \<open>The conflict clause names one of the two partial unique indexes; the other, the primary key and
  the reference to \<open>customer\<close> raise.\<close>

definition rank_taken :: "customer_address_row \<Rightarrow> tenant_db \<Rightarrow> bool" where
  "rank_taken a d \<longleftrightarrow> (\<exists>b \<in> set (t_customer_address d). ca_customer_id b = ca_customer_id a
     \<and> ca_kind b = ca_kind a \<and> ca_rank b = ca_rank a \<and> ca_active_to b = None)"

definition insert_address :: "uuid \<Rightarrow> uuid \<Rightarrow> string \<Rightarrow> bytes \<Rightarrow> bytes \<Rightarrow> int \<Rightarrow> timestamp \<Rightarrow> timestamp \<Rightarrow> tenant_db
    \<Rightarrow> sqlx_error + bool \<times> tenant_db" where
  "insert_address i customer_id kind value_ciphertext value_hmac rank active_from source_updated_at d =
    (let a = \<lparr>ca_id = i, ca_customer_id = customer_id, ca_kind = kind, ca_value_ciphertext = value_ciphertext,
          ca_value_hmac = value_hmac, ca_rank = rank, ca_label = None, ca_verified_at = None,
          ca_active_from = active_from, ca_active_to = None, ca_source_updated_at = source_updated_at\<rparr> in
     if active_address kind value_hmac d \<noteq> None then Inr (False, d)
     else if i \<in> ca_id ` set (t_customer_address d) then Inl (Constraint ''customer_address_pkey'')
     else if rank_taken a d then Inl (Constraint ''customer_address_customer_id_kind_rank_idx'')
     else if customer_at customer_id d = None then Inl (Constraint ''customer_address_customer_id_fkey'')
     else Inr (True, d\<lparr>t_customer_address := t_customer_address d @ [a]\<rparr>))"

section \<open>Resolution\<close>

datatype resolution_input = Explicit uuid | External string string | AddressOnly

record resolved =
  re_customer_id :: uuid
  re_address_id :: uuid
  re_locale :: "string option"

datatype resolve_error = ResolveDatabase sqlx_error | ResolveVault keystore_error | ResolveEncryption encryption_error

primrec resolve_of_dek :: "dek_error \<Rightarrow> resolve_error" where
  "resolve_of_dek (DekDatabase e) = ResolveDatabase e"
| "resolve_of_dek (DekVault e) = ResolveVault e"
| "resolve_of_dek DekPanic = ResolveDatabase (Panic ''get_or_create_dek'')"

definition non_provisional_locale :: "customer_row \<Rightarrow> string option" where
  "non_provisional_locale c = (if cu_provisional c then None else Some (cu_locale c))"

definition expect_row :: "string \<Rightarrow> 'a option \<Rightarrow> ('z world_scheme, sqlx_error, 'a) io" where
  "expect_row why x = of_result (ok_or (Panic why) x)"

definition mint_provisional_customer :: "env \<Rightarrow> uuid \<Rightarrow> string \<Rightarrow> string \<Rightarrow> ('z world_scheme, sqlx_error, unit) io" where
  "mint_provisional_customer E i locale timezone =
     bindE (utc_now E) (\<lambda>now. exec E (\<lambda>_ d. snd (insert_customer i locale timezone True None now d)))"

definition mint_provisional_customer_with_external_id :: "env \<Rightarrow> string \<Rightarrow> string \<Rightarrow> string \<Rightarrow> string
    \<Rightarrow> ('z world_scheme, sqlx_error, uuid) io" where
  "mint_provisional_customer_with_external_id E system external_id locale timezone =
     bindE (new_uuid E) (\<lambda>i.
     bindE (utc_now E) (\<lambda>now.
     bindE (stmt E (\<lambda>_ d.
        let d1 = snd (insert_customer i locale timezone True None now d);
            (inserted, d2) = insert_external_id system external_id i d1
        in Inr (inserted, if inserted then d2 else d))) (\<lambda>inserted.
     if inserted then ret i
     else bindE (find_customer_by_external_id E system external_id)
            (expect_row ''row after lost race''))))"

definition mint_provisional_customer_and_address :: "'c lru \<Rightarrow> env \<Rightarrow> keystore \<Rightarrow> crypto \<Rightarrow> string \<Rightarrow> string \<Rightarrow> bytes
    \<Rightarrow> string \<Rightarrow> string \<Rightarrow> string \<Rightarrow> (('c, 'z) key_world_scheme, resolve_error, uuid \<times> uuid) io" where
  "mint_provisional_customer_and_address L E K C mount kind value_hmac destination locale timezone =
     bindE (new_uuid E) (\<lambda>customer_id.
     bindE (new_uuid E) (\<lambda>address_id.
     bindE (utc_now E) (\<lambda>now.
     bindE (map_err ResolveVault (create_dek K mount)) (\<lambda>dek.
     bindE (map_err ResolveEncryption (encrypt C E (fst dek) (cy_uuid_bytes C address_id) (as_bytes destination))) (\<lambda>ciphertext.
     bindE (map_err ResolveDatabase (stmt E (\<lambda>_ d.
        let d1 = snd (insert_customer customer_id locale timezone True None now d) in
        case insert_address address_id customer_id kind ciphertext value_hmac 1 now now d1 of
          Inl e \<Rightarrow> Inl e
        | Inr (inserted, d2) \<Rightarrow>
            Inr (inserted, if inserted then snd (insert_dek customer_id (snd dek) now d2) else d)))) (\<lambda>inserted.
     if inserted then
       thenE (cache_put L E customer_id (fst dek)) (ret (customer_id, address_id))
     else bindE (map_err ResolveDatabase (bindE (find_active_address_by_hmac E kind value_hmac)
            (expect_row ''row after lost race''))) (\<lambda>winner.
          ret (ca_customer_id winner, ca_id winner))))))))"

definition locale_of :: "env \<Rightarrow> uuid \<Rightarrow> ('z world_scheme, sqlx_error, string option) io" where
  "locale_of E i = bindE (find_customer E i) (\<lambda>found.
     ret (case found of Some row \<Rightarrow> non_provisional_locale row | None \<Rightarrow> None))"

text \<open>The two arms of the first \<open>match\<close> that go on to look for an address.\<close>

definition resolve_explicit :: "env \<Rightarrow> uuid \<Rightarrow> string \<Rightarrow> string \<Rightarrow> ('z world_scheme, sqlx_error, uuid \<times> string option) io" where
  "resolve_explicit E given locale timezone =
     bindE (expand_alias E given) (\<lambda>i.
     bindE (find_customer E i) (\<lambda>found.
     case found of
       Some row \<Rightarrow> ret (i, non_provisional_locale row)
     | None \<Rightarrow> thenE (mint_provisional_customer E i locale timezone) (ret (i, None))))"

definition resolve_external :: "env \<Rightarrow> string \<Rightarrow> string \<Rightarrow> string \<Rightarrow> string
    \<Rightarrow> ('z world_scheme, sqlx_error, uuid \<times> string option) io" where
  "resolve_external E system external_id locale timezone =
     bindE (find_customer_by_external_id E system external_id) (\<lambda>found.
     case found of
       Some i \<Rightarrow> bindE (bindE (find_customer E i)
           (expect_row ''row for external id'')) (\<lambda>row.
         ret (i, non_provisional_locale row))
     | None \<Rightarrow> bindE (mint_provisional_customer_with_external_id E system external_id locale timezone) (\<lambda>i.
         ret (i, None)))"

text \<open>The arm that returns: the address decides the customer.\<close>

definition resolve_address_only :: "'c lru \<Rightarrow> env \<Rightarrow> keystore \<Rightarrow> crypto \<Rightarrow> string \<Rightarrow> string \<Rightarrow> bytes \<Rightarrow> string
    \<Rightarrow> string \<Rightarrow> string \<Rightarrow> (('c, 'z) key_world_scheme, resolve_error, resolved) io" where
  "resolve_address_only L E K C mount kind value_hmac destination locale timezone =
     bindE (map_err ResolveDatabase (find_active_address_by_hmac E kind value_hmac)) (\<lambda>found.
     case found of
       Some a \<Rightarrow> bindE (map_err ResolveDatabase (locale_of E (ca_customer_id a))) (\<lambda>loc.
         ret \<lparr>re_customer_id = ca_customer_id a, re_address_id = ca_id a, re_locale = loc\<rparr>)
     | None \<Rightarrow> bindE (mint_provisional_customer_and_address L E K C mount kind value_hmac destination locale timezone)
         (\<lambda>(customer_id, address_id).
           ret \<lparr>re_customer_id = customer_id, re_address_id = address_id, re_locale = None\<rparr>))"

text \<open>Find or create the address of a known customer.\<close>

definition attach_address :: "'c lru \<Rightarrow> env \<Rightarrow> keystore \<Rightarrow> crypto \<Rightarrow> string \<Rightarrow> string \<Rightarrow> bytes \<Rightarrow> string
    \<Rightarrow> uuid \<times> string option \<Rightarrow> (('c, 'z) key_world_scheme, resolve_error, resolved) io" where
  "attach_address L E K C mount kind value_hmac destination who = (case who of (customer_id, loc) \<Rightarrow>
     bindE (map_err ResolveDatabase (find_active_address_for_customer E customer_id kind value_hmac)) (\<lambda>found.
     case found of
       Some a \<Rightarrow> ret \<lparr>re_customer_id = customer_id, re_address_id = ca_id a, re_locale = loc\<rparr>
     | None \<Rightarrow>
        bindE (map_err resolve_of_dek (get_or_create_dek L E K mount customer_id)) (\<lambda>dek.
        bindE (new_uuid E) (\<lambda>address_id.
        bindE (map_err ResolveEncryption (encrypt C E dek (cy_uuid_bytes C address_id) (as_bytes destination))) (\<lambda>ciphertext.
        bindE (utc_now E) (\<lambda>now.
        bindE (map_err ResolveDatabase (stmt E (\<lambda>_ d.
          case next_rank_for_update customer_id kind d of
            Inl e \<Rightarrow> Inl e
          | Inr rank \<Rightarrow> insert_address address_id customer_id kind ciphertext value_hmac rank now now d))) (\<lambda>inserted.
        if inserted then ret \<lparr>re_customer_id = customer_id, re_address_id = address_id, re_locale = loc\<rparr>
        else
          bindE (map_err ResolveDatabase (bindE (find_active_address_by_hmac E kind value_hmac)
            (expect_row ''row after lost race''))) (\<lambda>winner.
          bindE (if ca_customer_id winner = customer_id then ret loc
                 else map_err ResolveDatabase (locale_of E (ca_customer_id winner))) (\<lambda>winner_locale.
          ret \<lparr>re_customer_id = ca_customer_id winner, re_address_id = ca_id winner, re_locale = winner_locale\<rparr>)))))))))"

definition resolve :: "'c lru \<Rightarrow> env \<Rightarrow> keystore \<Rightarrow> crypto \<Rightarrow> string \<Rightarrow> bytes \<Rightarrow> resolution_input \<Rightarrow> string \<Rightarrow> string
    \<Rightarrow> string \<Rightarrow> string \<Rightarrow> (('c, 'z) key_world_scheme, resolve_error, resolved) io" where
  "resolve L E K C mount pepper input destination channel locale timezone =
     (case kind_for_channel channel of
        None \<Rightarrow> throw (ResolveDatabase (Panic ''validate_channel already rejected''))
      | Some kind \<Rightarrow>
         (let value_hmac = destination_hmac C pepper destination in
          case input of
            Explicit i \<Rightarrow> bindE (map_err ResolveDatabase (resolve_explicit E i locale timezone))
              (attach_address L E K C mount kind value_hmac destination)
          | External system external_id \<Rightarrow>
              bindE (map_err ResolveDatabase (resolve_external E system external_id locale timezone))
              (attach_address L E K C mount kind value_hmac destination)
          | AddressOnly \<Rightarrow> resolve_address_only L E K C mount kind value_hmac destination locale timezone))"


section \<open>Merges\<close>

text \<open>Where a chain of merges leads after a number of hops.\<close>

fun hops :: "nat \<Rightarrow> uuid \<Rightarrow> tenant_db \<Rightarrow> uuid option" where
  "hops 0 i d = Some i"
| "hops (Suc k) i d = (case merged_into i d of None \<Rightarrow> None | Some j \<Rightarrow> hops k j d)"

lemma hops_Suc_right: "hops (Suc k) i d = (case hops k i d of None \<Rightarrow> None | Some j \<Rightarrow> merged_into j d)"
proof (induction k arbitrary: i)
  case 0
  then show ?case by (simp split: option.splits)
next
  case (Suc k)
  show ?case
  proof (cases "merged_into i d")
    case (Some j)
    then have "hops (Suc (Suc k)) i d = hops (Suc k) j d" "hops (Suc k) i d = hops k j d" by simp_all
    with Suc.IH [of j] show ?thesis by simp
  qed simp
qed

lemma merged_into_iff:
  assumes "distinct (map al_old_customer_id (t_customer_alias d))"
  shows "merged_into i d = Some j \<longleftrightarrow>
     (\<exists>a \<in> set (t_customer_alias d). al_old_customer_id a = i \<and> al_customer_id a = j)"
  using find_row_key [OF assms] by (fastforce simp: merged_into_def dest: find_row_SomeD)

lemma set_aliases:
  assumes "distinct (map al_old_customer_id (t_customer_alias d))"
  shows "x \<in> set (aliases n ids d) \<longleftrightarrow> (\<exists>k \<le> n. \<exists>c \<in> set ids. hops k x d = Some c)"
proof (induction n arbitrary: ids)
  case 0
  then show ?case by auto
next
  case (Suc n)
  let ?kids = "concat (map (\<lambda>i. map al_old_customer_id (filter (\<lambda>a. al_customer_id a = i) (t_customer_alias d))) ids)"
  have kids: "y \<in> set ?kids \<longleftrightarrow> (\<exists>c \<in> set ids. merged_into y d = Some c)" for y
    by (auto simp: merged_into_iff [OF assms])
  have step: "(\<exists>y \<in> set ?kids. hops k x d = Some y) \<longleftrightarrow> hops (Suc k) x d \<in> Some ` set ids" for k
    unfolding hops_Suc_right Bex_def kids by (cases "hops k x d") auto
  have "x \<in> set (aliases (Suc n) ids d) \<longleftrightarrow> hops 0 x d \<in> Some ` set ids
      \<or> (\<exists>k \<le> n. \<exists>y \<in> set ?kids. hops k x d = Some y)"
    by (simp only: aliases.simps set_append Un_iff Suc.IH) auto
  also have "\<dots> \<longleftrightarrow> hops 0 x d \<in> Some ` set ids \<or> (\<exists>k \<le> n. hops (Suc k) x d \<in> Some ` set ids)"
    unfolding step ..
  also have "\<dots> \<longleftrightarrow> (\<exists>k \<le> Suc n. hops k x d \<in> Some ` set ids)"
    by (metis Suc_le_mono le0 not0_implies_Suc)
  finally show ?case by (auto simp: image_iff)
qed

text \<open>The walk of \<open>expand_alias\<close> in an undisturbed database.\<close>

lemma follow_alias_hops:
  assumes "quiet E"
  shows "\<exists>k r v. follow_alias n E i w = (Inr r, v) \<and> k \<le> n \<and> hops k i (w_db w) = Some r
     \<and> (k = n \<or> merged_into r (w_db w) = None)"
proof (induction n arbitrary: i w)
  case 0
  then show ?case by (simp add: ret_def)
next
  case (Suc n)
  let ?w = "w\<lparr>w_tick := Suc (w_tick w)\<rparr>"
  have q: "query E (\<lambda>_. merged_into i) w = (Inr (merged_into i (w_db w)), ?w)"
    using assms by (simp add: query_def stmt_def Let_def)
  show ?case
  proof (cases "merged_into i (w_db w)")
    case None
    with q have "follow_alias (Suc n) E i w = (Inr i, ?w)" by (simp add: bindE_def ret_def)
    moreover have "hops 0 i (w_db w) = Some i" by simp
    ultimately show ?thesis using None by blast
  next
    case (Some j)
    with q have "follow_alias (Suc n) E i w = follow_alias n E j ?w" by (simp add: bindE_def)
    with Suc.IH [of j ?w] Some show ?thesis by force
  qed
qed

lemma hops_end_unique:
  assumes "hops k i d = Some c" "merged_into c d = None" "hops m i d = Some r" "m = n \<or> merged_into r d = None" "k \<le> n" "m \<le> n"
  shows "r = c"
  using assms
proof (induction k arbitrary: i m n)
  case 0
  then show ?case by (cases m) auto
next
  case (Suc k)
  obtain j where j: "merged_into i d = Some j" "hops k j d = Some c" using Suc.prems(1) by (auto split: option.splits)
  show ?case
  proof (cases m)
    case 0
    with Suc.prems j show ?thesis by auto
  next
    case (Suc m')
    with Suc.prems j have "hops m' j d = Some r" "m' = n - 1 \<or> merged_into r d = None" "k \<le> n - 1" "m' \<le> n - 1" by auto
    then show ?thesis using Suc.IH [OF j(2) Suc.prems(2)] by blast
  qed
qed

text \<open>The two directions of a merge agree.  For a customer that was not merged away itself, the ids the
  timeline collects for it are, each once, exactly the ids that a request would resolve to it,
  both within the hop limit.\<close>

theorem alias_set_inverts_expand_alias:
  assumes "quiet E" and "distinct (map al_old_customer_id (t_customer_alias (w_db w)))"
    and "merged_into c (w_db w) = None"
  shows "\<exists>ids. fst (alias_set E c w) = Inr ids \<and> distinct ids
     \<and> (\<forall>x. x \<in> set ids \<longleftrightarrow> fst (expand_alias E x w) = Inr c)"
proof -
  let ?d = "w_db w" and ?ids = "remdups (aliases ALIAS_HOP_LIMIT [c] (w_db w))"
  have "fst (expand_alias E x w) = Inr c \<longleftrightarrow> (\<exists>k \<le> ALIAS_HOP_LIMIT. hops k x ?d = Some c)" for x
  proof -
    obtain m r v where r: "follow_alias ALIAS_HOP_LIMIT E x w = (Inr r, v)" "m \<le> ALIAS_HOP_LIMIT"
        "hops m x ?d = Some r" "m = ALIAS_HOP_LIMIT \<or> merged_into r ?d = None"
      using follow_alias_hops [OF assms(1)] by blast
    then have "r = c" if "k \<le> ALIAS_HOP_LIMIT" "hops k x ?d = Some c" for k
      using hops_end_unique [OF that(2) assms(3) r(3,4) that(1) r(2)] by simp
    with r show ?thesis unfolding expand_alias_def by auto
  qed
  moreover have "fst (alias_set E c w) = Inr ?ids"
    using assms(1) by (simp add: alias_set_def query_def stmt_def Let_def)
  ultimately show ?thesis
    using set_aliases [OF assms(2), of _ ALIAS_HOP_LIMIT "[c]"] by auto
qed

definition merged_world :: world where
  "merged_world = \<lparr>w_db = empty_db\<lparr>t_customer_alias := [\<lparr>al_old_customer_id = 1, al_customer_id = 2, al_merged_at = 0\<rparr>,
     \<lparr>al_old_customer_id = 2, al_customer_id = 3, al_merged_at = 0\<rparr>]\<rparr>, w_ctl = empty_ctl, w_tick = 0\<rparr>"

theorem alias_set_inverts_expand_alias_witness:
  "\<exists>ids. fst (alias_set (quiet_env 0) 3 merged_world) = Inr ids \<and> distinct ids
     \<and> (\<forall>x. x \<in> set ids \<longleftrightarrow> fst (expand_alias (quiet_env 0) x merged_world) = Inr 3)"
  by (rule alias_set_inverts_expand_alias) (simp_all add: merged_world_def empty_db_def merged_into_def)


section \<open>The projection invariant\<close>

text \<open>Keys are unique, references resolve, and the two partial unique indexes hold.\<close>

definition customers_ok :: "tenant_db \<Rightarrow> bool" where
  "customers_ok d \<longleftrightarrow> distinct (map cu_id (t_customer d))
     \<and> distinct (map (\<lambda>x. (cx_system x, cx_external_id x)) (t_customer_external_id d))
     \<and> distinct (map ca_id (t_customer_address d))
     \<and> (\<forall>x \<in> set (t_customer_external_id d). customer_at (cx_customer_id x) d \<noteq> None)
     \<and> (\<forall>a \<in> set (t_customer_address d). customer_at (ca_customer_id a) d \<noteq> None)
     \<and> distinct (map (\<lambda>a. (ca_kind a, ca_value_hmac a)) (filter (\<lambda>a. ca_active_to a = None) (t_customer_address d)))
     \<and> distinct (map (\<lambda>a. (ca_customer_id a, ca_kind a, ca_rank a)) (filter (\<lambda>a. ca_active_to a = None) (t_customer_address d)))"

text \<open>Rows of the projection, and keys, are only added.\<close>

definition tables_extend :: "tenant_db \<Rightarrow> tenant_db \<Rightarrow> bool" where
  "tables_extend d d' \<longleftrightarrow> set (t_customer d) \<subseteq> set (t_customer d')
     \<and> set (t_customer_external_id d) \<subseteq> set (t_customer_external_id d')
     \<and> set (t_customer_address d) \<subseteq> set (t_customer_address d')"

lemma tables_extend_refl [simp]: "tables_extend d d"
  by (simp add: tables_extend_def)

lemma tables_extend_trans: "tables_extend d d' \<Longrightarrow> tables_extend d' d'' \<Longrightarrow> tables_extend d d''"
  by (auto simp: tables_extend_def)

definition projection_grows :: "env \<Rightarrow> bool" where
  "projection_grows E \<longleftrightarrow> (\<forall>n d. tables_extend d (e_interfere E n d)) \<and> db_stable E customers_ok"

lemma customer_at_Some: "customer_at i d \<noteq> None \<longleftrightarrow> i \<in> cu_id ` set (t_customer d)"
  by (auto simp: customer_at_def find_row_None)

lemma customer_at_extend: "tables_extend d d' \<Longrightarrow> customer_at i d \<noteq> None \<Longrightarrow> customer_at i d' \<noteq> None"
  unfolding customer_at_Some tables_extend_def by blast

lemma active_address_Some: "active_address kind h d \<noteq> None \<longleftrightarrow> (\<exists>a \<in> set (t_customer_address d). holds kind h a)"
  by (auto simp: active_address_def find_row_None)

lemma active_address_extend: "tables_extend d d' \<Longrightarrow> active_address kind h d \<noteq> None \<Longrightarrow> active_address kind h d' \<noteq> None"
  unfolding active_address_Some tables_extend_def by blast

lemma external_customer_Some:
  "external_customer s x d \<noteq> None \<longleftrightarrow> (s, x) \<in> (\<lambda>x. (cx_system x, cx_external_id x)) ` set (t_customer_external_id d)"
  by (force simp: external_customer_def find_row_None image_iff)

lemma external_customer_extend:
  "tables_extend d d' \<Longrightarrow> external_customer s x d \<noteq> None \<Longrightarrow> external_customer s x d' \<noteq> None"
  unfolding external_customer_Some tables_extend_def by blast

lemma external_customer_exists:
  "customers_ok d \<Longrightarrow> external_customer s x d = Some i \<Longrightarrow> customer_at i d \<noteq> None"
  by (auto simp: external_customer_def customers_ok_def dest!: find_row_SomeD)

lemma insert_customer_effect:
  assumes "customers_ok d"
  shows "customers_ok (snd (insert_customer i l tz p su c d))"
    and "tables_extend d (snd (insert_customer i l tz p su c d))"
    and "customer_at i (snd (insert_customer i l tz p su c d)) \<noteq> None"
proof -
  let ?d = "snd (insert_customer i l tz p su c d)"
  show ext: "tables_extend d ?d"
    using set_ins_ignore_mono by (fastforce simp: tables_extend_def insert_customer_def)
  show "customer_at i ?d \<noteq> None"
    unfolding customer_at_Some insert_customer_def by (auto simp: ins_ignore_def)
  have "distinct (map cu_id (t_customer ?d))"
    using assms by (simp add: insert_customer_def customers_ok_def distinct_map_ins_ignore)
  moreover have same: "t_customer_external_id ?d = t_customer_external_id d" "t_customer_address ?d = t_customer_address d"
    by (simp_all add: insert_customer_def)
  ultimately show "customers_ok ?d"
    using assms customer_at_extend [OF ext] unfolding customers_ok_def same by blast
qed

lemma insert_external_id_effect:
  assumes "customers_ok d" and "customer_at i d \<noteq> None"
  shows "customers_ok (snd (insert_external_id s x i d))" and "tables_extend d (snd (insert_external_id s x i d))"
proof -
  let ?r = "\<lparr>cx_customer_id = i, cx_system = s, cx_external_id = x\<rparr>"
  show "tables_extend d (snd (insert_external_id s x i d))"
    using set_ins_ignore_mono by (fastforce simp: tables_extend_def insert_external_id_def)
  have "set (ins_ignore k ?r t) \<subseteq> insert ?r (set t)" for k :: "_ \<Rightarrow> string \<times> string" and t by (auto simp: ins_ignore_def)
  then show "customers_ok (snd (insert_external_id s x i d))"
    using assms by (force simp: customers_ok_def insert_external_id_def customer_at_def distinct_map_ins_ignore)
qed

lemma insert_address_effect:
  assumes ok: "customers_ok d" and ins: "insert_address i c k ct h r af su d = Inr (b, d')"
  shows "customers_ok d' \<and> tables_extend d d' \<and> active_address k h d' \<noteq> None
     \<and> (b \<longrightarrow> (\<exists>a \<in> set (t_customer_address d'). ca_id a = i \<and> ca_customer_id a = c \<and> holds k h a)) \<and> (\<not> b \<longrightarrow> d' = d)"
proof (cases "active_address k h d")
  case (Some a)
  with ins ok show ?thesis by (auto simp: insert_address_def Let_def)
next
  case None
  let ?a = "\<lparr>ca_id = i, ca_customer_id = c, ca_kind = k, ca_value_ciphertext = ct, ca_value_hmac = h,
     ca_rank = r, ca_label = None, ca_verified_at = None, ca_active_from = af, ca_active_to = None, ca_source_updated_at = su\<rparr>"
  have c: "b" "i \<notin> ca_id ` set (t_customer_address d)" "\<not> rank_taken ?a d" "customer_at c d \<noteq> None"
      "d' = d\<lparr>t_customer_address := t_customer_address d @ [?a]\<rparr>"
    using ins None by (auto simp: insert_address_def Let_def split: if_splits)
  have new: "(k, h) \<notin> (\<lambda>a. (ca_kind a, ca_value_hmac a)) ` {a \<in> set (t_customer_address d). ca_active_to a = None}"
    using None by (auto simp: active_address_def find_row_None holds_def)
  have rank: "(c, k, r) \<notin> (\<lambda>a. (ca_customer_id a, ca_kind a, ca_rank a)) ` {a \<in> set (t_customer_address d). ca_active_to a = None}"
    using c(3) by (auto simp: rank_taken_def)
  have "customers_ok d'"
    unfolding c(5) using ok c(2,4) new rank by (simp add: customers_ok_def customer_at_def)
  moreover have "holds k h ?a" by (simp add: holds_def)
  ultimately show ?thesis unfolding c(5) active_address_Some using c(1) by (auto simp: tables_extend_def)
qed

section \<open>What resolution promises\<close>

text \<open>The state between the steps of a resolution.\<close>

definition cust_inv :: "'c lru \<Rightarrow> (string \<Rightarrow> string \<Rightarrow> bytes) \<Rightarrow> string \<Rightarrow> tenant_db \<Rightarrow> ('c, 'z) key_world_scheme \<Rightarrow> bool" where
  "cust_inv L plain mount d0 w \<longleftrightarrow> customers_ok (w_db w) \<and> tables_extend d0 (w_db w) \<and> dek_inv L plain mount d0 w"

definition not_panic :: "resolve_error \<Rightarrow> bool" where
  "not_panic e \<longleftrightarrow> (\<forall>p. e \<noteq> ResolveDatabase (Panic p))"

lemma not_panic_simps [simp]: "not_panic (ResolveVault e)" "not_panic (ResolveEncryption e')" "not_panic (ResolveDatabase Io)"
  by (simp_all add: not_panic_def)

lemma cust_inv_step:
  assumes "cust_inv L plain mount d0 w" and "customers_ok d" and "tables_extend (w_db w) d" and "keys_extend (w_db w) d"
  shows "cust_inv L plain mount d0 (w\<lparr>w_tick := n, w_db := d\<rparr>)"
  using assms dek_inv_extend [of L plain mount d0 w d n] by (auto simp: cust_inv_def intro: tables_extend_trans)

lemma cust_inv_tick: "cust_inv L plain mount d0 (w\<lparr>w_tick := n\<rparr>) = cust_inv L plain mount d0 w"
  by (simp add: cust_inv_def dek_inv_def)

text \<open>A statement that adds to the projection keeps the state; what it establishes of the
  database it leaves is passed on.\<close>

lemma wp_cust_stmt:
  assumes E: "projection_grows E" "keys_grow E" and I: "cust_inv L plain mount d0 w"
    and body: "\<And>n d. customers_ok d \<Longrightarrow> tables_extend (w_db w) d \<Longrightarrow> keys_extend (w_db w) d \<Longrightarrow> n = w_tick w \<Longrightarrow>
       d = e_interfere E n (w_db w) \<Longrightarrow>
       (case f n d of Inl e \<Rightarrow> \<forall>p. e \<noteq> Panic p
        | Inr (a, d') \<Rightarrow> customers_ok d' \<and> tables_extend d d' \<and> keys_extend d d' \<and> Post a d')"
  shows "wp (map_err ResolveDatabase (stmt E f)) (\<lambda>a w'. cust_inv L plain mount d0 w' \<and> tables_extend (w_db w) (w_db w') \<and> Post a (w_db w'))
     (\<lambda>e w'. not_panic e \<and> cust_inv L plain mount d0 w') w"
proof -
  let ?d = "e_interfere E (w_tick w) (w_db w)"
  have d: "customers_ok ?d" "tables_extend (w_db w) ?d" "keys_extend (w_db w) ?d"
    using E I by (auto simp: projection_grows_def keys_grow_def cust_inv_def stableD)
  have step: "cust_inv L plain mount d0 (w\<lparr>w_tick := n, w_db := d'\<rparr>)"
    if "customers_ok d'" "tables_extend ?d d'" "keys_extend ?d d'" for n d'
    by (rule cust_inv_step [OF I that(1) tables_extend_trans [OF d(2) that(2)] keys_extend_trans [OF d(3) that(3)]])
  show ?thesis
    using body [OF d refl refl] step [OF d(1)] step d(2)
    by (auto simp: wp_simps Let_def not_panic_def split: sum.splits fault.splits intro: tables_extend_trans)
qed

lemma wp_cust_query:
  assumes E: "projection_grows E" "keys_grow E" and I: "cust_inv L plain mount d0 w"
  shows "wp (map_err ResolveDatabase (query E f)) (\<lambda>a w'. cust_inv L plain mount d0 w' \<and> tables_extend (w_db w) (w_db w')
       \<and> a = f (w_tick w) (w_db w')) (\<lambda>e w'. not_panic e \<and> cust_inv L plain mount d0 w') w"
  unfolding query_def by (rule wp_cust_stmt [OF assms]) simp


definition located :: "string \<Rightarrow> bytes \<Rightarrow> resolved \<Rightarrow> tenant_db \<Rightarrow> bool" where
  "located kind h r d \<longleftrightarrow> (\<exists>a \<in> set (t_customer_address d). ca_id a = re_address_id r
     \<and> ca_customer_id a = re_customer_id r \<and> holds kind h a)"

lemma located_extend: "located k h r d \<Longrightarrow> tables_extend d d' \<Longrightarrow> located k h r d'"
  by (auto simp: located_def tables_extend_def)

text \<open>The assumptions of the lemmas on resolution: the third-party parts obey their laws, and other
  sessions, like this one, only add to the projection and to the keys, and never make up a
  key for an identifier this process draws.\<close>

definition resolution_setting :: "'c lru \<Rightarrow> env \<Rightarrow> keystore \<Rightarrow> (string \<Rightarrow> string \<Rightarrow> bytes) \<Rightarrow> bool" where
  "resolution_setting L E K plain \<longleftrightarrow> lru_lawful L \<and> keystore_lawful K plain \<and> keys_grow E \<and> projection_grows E
     \<and> (\<forall>m. db_stable E (\<lambda>d. find_dek_row (e_new_uuid E m) d = None))"

definition uuids_keyless :: "env \<Rightarrow> tenant_db \<Rightarrow> bool" where
  "uuids_keyless E d \<longleftrightarrow> (\<forall>m. find_dek_row (e_new_uuid E m) d = None)"

lemma follow_alias_inv:
  assumes E: "projection_grows E" "keys_grow E" and "cust_inv L plain mount d0 w"
  shows "wp (map_err ResolveDatabase (follow_alias n E i)) (\<lambda>_. cust_inv L plain mount d0)
     (\<lambda>e w'. not_panic e \<and> cust_inv L plain mount d0 w') w"
  using assms(3)
proof (induction n arbitrary: i w)
  case (Suc n)
  show ?case
    unfolding follow_alias.simps map_err_bindE
    by (rule wp_bindI [OF wp_cust_query [OF E Suc.prems]])
      (use Suc.IH in \<open>auto simp: wp_ret split: option.splits\<close>)
qed (simp add: wp_ret)

lemma winner_found:
  assumes E: "projection_grows E" "keys_grow E" and I: "cust_inv L plain mount d0 w" and "active_address k h (w_db w) \<noteq> None"
  shows "wp (map_err ResolveDatabase (bindE (find_active_address_by_hmac E k h) (expect_row why)))
     (\<lambda>a w'. cust_inv L plain mount d0 w' \<and> a \<in> set (t_customer_address (w_db w')) \<and> holds k h a)
     (\<lambda>e w'. not_panic e \<and> cust_inv L plain mount d0 w') w"
  unfolding map_err_bindE find_active_address_by_hmac_def
proof (rule wp_bindI [OF wp_cust_query [OF E I]], elim conjE)
  fix r and v :: "('a, 'b) key_world_scheme"
  assume I': "cust_inv L plain mount d0 v" and ext: "tables_extend (w_db w) (w_db v)" and r: "r = active_address k h (w_db v)"
  from r active_address_extend [OF ext assms(4)] obtain a where a: "active_address k h (w_db v) = Some a" "r = Some a" by auto
  with find_row_SomeD [OF a(1) [unfolded active_address_def]] I'
  show "wp (map_err ResolveDatabase (expect_row why r))
     (\<lambda>a w'. cust_inv L plain mount d0 w' \<and> a \<in> set (t_customer_address (w_db w')) \<and> holds k h a)
     (\<lambda>e w'. not_panic e \<and> cust_inv L plain mount d0 w') v"
    by (simp add: expect_row_def wp_simps)
qed

lemma resolve_explicit_inv:
  assumes E: "projection_grows E" "keys_grow E" and I: "cust_inv L plain mount d0 w"
  shows "wp (map_err ResolveDatabase (resolve_explicit E i l tz))
     (\<lambda>r w'. cust_inv L plain mount d0 w' \<and> customer_at (fst r) (w_db w') \<noteq> None)
     (\<lambda>e w'. not_panic e \<and> cust_inv L plain mount d0 w') w"
proof -
  let ?R = "\<lambda>e w'. not_panic e \<and> cust_inv L plain mount d0 w'"
  have mint: "wp (map_err ResolveDatabase (thenE (mint_provisional_customer E j l tz) (ret (j, None))))
      (\<lambda>r w'. cust_inv L plain mount d0 w' \<and> customer_at (fst r) (w_db w') \<noteq> None) ?R v"
    if "cust_inv L plain mount d0 v" for j v
  proof -
    have "wp (map_err ResolveDatabase (stmt E (\<lambda>n d. Inr ((), snd (insert_customer j l tz True None t d)))))
        (\<lambda>_ w'. cust_inv L plain mount d0 w' \<and> tables_extend (w_db (v\<lparr>w_tick := Suc (w_tick v)\<rparr>)) (w_db w')
           \<and> customer_at j (w_db w') \<noteq> None) ?R (v\<lparr>w_tick := Suc (w_tick v)\<rparr>)" for t
      by (rule wp_cust_stmt [OF E]) (use that insert_customer_effect in
          \<open>auto simp: cust_inv_tick keys_extend_def find_dek_row_def insert_customer_def\<close>)
    note st = this [unfolded wp_map_err]
    show ?thesis
      unfolding mint_provisional_customer_def map_err_bindE exec_def map_err_ret wp_bindE wp_map_err wp_utc_now wp_ret_eta
      by (rule wp_mono [OF st]) auto
  qed
  show ?thesis
    unfolding resolve_explicit_def expand_alias_def map_err_bindE
  proof (rule wp_bindI [OF follow_alias_inv [OF E I]])
    fix j v assume v: "cust_inv L plain mount d0 v"
    show "wp (bindE (map_err ResolveDatabase (find_customer E j)) (\<lambda>found. map_err ResolveDatabase
        (case found of Some row \<Rightarrow> ret (j, non_provisional_locale row)
         | None \<Rightarrow> thenE (mint_provisional_customer E j l tz) (ret (j, None)))))
      (\<lambda>r w'. cust_inv L plain mount d0 w' \<and> customer_at (fst r) (w_db w') \<noteq> None) ?R v"
      unfolding find_customer_def
      by (rule wp_bindI [OF wp_cust_query [OF E v]]) (use mint in \<open>auto simp: wp_ret split: option.splits\<close>)
  qed
qed

lemma resolve_external_inv:
  assumes E: "projection_grows E" "keys_grow E" and I: "cust_inv L plain mount d0 w"
  shows "wp (map_err ResolveDatabase (resolve_external E s x l tz))
     (\<lambda>r w'. cust_inv L plain mount d0 w' \<and> customer_at (fst r) (w_db w') \<noteq> None)
     (\<lambda>e w'. not_panic e \<and> cust_inv L plain mount d0 w') w"
proof -
  let ?R = "\<lambda>e w'. not_panic e \<and> cust_inv L plain mount d0 w'"
  let ?Q = "\<lambda>i w'. cust_inv L plain mount d0 w' \<and> customer_at i (w_db w') \<noteq> None"
  have found: "wp (map_err ResolveDatabase (bindE (find_customer E i) (expect_row why))) (\<lambda>_. ?Q i) ?R v"
    if q: "?Q i v" for i why v
    unfolding map_err_bindE find_customer_def
  proof (rule wp_bindI [OF wp_cust_query [OF E conjunct1 [OF q]]], elim conjE)
    fix r u assume u: "cust_inv L plain mount d0 u" "tables_extend (w_db v) (w_db u)" "r = customer_at i (w_db u)"
    then obtain row where "customer_at i (w_db u) = Some row" using customer_at_extend [OF u(2) conjunct2 [OF q]] by auto
    with u show "wp (map_err ResolveDatabase (expect_row why r)) (\<lambda>_. ?Q i) ?R u"
      by (simp add: expect_row_def wp_simps)
  qed
  have lost: "wp (map_err ResolveDatabase (bindE (find_customer_by_external_id E s x) (expect_row why))) ?Q ?R v"
    if q: "cust_inv L plain mount d0 v" "external_customer s x (w_db v) \<noteq> None" for why v
    unfolding map_err_bindE find_customer_by_external_id_def
  proof (rule wp_bindI [OF wp_cust_query [OF E q(1)]], elim conjE)
    fix r u assume u: "cust_inv L plain mount d0 u" "tables_extend (w_db v) (w_db u)" "r = external_customer s x (w_db u)"
    then obtain j where "external_customer s x (w_db u) = Some j" using external_customer_extend [OF u(2) q(2)] by auto
    with u external_customer_exists [of "w_db u" s x j] show "wp (map_err ResolveDatabase (expect_row why r)) ?Q ?R u"
      by (auto simp: expect_row_def wp_simps cust_inv_def)
  qed
  have ins: "wp (map_err ResolveDatabase (stmt E (\<lambda>_ d. let d1 = snd (insert_customer i l tz True None t d);
        (inserted, d2) = insert_external_id s x i d1 in Inr (inserted, if inserted then d2 else d))))
      (\<lambda>b w'. cust_inv L plain mount d0 w' \<and> tables_extend (w_db v) (w_db w')
         \<and> (if b then customer_at i (w_db w') \<noteq> None else external_customer s x (w_db w') \<noteq> None)) ?R v"
    if "cust_inv L plain mount d0 v" for i t v
  proof (rule wp_cust_stmt [OF E that], goal_cases)
    case (1 n d)
    let ?d1 = "snd (insert_customer i l tz True None t d)"
    note c = insert_customer_effect [OF 1(1), of i l tz True None t]
    note x = insert_external_id_effect [OF c(1,3), of s x]
    have "external_customer s x ?d1 = external_customer s x d" by (simp add: external_customer_def insert_customer_def)
    moreover have "keys_extend d (snd (insert_external_id s x i ?d1))"
      by (simp add: keys_extend_def find_dek_row_def insert_customer_def insert_external_id_def)
    ultimately show ?case
      using c x customer_at_extend [OF x(2) c(3)] 1(1)
      by (auto simp: Let_def insert_external_id_def [of s x i] intro: tables_extend_trans split: prod.splits)
  qed
  have mint: "wp (map_err ResolveDatabase (mint_provisional_customer_with_external_id E s x l tz)) ?Q ?R v"
    if "cust_inv L plain mount d0 v" for v
    unfolding mint_provisional_customer_with_external_id_def map_err_bindE wp_bindE [of "map_err _ (new_uuid E)"]
      wp_bindE [of "map_err _ (utc_now E)"] wp_map_err [of _ "new_uuid E"] wp_map_err [of _ "utc_now E"] wp_new_uuid wp_utc_now
    by (rule wp_bindI [OF ins]) (use that lost in \<open>auto simp: cust_inv_tick wp_ret split: if_splits\<close>)
  show ?thesis
    unfolding resolve_external_def map_err_bindE find_customer_by_external_id_def
  proof (rule wp_bindI [OF wp_cust_query [OF E I]], elim conjE)
    fix r v assume v: "cust_inv L plain mount d0 v" "r = external_customer s x (w_db v)"
    show "wp (map_err ResolveDatabase (case r of
        Some i \<Rightarrow> bindE (bindE (find_customer E i) (expect_row ''row for external id''))
          (\<lambda>row. ret (i, non_provisional_locale row))
      | None \<Rightarrow> bindE (mint_provisional_customer_with_external_id E s x l tz) (\<lambda>i. ret (i, None))))
      (\<lambda>r w'. cust_inv L plain mount d0 w' \<and> customer_at (fst r) (w_db w') \<noteq> None) ?R v"
    proof (cases r)
      case None
      then show ?thesis
        unfolding None option.case map_err_bindE [where m = "mint_provisional_customer_with_external_id E s x l tz"]
        by (intro wp_bindI [OF mint [OF v(1)]]) (simp add: wp_ret)
    next
      case (Some i)
      with v have "?Q i v" using external_customer_exists [of "w_db v" s x i] by (simp add: cust_inv_def)
      then show ?thesis
        unfolding Some option.case
        by (subst map_err_bindE) (rule wp_bindI [OF found], auto simp: wp_ret)
    qed
  qed
qed


section \<open>Addresses\<close>

lemma encrypt_only_ticks:
  "wp (encrypt C E dek aad pt) (\<lambda>_ w'. \<exists>n. w' = w\<lparr>w_tick := n\<rparr>) (\<lambda>_ w'. \<exists>n. w' = w\<lparr>w_tick := n\<rparr>) w"
proof -
  have "\<exists>n. w = w\<lparr>w_tick := n\<rparr>" by (rule exI [of _ "w_tick w"]) simp
  then show ?thesis unfolding encrypt_def wp_simps by (auto simp: wp_simps simp del: upt_rec split: option.splits)
qed

lemma insert_dek_tables [simp]: "tables_extend d0 (snd (insert_dek c wr t d)) = tables_extend d0 d"
  "customers_ok (snd (insert_dek c wr t d)) = customers_ok d"
  by (simp_all add: insert_dek_def tables_extend_def customers_ok_def customer_at_def)

text \<open>\<open>get_or_create_dek\<close> keeps the state; the panic it guards against does not happen.\<close>

lemma dek_step_key:
  fixes w :: "('c, 'z) key_world_scheme"
  assumes S: "resolution_setting L E K plain" and I: "cust_inv L plain mount d0 w"
  shows "wp (get_or_create_dek L E K mount c)
     (\<lambda>p w'. cust_inv L plain mount d0 w' \<and> tables_extend (w_db w) (w_db w') \<and> keys_extend (w_db w) (w_db w')
        \<and> holds_key plain mount c p w')
     (\<lambda>e w'. (e = DekDatabase Io \<or> (\<exists>v. e = DekVault v)) \<and> cust_inv L plain mount d0 w') w"
proof -
  let ?P = "\<lambda>d. customers_ok d \<and> tables_extend (w_db w) d"
  have st: "db_stable E ?P"
    using S by (auto simp: resolution_setting_def projection_grows_def db_stable_def intro: tables_extend_trans)
  have "keeps (db_inv ?P) (get_or_create_dek L E K mount c :: (('c, 'z) key_world_scheme, dek_error, bytes) io)"
    by (rule keeps_get_or_create_dek [OF st]) simp
  then have k1: "wp (get_or_create_dek L E K mount c) (\<lambda>_. db_inv ?P) (\<lambda>_. db_inv ?P) w"
    using I by (intro keeps_wp) (auto simp: db_inv_def cust_inv_def)
  have k2: "wp (get_or_create_dek L E K mount c)
     (\<lambda>p w'. dek_inv L plain mount (w_db w) w' \<and> holds_key plain mount c p w')
     (\<lambda>e w'. e \<noteq> DekPanic \<and> dek_inv L plain mount (w_db w) w') w"
    using S I by (intro get_or_create_dek_inv) (auto simp: resolution_setting_def cust_inv_def dek_inv_def)
  note all = wp_conj [OF wp_conj [OF k1 k2] fails_wp [OF fails_get_or_create_dek, of L E K mount c w]]
  have keep: "cust_inv L plain mount d0 w'" if "db_inv ?P w'" "dek_inv L plain mount (w_db w) w'" for w' :: "('c, 'z) key_world_scheme"
    using that I by (auto simp: cust_inv_def dek_inv_def db_inv_def intro: tables_extend_trans keys_extend_trans)
  show ?thesis
    by (rule wp_mono [OF all]) (use keep in \<open>auto simp: db_inv_def dek_inv_def\<close>)
qed

lemma dek_step:
  fixes w :: "('c, 'z) key_world_scheme"
  assumes S: "resolution_setting L E K plain" and I: "cust_inv L plain mount d0 w"
  shows "wp (map_err resolve_of_dek (get_or_create_dek L E K mount c))
     (\<lambda>p w'. cust_inv L plain mount d0 w' \<and> tables_extend (w_db w) (w_db w'))
     (\<lambda>e w'. not_panic e \<and> cust_inv L plain mount d0 w') w"
  by (rule wp_map_errI, rule wp_mono [OF dek_step_key [OF assms]]) auto

lemma locale_step:
  assumes E: "projection_grows E" "keys_grow E" and I: "cust_inv L plain mount d0 w"
  shows "wp (map_err ResolveDatabase (locale_of E i)) (\<lambda>_ w'. cust_inv L plain mount d0 w' \<and> tables_extend (w_db w) (w_db w'))
     (\<lambda>e w'. not_panic e \<and> cust_inv L plain mount d0 w') w"
  unfolding locale_of_def map_err_bindE find_customer_def
  by (rule wp_bindI [OF wp_cust_query [OF E I]]) (simp add: wp_ret)

lemma attach_address_inv:
  fixes w :: "('c, 'z) key_world_scheme"
  assumes S: "resolution_setting L E K plain" and I: "cust_inv L plain mount d0 w" and c: "customer_at (fst who) (w_db w) \<noteq> None"
  shows "wp (attach_address L E K C mount k h dst who)
     (\<lambda>r w'. cust_inv L plain mount d0 w' \<and> located k h r (w_db w'))
     (\<lambda>e w'. not_panic e \<and> cust_inv L plain mount d0 w') w"
proof -
  obtain cid loc where who: "who = (cid, loc)" by (cases who)
  have E: "projection_grows E" "keys_grow E" using S by (simp_all add: resolution_setting_def)
  let ?Q = "\<lambda>r (w' :: ('c, 'z) key_world_scheme). cust_inv L plain mount d0 w' \<and> located k h r (w_db w')"
  let ?R = "\<lambda>e (w' :: ('c, 'z) key_world_scheme). not_panic e \<and> cust_inv L plain mount d0 w'"
  let ?win = "bindE (map_err ResolveDatabase (bindE (find_active_address_by_hmac E k h) (expect_row ''row after lost race''))) (\<lambda>winner.
      bindE (if ca_customer_id winner = cid then ret loc else map_err ResolveDatabase (locale_of E (ca_customer_id winner))) (\<lambda>winner_locale.
      ret \<lparr>re_customer_id = ca_customer_id winner, re_address_id = ca_id winner, re_locale = winner_locale\<rparr>))"
  let ?ins = "\<lambda>ct now aid. map_err ResolveDatabase (stmt E (\<lambda>_ d. case next_rank_for_update cid k d of
      Inl e \<Rightarrow> Inl e | Inr rank \<Rightarrow> insert_address aid cid k ct h rank now now d))"
  have win: "wp ?win ?Q ?R v" if q: "cust_inv L plain mount d0 v" "active_address k h (w_db v) \<noteq> None" for v :: "('c, 'z) key_world_scheme"
  proof (rule wp_bindI [OF winner_found [OF E q]], elim conjE)
    fix a and u :: "('c, 'z) key_world_scheme"
    assume u: "cust_inv L plain mount d0 u" "a \<in> set (t_customer_address (w_db u))" "holds k h a"
    have "wp (if ca_customer_id a = cid then ret loc else map_err ResolveDatabase (locale_of E (ca_customer_id a)))
        (\<lambda>_ w'. cust_inv L plain mount d0 w' \<and> tables_extend (w_db u) (w_db w')) ?R u"
      using u(1) locale_step [OF E u(1)] by (simp add: wp_ret)
    then show "wp (bindE (if ca_customer_id a = cid then ret loc else map_err ResolveDatabase (locale_of E (ca_customer_id a)))
        (\<lambda>winner_locale. ret \<lparr>re_customer_id = ca_customer_id a, re_address_id = ca_id a, re_locale = winner_locale\<rparr>)) ?Q ?R u"
      by (rule wp_bindI) (use u in \<open>auto simp: wp_ret located_def tables_extend_def\<close>)
  qed
  have ins: "wp (?ins ct now aid) (\<lambda>b w'. cust_inv L plain mount d0 w' \<and> tables_extend (w_db v) (w_db w')
      \<and> (active_address k h (w_db w') \<noteq> None \<and> (b \<longrightarrow> located k h \<lparr>re_customer_id = cid, re_address_id = aid, re_locale = loc\<rparr> (w_db w')))) ?R v"
    if "cust_inv L plain mount d0 v" for ct now aid and v :: "('c, 'z) key_world_scheme"
  proof (rule wp_cust_stmt [OF E that], goal_cases)
    case (1 n d)
    show ?case
    proof (cases "case next_rank_for_update cid k d of Inl e \<Rightarrow> Inl e | Inr rank \<Rightarrow> insert_address aid cid k ct h rank now now d")
      case (Inl e)
      then show ?thesis
        by (auto simp: next_rank_for_update_def insert_address_def Let_def split: sum.splits if_splits)
    next
      case (Inr bd)
      obtain b d' where bd: "bd = (b, d')" by (cases bd)
      with Inr obtain rank where r: "insert_address aid cid k ct h rank now now d = Inr (b, d')" by (auto split: sum.splits)
      then have "t_customer_dek d' = t_customer_dek d" by (auto simp: insert_address_def Let_def split: if_splits)
      then have "keys_extend d d'" by (simp add: keys_extend_def find_dek_row_def)
      with Inr bd insert_address_effect [OF 1(1) r] show ?thesis by (simp add: located_def)
    qed
  qed
  have fin: "wp (bindE (?ins ct now aid) (\<lambda>inserted. if inserted then ret \<lparr>re_customer_id = cid, re_address_id = aid, re_locale = loc\<rparr> else ?win)) ?Q ?R v"
    if "cust_inv L plain mount d0 v" for ct now aid and v :: "('c, 'z) key_world_scheme"
    by (rule wp_bindI [OF ins [OF that]]) (use win in \<open>auto simp: wp_ret split: if_splits\<close>)
  have mk: "wp (bindE (new_uuid E) (\<lambda>aid. bindE (map_err ResolveEncryption (encrypt C E dek (cy_uuid_bytes C aid) (as_bytes dst))) (\<lambda>ct.
      bindE (utc_now E) (\<lambda>now. bindE (?ins ct now aid) (\<lambda>inserted.
        if inserted then ret \<lparr>re_customer_id = cid, re_address_id = aid, re_locale = loc\<rparr> else ?win))))) ?Q ?R v"
    if q: "cust_inv L plain mount d0 v" for dek and v :: "('c, 'z) key_world_scheme"
    unfolding wp_bindE [of "new_uuid E"] wp_new_uuid
  proof (rule wp_bindI [OF wp_map_errI [OF wp_mono [OF encrypt_only_ticks]]], assumption)
    fix ct and u :: "('c, 'z) key_world_scheme"
    assume "\<exists>n. u = v\<lparr>w_tick := Suc (w_tick v)\<rparr>\<lparr>w_tick := n\<rparr>"
    with q have "cust_inv L plain mount d0 (u\<lparr>w_tick := Suc (w_tick u)\<rparr>)" by (auto simp: cust_inv_tick)
    then show "wp (bindE (utc_now E) (\<lambda>now. bindE (?ins ct now (e_new_uuid E (w_tick v))) (\<lambda>inserted.
        if inserted then ret \<lparr>re_customer_id = cid, re_address_id = e_new_uuid E (w_tick v), re_locale = loc\<rparr> else ?win))) ?Q ?R u"
      unfolding wp_bindE [of "utc_now E"] wp_utc_now by (rule fin)
  qed (use q in \<open>auto simp: cust_inv_tick not_panic_def\<close>)
  show ?thesis
    unfolding attach_address_def who prod.case find_active_address_for_customer_def
  proof (rule wp_bindI [OF wp_cust_query [OF E I]], elim conjE)
    fix r and v :: "('c, 'z) key_world_scheme"
    assume v: "cust_inv L plain mount d0 v"
      "r = find_row (\<lambda>a. ca_customer_id a = cid \<and> holds k h a) (t_customer_address (w_db v))"
    show "wp (case r of Some a \<Rightarrow> ret \<lparr>re_customer_id = cid, re_address_id = ca_id a, re_locale = loc\<rparr>
       | None \<Rightarrow> bindE (map_err resolve_of_dek (get_or_create_dek L E K mount cid)) (\<lambda>dek.
          bindE (new_uuid E) (\<lambda>aid. bindE (map_err ResolveEncryption (encrypt C E dek (cy_uuid_bytes C aid) (as_bytes dst))) (\<lambda>ct.
          bindE (utc_now E) (\<lambda>now. bindE (?ins ct now aid) (\<lambda>inserted.
            if inserted then ret \<lparr>re_customer_id = cid, re_address_id = aid, re_locale = loc\<rparr> else ?win)))))) ?Q ?R v"
    proof (cases r)
      case None
      show ?thesis
        unfolding None option.case by (rule wp_bindI [OF dek_step [OF S v(1)]]) (use mk in auto)
    next
      case (Some a)
      with v find_row_SomeD [of _ _ a] show ?thesis by (force simp: wp_ret located_def)
    qed
  qed
qed


lemma cust_inv_put:
  assumes "lru_lawful L" and "cust_inv L plain mount d0 w" and "find_dek_row c (w_db w) = Some r" and "plain mount (dk_wrapped_dek r) = p"
  shows "cust_inv L plain mount d0 (w\<lparr>w_tick := n, w_keys := key_cache_put L t c p (w_keys w)\<rparr>)"
  using assms coherent_put [OF assms(1)] by (simp add: cust_inv_def dek_inv_def)

lemma mint_address_inv:
  fixes w :: "('c, 'z) key_world_scheme"
  assumes S: "resolution_setting L E K plain" and I: "cust_inv L plain mount d0 w" and U: "uuids_keyless E (w_db w)"
  shows "wp (mint_provisional_customer_and_address L E K C mount k h dst l tz)
     (\<lambda>r w'. cust_inv L plain mount d0 w' \<and> located k h \<lparr>re_customer_id = fst r, re_address_id = snd r, re_locale = None\<rparr> (w_db w'))
     (\<lambda>e w'. not_panic e \<and> cust_inv L plain mount d0 w') w"
proof -
  have E: "projection_grows E" "keys_grow E" and L: "lru_lawful L" and K: "keystore_lawful K plain"
    using S by (simp_all add: resolution_setting_def)
  define cid where "cid = e_new_uuid E (w_tick w)"
  let ?I = "\<lambda>w' :: ('c, 'z) key_world_scheme. cust_inv L plain mount d0 w'"
  let ?Q = "\<lambda>r w'. ?I w' \<and> located k h \<lparr>re_customer_id = fst r, re_address_id = snd r, re_locale = None\<rparr> (w_db w')"
  let ?R = "\<lambda>e w'. not_panic e \<and> ?I w'"
  let ?tx = "\<lambda>dek ct now aid. map_err ResolveDatabase (stmt E (\<lambda>_ d.
      let d1 = snd (insert_customer cid l tz True None now d) in
      case insert_address aid cid k ct h 1 now now d1 of
        Inl e \<Rightarrow> Inl e
      | Inr (inserted, d2) \<Rightarrow> Inr (inserted, if inserted then snd (insert_dek cid (snd dek) now d2) else d)))"
  let ?rest = "\<lambda>dek aid inserted. if inserted then thenE (cache_put L E cid (fst dek)) (ret (cid, aid))
      else bindE (map_err ResolveDatabase (bindE (find_active_address_by_hmac E k h) (expect_row ''row after lost race'')))
        (\<lambda>winner. ret (ca_customer_id winner, ca_id winner))"
  have tx: "wp (?tx dek ct now aid) (\<lambda>b w'. ?I w' \<and> tables_extend (w_db v) (w_db w')
      \<and> active_address k h (w_db w') \<noteq> None
      \<and> (b \<longrightarrow> located k h \<lparr>re_customer_id = cid, re_address_id = aid, re_locale = None\<rparr> (w_db w')
           \<and> (\<exists>r. find_dek_row cid (w_db w') = Some r \<and> dk_wrapped_dek r = snd dek))) ?R v"
    if q: "?I v" "find_dek_row cid (w_db v) = None" for dek :: "bytes \<times> string" and ct now aid and v :: "('c, 'z) key_world_scheme"
  proof (rule wp_cust_stmt [OF E q(1)], goal_cases)
    case (1 n d)
    let ?d1 = "snd (insert_customer cid l tz True None now d)"
    note c = insert_customer_effect [OF 1(1), of cid l tz True None now]
    have none: "find_dek_row cid d = None"
      using S q(2) 1(5) by (auto simp: resolution_setting_def db_stable_def cid_def)
    show ?case
    proof (cases "insert_address aid cid k ct h 1 now now ?d1")
      case (Inl e)
      then show ?thesis by (auto simp: Let_def insert_address_def split: if_splits)
    next
      case (Inr bd)
      obtain b d2 where bd: "bd = (b, d2)" by (cases bd)
      note ins = insert_address_effect [OF c(1) Inr [unfolded bd]]
      have dek: "t_customer_dek d2 = t_customer_dek d"
        using Inr bd by (auto simp: insert_address_def Let_def insert_customer_def split: if_splits)
      then have d2: "find_dek_row j d2 = find_dek_row j d" for j by (simp add: find_dek_row_def)
      have keys: "keys_extend d (snd (insert_dek cid (snd dek) now d2))"
        by (rule keys_extend_trans [OF _ insert_dek_extends]) (simp add: keys_extend_def d2)
      have act: "active_address k h (snd (insert_dek cid (snd dek) now d2)) = active_address k h d2"
        "located k h r (snd (insert_dek cid (snd dek) now d2)) = located k h r d2" for r
        by (simp_all add: active_address_def insert_dek_def located_def)
      have lose: "active_address k h d \<noteq> None" if "\<not> b"
        using ins that by (auto simp: active_address_def insert_customer_def)
      have loc: "located k h \<lparr>re_customer_id = cid, re_address_id = aid, re_locale = None\<rparr> d2" if b
        using ins that by (simp add: located_def)
      show ?thesis
        using Inr bd ins keys act none d2 lose loc 1(1) tables_extend_trans [OF c(2)] find_insert_dek [of cid "snd dek" now d2]
        by (cases b) (auto simp: Let_def)
    qed
  qed
  have fin: "wp (bindE (?tx dek ct now aid) (?rest dek aid)) ?Q ?R v"
    if q: "?I v" "find_dek_row cid (w_db v) = None" "plain mount (snd dek) = fst dek" for dek :: "bytes \<times> string" and ct now aid and v :: "('c, 'z) key_world_scheme"
  proof (rule wp_bindI [OF tx [OF q(1,2)]], elim conjE)
    fix b and u :: "('c, 'z) key_world_scheme"
    assume u: "?I u" "active_address k h (w_db u) \<noteq> None" "b \<longrightarrow> located k h \<lparr>re_customer_id = cid, re_address_id = aid, re_locale = None\<rparr> (w_db u)
           \<and> (\<exists>r. find_dek_row cid (w_db u) = Some r \<and> dk_wrapped_dek r = snd dek)"
    show "wp (?rest dek aid b) ?Q ?R u"
    proof (cases b)
      case True
      with u q(3) show ?thesis
        by (auto simp: wp_bindE wp_cache_put wp_ret intro!: cust_inv_put [OF L u(1)])
    next
      case False
      have "wp (bindE (map_err ResolveDatabase (bindE (find_active_address_by_hmac E k h) (expect_row ''row after lost race'')))
        (\<lambda>winner. ret (ca_customer_id winner, ca_id winner))) ?Q ?R u"
        by (rule wp_bindI [OF winner_found [OF E u(1,2)]]) (auto simp: wp_ret located_def)
      with False show ?thesis by simp
    qed
  qed
  have enc: "wp (bindE (map_err ResolveEncryption (encrypt C E (fst dek) aad pt)) (\<lambda>ct. bindE (?tx dek ct now aid) (?rest dek aid))) ?Q ?R v"
    if q: "?I v" "find_dek_row cid (w_db v) = None" "plain mount (snd dek) = fst dek"
    for dek :: "bytes \<times> string" and aad pt now aid and v :: "('c, 'z) key_world_scheme"
  proof (rule wp_bindI [OF wp_map_errI [OF wp_mono [OF encrypt_only_ticks]]], assumption)
    fix ct and u :: "('c, 'z) key_world_scheme" assume "\<exists>n. u = v\<lparr>w_tick := n\<rparr>"
    with q have "?I u" "find_dek_row cid (w_db u) = None" by (auto simp: cust_inv_tick)
    then show "wp (bindE (?tx dek ct now aid) (?rest dek aid)) ?Q ?R u" by (rule fin [OF _ _ q(3)])
  qed (use q in \<open>auto simp: cust_inv_tick not_panic_def\<close>)
  have w: "?I (w\<lparr>w_tick := n\<rparr>)" "find_dek_row cid (w_db w) = None" for n
    using I U by (simp_all add: cust_inv_tick uuids_keyless_def cid_def)
  have plain: "plain mount (snd dek) = fst dek" if "k_create K n mount = Inr dek" for n dek
    using K that by (cases dek) (simp add: keystore_lawful_def)
  let ?n = "Suc (Suc (Suc (w_tick w)))"
  note open_mint = mint_provisional_customer_and_address_def wp_bindE [of "new_uuid E"] wp_bindE [of "utc_now E"]
    wp_bindE [of "map_err ResolveVault (create_dek K mount)"] wp_new_uuid wp_utc_now wp_map_err [of ResolveVault] wp_create_dek
  show ?thesis
  proof (cases "k_create K ?n mount")
    case (Inl e)
    with w show ?thesis by (simp add: open_mint)
  next
    case (Inr dek)
    have "find_dek_row cid (w_db (w\<lparr>w_tick := Suc ?n\<rparr>)) = None" using w by simp
    from enc [OF w(1) this plain [OF Inr], of "cy_uuid_bytes C (e_new_uuid E (Suc (w_tick w)))" "as_bytes dst"
        "e_clock E (Suc (Suc (w_tick w)))" "e_new_uuid E (Suc (w_tick w))"] Inr
    show ?thesis by (simp add: open_mint cid_def cong: if_cong sum.case_cong prod.case_cong)
  qed
qed

section \<open>Resolution finds or mints\<close>

lemma resolve_inv:
  fixes w :: "('c, 'z) key_world_scheme"
  assumes S: "resolution_setting L E K plain" and U: "uuids_keyless E (w_db w)"
    and ok: "customers_ok (w_db w)" and coh: "coherent L plain mount (w_keys w) (w_db w)"
    and k: "kind_for_channel channel = Some kind"
  shows "wp (resolve L E K C mount pepper input dst channel l tz)
     (\<lambda>r w'. cust_inv L plain mount (w_db w) w' \<and> located kind (destination_hmac C pepper dst) r (w_db w'))
     (\<lambda>e w'. not_panic e \<and> cust_inv L plain mount (w_db w) w') w"
proof -
  have E: "projection_grows E" "keys_grow E" using S by (simp_all add: resolution_setting_def)
  have I: "cust_inv L plain mount (w_db w) w" using ok coh by (simp add: cust_inv_def dek_inv_def)
  have stab: "db_stable E (uuids_keyless E)"
    using S by (auto simp: resolution_setting_def db_stable_def uuids_keyless_def)
  let ?h = "destination_hmac C pepper dst"
  note attach = attach_address_inv [OF S, where k = kind and h = ?h and C = C and dst = dst]
  show ?thesis
  proof (cases input)
    case (Explicit i)
    with k show ?thesis
      by (simp add: resolve_def Let_def) (rule wp_bindI [OF resolve_explicit_inv [OF E I]], elim conjE, rule attach)
  next
    case (External s x)
    with k show ?thesis
      by (simp add: resolve_def Let_def) (rule wp_bindI [OF resolve_external_inv [OF E I]], elim conjE, rule attach)
  next
    case AddressOnly
    have "wp (map_err ResolveDatabase (query E (\<lambda>_. active_address kind ?h))) (\<lambda>_. db_inv (uuids_keyless E)) (\<lambda>_. db_inv (uuids_keyless E)) w"
      by (rule keeps_wp [OF keeps_map_err [OF keeps_query [OF stab]]]) (simp add: db_inv_def U)
    note both = wp_conj [OF wp_cust_query [OF E I] this]
    have look: "wp (map_err ResolveDatabase (query E (\<lambda>_. active_address kind ?h)))
        (\<lambda>r v. cust_inv L plain mount (w_db w) v \<and> r = active_address kind ?h (w_db v) \<and> uuids_keyless E (w_db v))
        (\<lambda>e w'. not_panic e \<and> cust_inv L plain mount (w_db w) w') w"
      by (rule wp_mono [OF both]) (auto simp: db_inv_def)
    have "wp (resolve_address_only L E K C mount kind ?h dst l tz)
       (\<lambda>r w'. cust_inv L plain mount (w_db w) w' \<and> located kind ?h r (w_db w'))
       (\<lambda>e w'. not_panic e \<and> cust_inv L plain mount (w_db w) w') w"
      unfolding resolve_address_only_def find_active_address_by_hmac_def
    proof (rule wp_bindI [OF look], elim conjE)
      fix r and v :: "('c, 'z) key_world_scheme"
      assume v: "cust_inv L plain mount (w_db w) v" "r = active_address kind ?h (w_db v)" "uuids_keyless E (w_db v)"
      show "wp (case r of
         Some a \<Rightarrow> bindE (map_err ResolveDatabase (locale_of E (ca_customer_id a))) (\<lambda>loc.
           ret \<lparr>re_customer_id = ca_customer_id a, re_address_id = ca_id a, re_locale = loc\<rparr>)
       | None \<Rightarrow> bindE (mint_provisional_customer_and_address L E K C mount kind ?h dst l tz)
           (\<lambda>(customer_id, address_id).
             ret \<lparr>re_customer_id = customer_id, re_address_id = address_id, re_locale = None\<rparr>))
         (\<lambda>r w'. cust_inv L plain mount (w_db w) w' \<and> located kind ?h r (w_db w'))
         (\<lambda>e w'. not_panic e \<and> cust_inv L plain mount (w_db w) w') v"
      proof (cases r)
        case None
        show ?thesis
          unfolding None option.case
          by (rule wp_bindI [OF mint_address_inv [OF S v(1,3)]]) (auto simp: wp_ret split: prod.splits)
      next
        case (Some a)
        with v find_row_SomeD [of "holds kind ?h" _ a] have a: "a \<in> set (t_customer_address (w_db v))" "holds kind ?h a"
          by (auto simp: active_address_def)
        show ?thesis
          unfolding Some option.case
          by (rule wp_bindI [OF locale_step [OF E v(1)]]) (use a in \<open>auto simp: wp_ret located_def tables_extend_def\<close>)
      qed
    qed
    with AddressOnly k show ?thesis by (simp add: resolve_def Let_def)
  qed
qed


text \<open>Resolution writes only its own tables.\<close>

definition ignores_projection :: "(tenant_db \<Rightarrow> bool) \<Rightarrow> bool" where
  "ignores_projection P \<longleftrightarrow> (\<forall>d x y z k. P d \<longrightarrow>
     P (d\<lparr>t_customer := x, t_customer_external_id := y, t_customer_address := z, t_customer_dek := k\<rparr>))"

lemma ignores_writes:
  assumes "ignores_projection P" and "P d"
  shows "P (snd (insert_customer i l tz p su c d))" "P (snd (insert_external_id s x i d))" "P (snd (insert_dek c' wr t d))"
    "insert_address a c'' k ct h r af su' d = Inr (b, d') \<Longrightarrow> P d'"
proof -
  have P: "P (d\<lparr>t_customer := x, t_customer_external_id := y, t_customer_address := z, t_customer_dek := k\<rparr>)" for x y z k
    using assms by (simp add: ignores_projection_def)
  show "P (snd (insert_customer i l tz p su c d))"
    using P [where y = "t_customer_external_id d" and z = "t_customer_address d" and k = "t_customer_dek d"] by (simp add: insert_customer_def)
  show "P (snd (insert_external_id s x i d))"
    using P [where x = "t_customer d" and z = "t_customer_address d" and k = "t_customer_dek d"] by (simp add: insert_external_id_def)
  show "P (snd (insert_dek c' wr t d))"
    using P [where x = "t_customer d" and y = "t_customer_external_id d" and z = "t_customer_address d"] by (simp add: insert_dek_def)
  show "P d'" if "insert_address a c'' k ct h r af su' d = Inr (b, d')"
    using that assms(2) P [where x = "t_customer d" and y = "t_customer_external_id d" and k = "t_customer_dek d"]
    by (auto simp: insert_address_def Let_def split: if_splits)
qed

lemma keeps_expect_row [keeps_intros]: "keeps P (expect_row why r)"
  by (simp add: expect_row_def keeps_of_result)

lemma keeps_resolution_parts [keeps_intros]:
  assumes "db_stable E P"
  shows "keeps (db_inv P) (follow_alias n E i)" "keeps (db_inv P) (find_customer E i)" "keeps (db_inv P) (locale_of E i)"
    "keeps (db_inv P) (find_customer_by_external_id E s x)" "keeps (db_inv P) (find_active_address_by_hmac E k h)"
    "keeps (db_inv P) (find_active_address_for_customer E c k h)"
proof -
  show "keeps (db_inv P) (follow_alias n E i)"
    by (induction n arbitrary: i) (auto intro!: keeps_intros assms)
  show "keeps (db_inv P) (locale_of E i)"
    unfolding locale_of_def find_customer_def by (intro keeps_intros assms)
qed (simp_all add: find_customer_def find_customer_by_external_id_def find_active_address_by_hmac_def
    find_active_address_for_customer_def keeps_query assms)

lemma keeps_resolve [keeps_intros]:
  assumes S: "db_stable E P" and P: "ignores_projection P"
  shows "keeps (db_inv P) (resolve L E K C mount pepper input dst channel l tz)"
proof -
  note W = ignores_writes [OF P]
  have m1: "keeps (db_inv P) (mint_provisional_customer E i l tz)" for i
    unfolding mint_provisional_customer_def by (intro keeps_intros S W(1))
  have b2: "P d'" if "P d" and "(let d1 = snd (insert_customer i l tz True None now d); (inserted, d2) = insert_external_id s x i d1
      in Inr (inserted, if inserted then d2 else d)) = Inr (a, d')" for d d' :: tenant_db and i now s x a
    using that W(2) [OF W(1) [OF that(1)]] by (simp add: Let_def case_prod_beta split: if_splits) metis+
  have m2: "keeps (db_inv P) (mint_provisional_customer_with_external_id E s x l tz)" for s x
    unfolding mint_provisional_customer_with_external_id_def by (intro keeps_intros keeps_stmt S) (erule (1) b2)
  have b3: "P d'" if "P d" and "(let d1 = snd (insert_customer i l tz True None now d) in
      case insert_address aid i k ct h 1 now now d1 of Inl e \<Rightarrow> Inl e
      | Inr (inserted, d2) \<Rightarrow> Inr (inserted, if inserted then snd (insert_dek i wr now d2) else d)) = Inr (a, d')"
    for d d' :: tenant_db and i now aid k ct h wr a
    using that W(4) [OF W(1) [OF that(1)]] W(3)
    by (auto simp: Let_def split: sum.splits if_splits)
  have m3: "keeps (db_inv P) (mint_provisional_customer_and_address L E K C mount k h dst l tz)" for k h
    unfolding mint_provisional_customer_and_address_def by (intro keeps_intros keeps_stmt S) (erule (1) b3)
  have b4: "P d'" if "P d" and "(case next_rank_for_update c k d of Inl e \<Rightarrow> Inl e
      | Inr rank \<Rightarrow> insert_address aid c k ct h rank now now d) = Inr (a, d')" for d d' :: tenant_db and c k aid ct h now a
    using that W(4) [OF that(1)] by (auto split: sum.splits)
  have m4: "keeps (db_inv P) (attach_address L E K C mount k h dst (c, loc))" for k h c loc
    unfolding attach_address_def prod.case by (intro keeps_intros keeps_stmt S W(3)) (assumption, erule (1) b4)
  have m5: "keeps (db_inv P) (resolve_address_only L E K C mount k h dst l tz)" for k h
    unfolding resolve_address_only_def case_prod_beta by (intro keeps_intros S m3)
  have m6: "keeps (db_inv P) (resolve_explicit E i l tz)" "keeps (db_inv P) (resolve_external E s x l tz)" for i s x
    unfolding resolve_explicit_def resolve_external_def expand_alias_def by (intro keeps_intros S m1 m2)+
  have m4': "keeps (db_inv P) (attach_address L E K C mount k h dst who)" for k h who
    by (cases who) (simp add: m4)
  show ?thesis
    unfolding resolve_def Let_def
    by (cases input) (auto intro!: keeps_bindE keeps_map_err keeps_throw m4' m5 m6 split: option.splits)
qed

section \<open>Properties of resolution\<close>

text \<open>C37: Resolution finds or mints.  Whatever fails and whoever else resolves at the same time, a call that
  returns names an active address that holds the destination's hash for the channel's kind
  and the customer that address belongs to; a message is never filed under an address of
  somebody else.  The projection stays consistent (unique keys, unique active destination,
  unique active rank, no dangling reference), no row of it disappears, the key cache stays in
  agreement with the key table, and none of the four \<open>expect\<close>s fires.\<close>

theorem resolve_finds_or_mints:
  assumes "resolution_setting L E K plain" and "uuids_keyless E (w_db w)" and "customers_ok (w_db w)"
    and "coherent L plain mount (w_keys w) (w_db w)" and "kind_for_channel channel = Some kind"
  shows "wp (resolve L E K C mount pepper input dst channel l tz)
     (\<lambda>r w'. (\<exists>a \<in> set (t_customer_address (w_db w')). ca_id a = re_address_id r \<and> ca_customer_id a = re_customer_id r
          \<and> ca_kind a = kind \<and> ca_value_hmac a = destination_hmac C pepper dst \<and> ca_active_to a = None)
        \<and> customer_at (re_customer_id r) (w_db w') \<noteq> None
        \<and> customers_ok (w_db w') \<and> tables_extend (w_db w) (w_db w') \<and> coherent L plain mount (w_keys w') (w_db w'))
     (\<lambda>e w'. (\<forall>p. e \<noteq> ResolveDatabase (Panic p))
        \<and> customers_ok (w_db w') \<and> tables_extend (w_db w) (w_db w') \<and> coherent L plain mount (w_keys w') (w_db w')) w"
  by (rule wp_mono [OF resolve_inv [OF assms, of C pepper input dst l tz]])
    (auto simp: cust_inv_def dek_inv_def located_def holds_def not_panic_def customers_ok_def)

lemma quiet_resolution_setting:
  "quiet E \<Longrightarrow> lru_lawful L \<Longrightarrow> keystore_lawful K plain \<Longrightarrow> resolution_setting L E K plain"
  by (simp add: resolution_setting_def projection_grows_def quiet_stable)

lemma cold_world_ok [simp]:
  "customers_ok (w_db cold_world)" "uuids_keyless E (w_db cold_world)" "coherent list_lru plain mount (w_keys cold_world) (w_db cold_world)"
  by (simp_all add: cold_world_def customers_ok_def uuids_keyless_def coherent_def empty_db_def list_lru_def find_dek_row_def)

theorem resolve_finds_or_mints_witness:
  "wp (resolve list_lru (quiet_env 0) sample_keystore framed_crypto ''mount'' [9] AddressOnly ''+421'' ''sms'' ''en'' ''UTC'')
     (\<lambda>r w'. (\<exists>a \<in> set (t_customer_address (w_db w')). ca_id a = re_address_id r \<and> ca_customer_id a = re_customer_id r
          \<and> ca_kind a = ''msisdn'' \<and> ca_value_hmac a = destination_hmac framed_crypto [9] ''+421'' \<and> ca_active_to a = None)
        \<and> customer_at (re_customer_id r) (w_db w') \<noteq> None
        \<and> customers_ok (w_db w') \<and> tables_extend (w_db cold_world) (w_db w')
        \<and> coherent list_lru (\<lambda>_ _. replicate 32 7) ''mount'' (w_keys w') (w_db w'))
     (\<lambda>e w'. (\<forall>p. e \<noteq> ResolveDatabase (Panic p))
        \<and> customers_ok (w_db w') \<and> tables_extend (w_db cold_world) (w_db w')
        \<and> coherent list_lru (\<lambda>_ _. replicate 32 7) ''mount'' (w_keys w') (w_db w')) cold_world"
  by (rule resolve_finds_or_mints) (simp_all add: quiet_resolution_setting kind_for_channel_def)

end
