(* ===== verification/Settings.thy ===== *)
theory Settings
  imports Command
begin

text \<open>
  The settings of a tenant an operator reads and writes from the command line: the typed
  configuration (\<open>tenant_config/\<close>), the provider list of a channel (\<open>provider_config/\<close>) and the
  quiet-hours window (\<open>quiet_hours/configure.rs\<close>, \<open>repo.rs\<close>).  The Rust \<open>*Input\<close> structs have the
  columns of their rows and share their records.

  The tenant configuration is read and written in one transaction under an advisory lock;
  the other two are read and written by separate statements.
\<close>

section \<open>Tenant configuration\<close>

type_synonym tenant_config_input = tenant_config

definition tenant_config_matches :: "tenant_config_input \<Rightarrow> tenant_config \<Rightarrow> bool" where
  "tenant_config_matches input existing \<longleftrightarrow>
     tc_retention_years input = tc_retention_years existing
   \<and> tc_default_timezone input = tc_default_timezone existing
   \<and> tc_default_locale input = tc_default_locale existing
   \<and> tc_schedule_horizon_days input = tc_schedule_horizon_days existing
   \<and> tc_quota_day_boundary_tz input = tc_quota_day_boundary_tz existing
   \<and> tc_verification_mode input = tc_verification_mode existing
   \<and> tc_kill_switch_release_rate input = tc_kill_switch_release_rate existing
   \<and> tc_reconcile_attempts_cap input = tc_reconcile_attempts_cap existing"

definition load_tenant_config :: "env \<Rightarrow> ('z world_scheme, sqlx_error, tenant_config option) io" where
  "load_tenant_config E = query E (\<lambda>_. t_tenant_config)"

definition upsert_tenant_config :: "tenant_config_input \<Rightarrow> tenant_db \<Rightarrow> tenant_db" where
  "upsert_tenant_config input d = d\<lparr>t_tenant_config := Some input\<rparr>"

definition tenant_config_audit :: "env \<Rightarrow> string \<Rightarrow> uuid option \<Rightarrow> tenant_config_input \<Rightarrow> string
    \<Rightarrow> ('z world_scheme, sqlx_error, unit) io" where
  "tenant_config_audit E actor tenant_id input outcome =
     audit_record E actor ''tenant_config.set'' tenant_id
       [(''retention_years'', JInt (tc_retention_years input)),
        (''default_timezone'', JStr (tc_default_timezone input)),
        (''default_locale'', JStr (tc_default_locale input)),
        (''schedule_horizon_days'', JInt (tc_schedule_horizon_days input)),
        (''quota_day_boundary_tz'', JStr (tc_quota_day_boundary_tz input)),
        (''verification_mode'', JStr (tc_verification_mode input)),
        (''kill_switch_release_rate'', JInt (tc_kill_switch_release_rate input)),
        (''reconcile_attempts_cap'', JInt (tc_reconcile_attempts_cap input)),
        (''outcome'', JStr outcome)]"

text \<open>The transaction: lock, load, compare, write, commit.\<close>

definition configure_tx :: "tenant_config_input \<Rightarrow> tenant_db \<Rightarrow> string \<times> tenant_db" where
  "configure_tx input d =
    (let outcome = setting_outcome (tenant_config_matches input) (t_tenant_config d) in
     (outcome, if outcome \<noteq> ''idempotent'' then upsert_tenant_config input d else d))"

definition set_tenant_config_inner :: "env \<Rightarrow> uuid \<Rightarrow> string \<Rightarrow> tenant_config_input
    \<Rightarrow> ('z world_scheme, sqlx_error, string) io" where
  "set_tenant_config_inner E tenant_id actor input =
     bindE (stmt E (\<lambda>_ d. Inr (configure_tx input d))) (\<lambda>outcome.
     thenE (tenant_config_audit E actor (Some tenant_id) input outcome) (ret outcome))"

definition set_tenant_config :: "env \<Rightarrow> sqlx_error + unit \<Rightarrow> string \<Rightarrow> tenant_config_input \<Rightarrow> string
    \<Rightarrow> ('z world_scheme, sqlx_error, string) io" where
  "set_tenant_config E parsed tenant_slug input actor =
     tenant_command id E parsed tenant_slug (tenant_config_audit E actor None input ''rejected'')
       (\<lambda>tenant. set_tenant_config_inner E (tn_id tenant) actor input)"

definition show_tenant_config :: "env \<Rightarrow> sqlx_error + unit \<Rightarrow> string
    \<Rightarrow> ('z world_scheme, sqlx_error, tenant_config option) io" where
  "show_tenant_config E parsed tenant_slug = tenant_read id E parsed tenant_slug (\<lambda>_. load_tenant_config E)"

section \<open>Provider configuration\<close>

type_synonym provider_config_input = provider_config

definition provider_config_matches :: "provider_config_input \<Rightarrow> provider_config \<Rightarrow> bool" where
  "provider_config_matches input existing \<longleftrightarrow>
     pv_channel input = pv_channel existing \<and> pv_priority input = pv_priority existing
   \<and> pv_provider input = pv_provider existing \<and> pv_credential_path input = pv_credential_path existing
   \<and> pv_rate_limit_per_sec input = pv_rate_limit_per_sec existing"

definition list_provider :: "env \<Rightarrow> string \<Rightarrow> ('z world_scheme, sqlx_error, provider_config list) io" where
  "list_provider E channel =
     query E (\<lambda>_ d. sort_key pv_priority (filter (\<lambda>r. pv_channel r = channel) (t_provider_config d)))"

definition provider_at :: "string \<Rightarrow> int \<Rightarrow> tenant_db \<Rightarrow> provider_config option" where
  "provider_at channel priority d =
     find_row (\<lambda>r. (pv_channel r, pv_priority r) = (channel, priority)) (t_provider_config d)"

definition load_one_provider :: "env \<Rightarrow> string \<Rightarrow> int \<Rightarrow> ('z world_scheme, sqlx_error, provider_config option) io" where
  "load_one_provider E channel priority = query E (\<lambda>_. provider_at channel priority)"

definition upsert_provider :: "provider_config_input \<Rightarrow> tenant_db \<Rightarrow> tenant_db" where
  "upsert_provider input d = d\<lparr>t_provider_config :=
     upsert (\<lambda>r. (pv_channel r, pv_priority r))
       (\<lambda>r. r\<lparr>pv_provider := pv_provider input, pv_credential_path := pv_credential_path input,
              pv_rate_limit_per_sec := pv_rate_limit_per_sec input\<rparr>) input (t_provider_config d)\<rparr>"

definition provider_config_audit :: "env \<Rightarrow> string \<Rightarrow> uuid option \<Rightarrow> provider_config_input \<Rightarrow> string
    \<Rightarrow> ('z world_scheme, sqlx_error, unit) io" where
  "provider_config_audit E actor tenant_id input outcome =
     audit_record E actor ''provider_config.set'' tenant_id
       [(''channel'', JStr (pv_channel input)), (''priority'', JInt (pv_priority input)),
        (''provider'', JStr (pv_provider input)), (''credential_path'', JStr (pv_credential_path input)),
        (''rate_limit_per_sec'', JInt (pv_rate_limit_per_sec input)), (''outcome'', JStr outcome)]"

definition set_provider_config_inner :: "env \<Rightarrow> uuid \<Rightarrow> string \<Rightarrow> provider_config_input
    \<Rightarrow> ('z world_scheme, sqlx_error, string) io" where
  "set_provider_config_inner E tenant_id actor input =
     configure_row (load_one_provider E (pv_channel input) (pv_priority input)) (provider_config_matches input)
       (exec E (\<lambda>_. upsert_provider input)) (provider_config_audit E actor (Some tenant_id) input)"

definition set_provider_config :: "env \<Rightarrow> sqlx_error + unit \<Rightarrow> string \<Rightarrow> provider_config_input \<Rightarrow> string
    \<Rightarrow> ('z world_scheme, sqlx_error, string) io" where
  "set_provider_config E parsed tenant_slug input actor =
     tenant_command id E parsed tenant_slug (provider_config_audit E actor None input ''rejected'')
       (\<lambda>tenant. set_provider_config_inner E (tn_id tenant) actor input)"

definition list_provider_config :: "env \<Rightarrow> sqlx_error + unit \<Rightarrow> string \<Rightarrow> string
    \<Rightarrow> ('z world_scheme, sqlx_error, provider_config list) io" where
  "list_provider_config E parsed tenant_slug channel =
     tenant_read id E parsed tenant_slug (\<lambda>_. list_provider E channel)"

section \<open>Quiet hours\<close>

abbreviation (input) DEFAULT_SCOPE :: string where "DEFAULT_SCOPE \<equiv> ''default''"
abbreviation (input) DEFAULT_SCOPE_KEY :: string where "DEFAULT_SCOPE_KEY \<equiv> ''''"

record quiet_hours_policy_input =
  qi_start_local :: int
  qi_end_local :: int

definition quiet_hours_matches :: "quiet_hours_policy_input \<Rightarrow> quiet_hours_policy \<Rightarrow> bool" where
  "quiet_hours_matches input existing \<longleftrightarrow>
     qi_start_local input = qh_start_local existing \<and> qi_end_local input = qh_end_local existing"

definition default_policy :: "tenant_db \<Rightarrow> quiet_hours_policy option" where
  "default_policy d = find_row (\<lambda>r. (qh_scope r, qh_scope_key r) = (DEFAULT_SCOPE, DEFAULT_SCOPE_KEY)) (t_quiet_hours_policy d)"

definition load_default :: "env \<Rightarrow> ('z world_scheme, sqlx_error, quiet_hours_policy option) io" where
  "load_default E = query E (\<lambda>_. default_policy)"

definition upsert_default :: "quiet_hours_policy_input \<Rightarrow> tenant_db \<Rightarrow> tenant_db" where
  "upsert_default input d = d\<lparr>t_quiet_hours_policy :=
     upsert (\<lambda>r. (qh_scope r, qh_scope_key r))
       (\<lambda>r. r\<lparr>qh_start_local := qi_start_local input, qh_end_local := qi_end_local input\<rparr>)
       \<lparr>qh_scope = DEFAULT_SCOPE, qh_scope_key = DEFAULT_SCOPE_KEY,
        qh_start_local = qi_start_local input, qh_end_local = qi_end_local input\<rparr> (t_quiet_hours_policy d)\<rparr>"

definition quiet_hours_audit :: "env \<Rightarrow> string \<Rightarrow> uuid option \<Rightarrow> quiet_hours_policy_input \<Rightarrow> string
    \<Rightarrow> ('z world_scheme, sqlx_error, unit) io" where
  "quiet_hours_audit E actor tenant_id input outcome =
     audit_record E actor ''quiet_hours_policy.set'' tenant_id
       [(''start_local'', JTime (qi_start_local input)), (''end_local'', JTime (qi_end_local input)),
        (''outcome'', JStr outcome)]"

definition set_quiet_hours_policy_inner :: "env \<Rightarrow> uuid \<Rightarrow> string \<Rightarrow> quiet_hours_policy_input
    \<Rightarrow> ('z world_scheme, sqlx_error, string) io" where
  "set_quiet_hours_policy_inner E tenant_id actor input =
     configure_row (load_default E) (quiet_hours_matches input)
       (exec E (\<lambda>_. upsert_default input)) (quiet_hours_audit E actor (Some tenant_id) input)"

definition set_quiet_hours_policy :: "env \<Rightarrow> sqlx_error + unit \<Rightarrow> string \<Rightarrow> quiet_hours_policy_input \<Rightarrow> string
    \<Rightarrow> ('z world_scheme, sqlx_error, string) io" where
  "set_quiet_hours_policy E parsed tenant_slug input actor =
     tenant_command id E parsed tenant_slug (quiet_hours_audit E actor None input ''rejected'')
       (\<lambda>tenant. set_quiet_hours_policy_inner E (tn_id tenant) actor input)"

definition show_quiet_hours_policy :: "env \<Rightarrow> sqlx_error + unit \<Rightarrow> string
    \<Rightarrow> ('z world_scheme, sqlx_error, quiet_hours_policy option) io" where
  "show_quiet_hours_policy E parsed tenant_slug = tenant_read id E parsed tenant_slug (\<lambda>_. load_default E)"

section \<open>The setters obey the contract of a setting\<close>

interpretation config_row: row_setting t_tenant_config "tenant_config_matches input" "\<lambda>_. upsert_tenant_config input" for input
  by unfold_locales (simp add: upsert_tenant_config_def tenant_config_matches_def)

interpretation provider_row: row_setting "provider_at (pv_channel input) (pv_priority input)" "provider_config_matches input"
    "\<lambda>_. upsert_provider input" for input
proof
  fix t d
  let ?f = "\<lambda>r. r\<lparr>pv_provider := pv_provider input, pv_credential_path := pv_credential_path input,
      pv_rate_limit_per_sec := pv_rate_limit_per_sec input\<rparr>"
  show "\<exists>r. provider_at (pv_channel input) (pv_priority input) (upsert_provider input d) = Some r \<and> provider_config_matches input r"
    using upsert_fits [of "\<lambda>r. (pv_channel r, pv_priority r)" input ?f "provider_config_matches input" "t_provider_config d"]
    by (simp add: provider_at_def upsert_provider_def provider_config_matches_def)
qed

interpretation quiet_row: row_setting default_policy "quiet_hours_matches input" "\<lambda>_. upsert_default input" for input
proof
  fix t d
  let ?r = "\<lparr>qh_scope = DEFAULT_SCOPE, qh_scope_key = DEFAULT_SCOPE_KEY,
        qh_start_local = qi_start_local input, qh_end_local = qi_end_local input\<rparr>"
  show "\<exists>r. default_policy (upsert_default input d) = Some r \<and> quiet_hours_matches input r"
    using upsert_fits [of "\<lambda>r. (qh_scope r, qh_scope_key r)" ?r "\<lambda>r. r\<lparr>qh_start_local := qi_start_local input, qh_end_local := qi_end_local input\<rparr>"
        "quiet_hours_matches input" "t_quiet_hours_policy d"]
    by (simp add: default_policy_def upsert_default_def quiet_hours_matches_def)
qed

section \<open>Properties\<close>

lemma wp_exec_put:
  fixes w :: "'z world_scheme"
  assumes "quiet E"
  shows "wp (exec E (\<lambda>_. f)) (\<lambda>_ w'. \<exists>t :: timestamp. w_db w' = f (w_db w)) (\<lambda>_ _. True) w"
  using assms by (simp add: exec_def wp_simps Let_def)

lemma set_tenant_config_inner_wp:
  "wp (set_tenant_config_inner E tenant_id actor input)
     (\<lambda>out w'. (out, w_db w') = configure_tx input (e_interfere E (w_tick w) (w_db w))) (\<lambda>_ _. True) w"
  unfolding set_tenant_config_inner_def
proof (rule wp_bindI)
  let ?c = "configure_tx input (e_interfere E (w_tick w) (w_db w))"
  show "wp (stmt E (\<lambda>_ d. Inr (configure_tx input d))) (\<lambda>out w'. (out, w_db w') = ?c) (\<lambda>_ _. True) w"
    by (auto simp: wp_stmt Let_def split: fault.splits prod.splits)
  fix out v assume "(out, w_db v) = ?c"
  then show "wp (thenE (tenant_config_audit E actor (Some tenant_id) input out) (ret out)) (\<lambda>out w'. (out, w_db w') = ?c) (\<lambda>_ _. True) v"
    unfolding tenant_config_audit_def wp_bindE wp_ret by (intro wp_audit_record_db) auto
qed

lemma set_tenant_config_sets:
  "wp (set_tenant_config_inner E tenant_id actor config)
     (\<lambda>out w'. let d = e_interfere E (w_tick w) (w_db w) in
        t_tenant_config (w_db w') = Some config \<and> out = setting_outcome (\<lambda>r. r = config) (t_tenant_config d)
        \<and> (out = ''idempotent'' \<longrightarrow> w_db w' = d)) (\<lambda>_ _. True) w"
proof -
  have "tenant_config_matches config = (\<lambda>r. r = config)" by (auto simp: tenant_config_matches_def fun_eq_iff)
  then show ?thesis
    by (intro wp_mono [OF set_tenant_config_inner_wp])
      (auto simp: Let_def configure_tx_def upsert_tenant_config_def setting_outcome_def split: option.splits if_splits)
qed

lemma set_provider_config_sets:
  assumes "quiet E'"
  shows "wp (set_provider_config_inner E' tenant_id actor provider)
     (\<lambda>out w'. provider_at (pv_channel provider) (pv_priority provider) (w_db w') = Some provider
        \<and> out = setting_outcome (\<lambda>r. r = provider) (provider_at (pv_channel provider) (pv_priority provider) (w_db w))
        \<and> (out = ''idempotent'' \<longrightarrow> w_db w' = w_db w)) (\<lambda>_ _. True) w"
proof -
  have eq: "provider_config_matches provider = (\<lambda>r. r = provider)" by (auto simp: provider_config_matches_def fun_eq_iff)
  show ?thesis
    unfolding set_provider_config_inner_def load_one_provider_def
    by (rule wp_mono [OF provider_row.configure_row_sets [OF assms wp_exec_put [OF assms]]])
      (auto simp: eq provider_config_audit_def audit_record_db)
qed

lemma set_quiet_hours_sets:
  assumes "quiet E'"
  shows "wp (set_quiet_hours_policy_inner E' tenant_id actor window)
     (\<lambda>out w'. (\<exists>r. default_policy (w_db w') = Some r \<and> qh_start_local r = qi_start_local window \<and> qh_end_local r = qi_end_local window)
        \<and> out = setting_outcome (quiet_hours_matches window) (default_policy (w_db w))
        \<and> (out = ''idempotent'' \<longrightarrow> w_db w' = w_db w)) (\<lambda>_ _. True) w"
  unfolding set_quiet_hours_policy_inner_def load_default_def
  by (rule wp_mono [OF quiet_row.configure_row_sets [OF assms wp_exec_put [OF assms]]])
    (auto simp: quiet_hours_audit_def audit_record_db quiet_hours_matches_def)

text \<open>A setter takes effect and says what it did.  When it returns, the stored row holds what was asked
  for, the outcome says whether there was no row, the same row or another one before, and an
  idempotent call leaves the database as it was.  The tenant configuration's setter keeps that
  promise against the state its own transaction saw, whoever else writes; those of provider
  list and quiet hours keep it for an operator who works alone.\<close>

theorem setters_take_effect:
  fixes w :: "'z world_scheme"
  assumes "quiet E'"
  shows "wp (set_tenant_config_inner E tenant_id actor config)
     (\<lambda>out w'. let d = e_interfere E (w_tick w) (w_db w) in
        t_tenant_config (w_db w') = Some config \<and> out = setting_outcome (\<lambda>r. r = config) (t_tenant_config d)
        \<and> (out = ''idempotent'' \<longrightarrow> w_db w' = d)) (\<lambda>_ _. True) w
   \<and> wp (set_provider_config_inner E' tenant_id actor provider)
     (\<lambda>out w'. provider_at (pv_channel provider) (pv_priority provider) (w_db w') = Some provider
        \<and> out = setting_outcome (\<lambda>r. r = provider) (provider_at (pv_channel provider) (pv_priority provider) (w_db w))
        \<and> (out = ''idempotent'' \<longrightarrow> w_db w' = w_db w)) (\<lambda>_ _. True) w
   \<and> wp (set_quiet_hours_policy_inner E' tenant_id actor window)
     (\<lambda>out w'. (\<exists>r. default_policy (w_db w') = Some r \<and> qh_start_local r = qi_start_local window \<and> qh_end_local r = qi_end_local window)
        \<and> out = setting_outcome (quiet_hours_matches window) (default_policy (w_db w))
        \<and> (out = ''idempotent'' \<longrightarrow> w_db w' = w_db w)) (\<lambda>_ _. True) w"
  using set_tenant_config_sets set_provider_config_sets [OF assms] set_quiet_hours_sets [OF assms] by blast

theorem setters_take_effect_witness:
  "wp (set_quiet_hours_policy_inner (quiet_env 0) 1 ''ops'' \<lparr>qi_start_local = 79200, qi_end_local = 21600\<rparr>)
     (\<lambda>out w'. \<exists>r. default_policy (w_db w') = Some r \<and> qh_start_local r = 79200 \<and> qh_end_local r = 21600) (\<lambda>_ _. True)
     \<lparr>w_db = empty_db, w_ctl = empty_ctl, w_tick = 0\<rparr>"
  by (rule wp_mono [OF conjunct2 [OF conjunct2 [OF setters_take_effect [OF quiet_quiet_env]]]]) auto

section \<open>One audit row per command\<close>

lemma audits_set_tenant_config:
  "ctl_quiet E \<Longrightarrow> audits_once ''tenant_config.set'' rejection (\<lambda>out. out) (set_tenant_config E (Inr ()) slug input actor)"
  unfolding set_tenant_config_def set_tenant_config_inner_def tenant_config_audit_def
  by (intro audits_tenant_command audits_once_bindE audits_record_then_ret unlogged_stmt) auto

lemma audits_set_provider_config:
  "ctl_quiet E \<Longrightarrow> audits_once ''provider_config.set'' rejection (\<lambda>out. out) (set_provider_config E (Inr ()) slug input actor)"
  unfolding set_provider_config_def set_provider_config_inner_def provider_config_audit_def load_one_provider_def
  by (intro audits_tenant_command audits_configure_row audit_intros) auto

lemma audits_set_quiet_hours:
  "ctl_quiet E \<Longrightarrow> audits_once ''quiet_hours_policy.set'' rejection (\<lambda>out. out) (set_quiet_hours_policy E (Inr ()) slug input actor)"
  unfolding set_quiet_hours_policy_def set_quiet_hours_policy_inner_def quiet_hours_audit_def load_default_def
  by (intro audits_tenant_command audits_configure_row audit_intros) auto

end
