(* ===== verification/Suppression.thy ===== *)
theory Suppression
  imports Worker Customer Settings
begin

text \<open>
  The suppression list (\<open>suppression/\<close>) and the consent register (\<open>consent/\<close>): the operator commands
  that write them, and what they mean for the dispatcher that reads them.

  A destination enters either table only as its HMAC under the tenant's pepper, or as the id
  of the address that holds it.  Times are microseconds, so \<open>truncate_to_micros\<close> is the identity.
\<close>

section \<open>Suppression\<close>

record suppression_input =
  si_destination_hmac :: bytes
  si_reason :: string
  si_review_at :: timestamp

definition suppression_matches :: "suppression_input \<Rightarrow> suppression_row \<Rightarrow> bool" where
  "suppression_matches input existing \<longleftrightarrow> si_destination_hmac input = su_destination_hmac existing
     \<and> si_reason input = su_reason existing \<and> si_review_at input = su_review_at existing"

definition suppression_rows :: "env \<Rightarrow> ('z world_scheme, sqlx_error, suppression_row list) io" where
  "suppression_rows E = query E (\<lambda>_ d. sort_key su_added_at (t_suppression d))"

definition suppression_at :: "bytes \<Rightarrow> tenant_db \<Rightarrow> suppression_row option" where
  "suppression_at h d = find_row (\<lambda>r. su_destination_hmac r = h) (t_suppression d)"

definition load_one_suppression :: "env \<Rightarrow> bytes \<Rightarrow> ('z world_scheme, sqlx_error, suppression_row option) io" where
  "load_one_suppression E h = query E (\<lambda>_. suppression_at h)"

text \<open>A conflict keeps \<open>added_at\<close>.\<close>

definition upsert_suppression :: "suppression_input \<Rightarrow> timestamp \<Rightarrow> tenant_db \<Rightarrow> tenant_db" where
  "upsert_suppression input now d = d\<lparr>t_suppression :=
     upsert su_destination_hmac (\<lambda>r. r\<lparr>su_reason := si_reason input, su_review_at := si_review_at input\<rparr>)
       \<lparr>su_destination_hmac = si_destination_hmac input, su_reason = si_reason input, su_added_at = now,
        su_review_at = si_review_at input\<rparr> (t_suppression d)\<rparr>"

definition retire_now :: "env \<Rightarrow> bytes \<Rightarrow> timestamp \<Rightarrow> ('z world_scheme, sqlx_error, nat) io" where
  "retire_now E h now = stmt E (\<lambda>_ d.
    (let hit = \<lambda>r. su_destination_hmac r = h \<and> now < su_review_at r in
     Inr (length (filter hit (t_suppression d)),
          d\<lparr>t_suppression := upd_where hit (\<lambda>r. r\<lparr>su_review_at := now\<rparr>) (t_suppression d)\<rparr>)))"

definition hex_digit :: "nat \<Rightarrow> char" where
  "hex_digit n = ''0123456789abcdef'' ! (n mod 16)"

definition hex_encode :: "bytes \<Rightarrow> string" where
  "hex_encode bs = concat (map (\<lambda>b. [hex_digit (unat b div 16), hex_digit (unat b)]) bs)"

definition audit_add :: "env \<Rightarrow> string \<Rightarrow> uuid option \<Rightarrow> bytes option \<Rightarrow> string \<Rightarrow> timestamp \<Rightarrow> string
    \<Rightarrow> ('z world_scheme, sqlx_error, unit) io" where
  "audit_add E actor tenant_id h reason review_at outcome =
     audit_record E actor ''suppression.add'' tenant_id
       [(''destination_hmac'', json_opt (map_option hex_encode h)), (''reason'', JStr reason),
        (''review_at'', JTime review_at), (''outcome'', JStr outcome)]"

definition audit_remove :: "env \<Rightarrow> string \<Rightarrow> uuid option \<Rightarrow> bytes \<Rightarrow> string \<Rightarrow> ('z world_scheme, sqlx_error, unit) io" where
  "audit_remove E actor tenant_id h outcome =
     audit_record E actor ''suppression.remove'' tenant_id
       [(''destination_hmac'', JStr (hex_encode h)), (''outcome'', JStr outcome)]"

definition add_suppression_inner :: "env \<Rightarrow> uuid \<Rightarrow> string \<Rightarrow> suppression_input \<Rightarrow> ('z world_scheme, sqlx_error, string) io" where
  "add_suppression_inner E tenant_id actor input =
     configure_row (load_one_suppression E (si_destination_hmac input)) (suppression_matches input)
       (bindE (utc_now E) (\<lambda>now. exec E (\<lambda>_. upsert_suppression input now)))
       (audit_add E actor (Some tenant_id) (Some (si_destination_hmac input)) (si_reason input) (si_review_at input))"

definition add_suppression :: "env \<Rightarrow> crypto \<Rightarrow> sqlx_error + unit \<Rightarrow> string \<Rightarrow> keystore \<Rightarrow> string \<Rightarrow> string \<Rightarrow> timestamp \<Rightarrow> string
    \<Rightarrow> ('z world_scheme, vault_error, string) io" where
  "add_suppression E C parsed tenant_slug K destination reason review_at actor =
     tenant_command VaultDatabase E parsed tenant_slug (audit_add E actor None None reason review_at ''rejected'')
       (\<lambda>tenant. bindE (ensure_tenant_pepper E K tenant) (\<lambda>pepper.
          map_err VaultDatabase (add_suppression_inner E (tn_id tenant) actor
            \<lparr>si_destination_hmac = destination_hmac C pepper destination, si_reason = reason, si_review_at = review_at\<rparr>)))"

definition remove_suppression :: "env \<Rightarrow> crypto \<Rightarrow> sqlx_error + unit \<Rightarrow> string \<Rightarrow> keystore \<Rightarrow> string \<Rightarrow> string
    \<Rightarrow> ('z world_scheme, vault_error, unit) io" where
  "remove_suppression E C parsed tenant_slug K destination actor =
     tenant_read VaultDatabase E parsed tenant_slug
       (\<lambda>tenant. bindE (ensure_tenant_pepper E K tenant) (\<lambda>pepper.
          let h = destination_hmac C pepper destination in
          map_err VaultDatabase (bindE (utc_now E) (\<lambda>now. bindE (retire_now E h now) (\<lambda>rows_affected.
            if rows_affected = 0
            then thenE (audit_remove E actor (Some (tn_id tenant)) h ''rejected'')
                   (throw (Configuration ''no active suppression entry for this destination''))
            else audit_remove E actor (Some (tn_id tenant)) h ''retired'')))))"

definition list_suppression :: "env \<Rightarrow> sqlx_error + unit \<Rightarrow> string \<Rightarrow> ('z world_scheme, vault_error, suppression_row list) io" where
  "list_suppression E parsed tenant_slug =
     tenant_read VaultDatabase E parsed tenant_slug (\<lambda>_. map_err VaultDatabase (suppression_rows E))"

section \<open>Consent\<close>

record consent_input =
  ci_address_id :: uuid
  ci_class :: string
  ci_opted_in :: bool
  ci_source :: string

definition consent_matches :: "consent_input \<Rightarrow> consent_row \<Rightarrow> bool" where
  "consent_matches input existing \<longleftrightarrow> ci_address_id input = co_address_id existing \<and> ci_class input = co_class existing
     \<and> ci_opted_in input = co_opted_in existing \<and> ci_source input = co_source existing"

definition consent_at :: "uuid \<Rightarrow> string \<Rightarrow> tenant_db \<Rightarrow> consent_row option" where
  "consent_at address_id cls d = find_row (\<lambda>r. (co_address_id r, co_class r) = (address_id, cls)) (t_consent d)"

definition load_one_consent :: "env \<Rightarrow> uuid \<Rightarrow> string \<Rightarrow> ('z world_scheme, sqlx_error, consent_row option) io" where
  "load_one_consent E address_id cls = query E (\<lambda>_. consent_at address_id cls)"

definition put_consent :: "consent_input \<Rightarrow> timestamp \<Rightarrow> tenant_db \<Rightarrow> tenant_db" where
  "put_consent input now d = d\<lparr>t_consent :=
     upsert (\<lambda>r. (co_address_id r, co_class r))
       (\<lambda>r. r\<lparr>co_opted_in := ci_opted_in input, co_source := ci_source input, co_updated_at := now\<rparr>)
       \<lparr>co_address_id = ci_address_id input, co_class = ci_class input, co_opted_in = ci_opted_in input,
        co_source = ci_source input, co_updated_at = now\<rparr> (t_consent d)\<rparr>"

text \<open>\<open>consent.address_id\<close> references \<open>customer_address\<close>.\<close>

definition upsert_consent :: "env \<Rightarrow> consent_input \<Rightarrow> timestamp \<Rightarrow> ('z world_scheme, sqlx_error, unit) io" where
  "upsert_consent E input now = stmt E (\<lambda>_ d.
     if \<exists>a \<in> set (t_customer_address d). ca_id a = ci_address_id input then Inr ((), put_consent input now d)
     else Inl (Constraint ''consent_address_id_fkey''))"

definition consent_audit :: "env \<Rightarrow> string \<Rightarrow> uuid option \<Rightarrow> uuid option \<Rightarrow> string \<Rightarrow> bool \<Rightarrow> string \<Rightarrow> string
    \<Rightarrow> ('z world_scheme, sqlx_error, unit) io" where
  "consent_audit E actor tenant_id address_id cls opted_in source outcome =
     audit_record E actor ''consent.set'' tenant_id
       [(''address_id'', case address_id of None \<Rightarrow> JNull | Some i \<Rightarrow> JUuid i), (''class'', JStr cls),
        (''opted_in'', JBool opted_in), (''source'', JStr source), (''outcome'', JStr outcome)]"

definition set_consent_inner :: "env \<Rightarrow> uuid \<Rightarrow> string \<Rightarrow> consent_input \<Rightarrow> ('z world_scheme, sqlx_error, string) io" where
  "set_consent_inner E tenant_id actor input =
     configure_row (load_one_consent E (ci_address_id input) (ci_class input)) (consent_matches input)
       (bindE (utc_now E) (upsert_consent E input))
       (consent_audit E actor (Some tenant_id) (Some (ci_address_id input)) (ci_class input) (ci_opted_in input) (ci_source input))"

definition set_consent :: "env \<Rightarrow> crypto \<Rightarrow> sqlx_error + unit \<Rightarrow> string \<Rightarrow> keystore \<Rightarrow> string \<Rightarrow> string \<Rightarrow> string \<Rightarrow> bool \<Rightarrow> string \<Rightarrow> string
    \<Rightarrow> ('z world_scheme, vault_error, string) io" where
  "set_consent E C parsed tenant_slug K destination channel cls opted_in source actor =
     tenant_command VaultDatabase E parsed tenant_slug (consent_audit E actor None None cls opted_in source ''rejected'')
       (\<lambda>tenant. bindE (ensure_tenant_pepper E K tenant) (\<lambda>pepper.
          map_err VaultDatabase (case kind_for_channel channel of
            None \<Rightarrow> throw (Panic ''kind_for_channel'')
          | Some kind \<Rightarrow> bindE (find_active_address_by_hmac E kind (destination_hmac C pepper destination)) (\<lambda>address.
              case address of
                None \<Rightarrow> thenE (consent_audit E actor (Some (tn_id tenant)) None cls opted_in source ''rejected'')
                          (throw (Configuration ''no active address on file for this destination''))
              | Some a \<Rightarrow> set_consent_inner E (tn_id tenant) actor
                  \<lparr>ci_address_id = ca_id a, ci_class = cls, ci_opted_in = opted_in, ci_source = source\<rparr>))))"

section \<open>Both are settings\<close>

interpretation suppression_setting: row_setting "suppression_at (si_destination_hmac input)" "suppression_matches input"
    "upsert_suppression input" for input
proof
  fix t d
  show "\<exists>r. suppression_at (si_destination_hmac input) (upsert_suppression input t d) = Some r \<and> suppression_matches input r"
    using upsert_fits [of su_destination_hmac
        "\<lparr>su_destination_hmac = si_destination_hmac input, su_reason = si_reason input, su_added_at = t, su_review_at = si_review_at input\<rparr>"
        "\<lambda>r. r\<lparr>su_reason := si_reason input, su_review_at := si_review_at input\<rparr>" "suppression_matches input" "t_suppression d"]
    by (simp add: suppression_at_def upsert_suppression_def suppression_matches_def)
qed

interpretation consent_setting: row_setting "consent_at (ci_address_id input) (ci_class input)" "consent_matches input"
    "put_consent input" for input
proof
  fix t d
  show "\<exists>r. consent_at (ci_address_id input) (ci_class input) (put_consent input t d) = Some r \<and> consent_matches input r"
    using upsert_fits [of "\<lambda>r. (co_address_id r, co_class r)"
        "\<lparr>co_address_id = ci_address_id input, co_class = ci_class input, co_opted_in = ci_opted_in input,
        co_source = ci_source input, co_updated_at = t\<rparr>"
        "\<lambda>r. r\<lparr>co_opted_in := ci_opted_in input, co_source := ci_source input, co_updated_at := t\<rparr>" "consent_matches input" "t_consent d"]
    by (simp add: consent_at_def put_consent_def consent_matches_def)
qed

section \<open>The commands\<close>

lemma add_suppression_wp:
  fixes w :: "'z world_scheme"
  assumes E: "quiet E" and K: "keystore_lawful K plain"
    and t: "find_row (\<lambda>t. tn_slug t = slug) (c_tenant (w_ctl w)) = Some t" "tn_vault_pepper_wrapped t = Some wr"
  shows "wp (add_suppression E C (Inr ()) slug K destination reason review_at actor)
     (\<lambda>_ w'. \<exists>s \<in> set (t_suppression (w_db w')). su_reason s = reason \<and> su_review_at s = review_at
        \<and> su_destination_hmac s = destination_hmac C (plain (tn_vault_mount t) wr) destination) (\<lambda>_ _. True) w"
  unfolding add_suppression_def
proof (rule tenant_command_reaches [OF E t(1)], rule stored_pepper [OF K t(2)], rule wp_map_errI)
  fix n m
  define input where "input = \<lparr>si_destination_hmac = destination_hmac C (plain (tn_vault_mount t) wr) destination,
      si_reason = reason, si_review_at = review_at\<rparr>"
  have store: "wp (bindE (utc_now E) (\<lambda>now. exec E (\<lambda>_. upsert_suppression input now)))
      (\<lambda>_ w'. \<exists>t. w_db w' = upsert_suppression input t (w_db w)) (\<lambda>_ _. True) w" for w :: "'z world_scheme"
    using E by (auto simp: wp_simps Let_def)
  show "wp (add_suppression_inner E (tn_id t) actor \<lparr>si_destination_hmac = destination_hmac C (plain (tn_vault_mount t) wr) destination,
      si_reason = reason, si_review_at = review_at\<rparr>)
     (\<lambda>_ w'. \<exists>s \<in> set (t_suppression (w_db w')). su_reason s = reason \<and> su_review_at s = review_at
        \<and> su_destination_hmac s = destination_hmac C (plain (tn_vault_mount t) wr) destination) (\<lambda>_ _. True) (w\<lparr>w_tick := n\<rparr>\<lparr>w_tick := m\<rparr>)"
    unfolding input_def [symmetric] add_suppression_inner_def load_one_suppression_def
    by (rule wp_mono [OF suppression_setting.configure_row_sets [OF E store]])
      (auto simp: audit_add_def audit_record_db suppression_at_def suppression_matches_def input_def dest: find_row_SomeD)
qed


lemma set_consent_wp:
  fixes w :: "'z world_scheme"
  assumes E: "quiet E" and K: "keystore_lawful K plain" and k: "kind_for_channel channel = Some kind"
    and t: "find_row (\<lambda>t. tn_slug t = slug) (c_tenant (w_ctl w)) = Some t" "tn_vault_pepper_wrapped t = Some wr"
  shows "wp (set_consent E C (Inr ()) slug K destination channel cls opted_in source actor)
     (\<lambda>_ w'. \<exists>a. active_address kind (destination_hmac C (plain (tn_vault_mount t) wr) destination) (w_db w) = Some a
        \<and> consented (ca_id a) cls (w_db w') = opted_in) (\<lambda>_ _. True) w"
  unfolding set_consent_def k option.case
proof (rule tenant_command_reaches [OF E t(1)], rule stored_pepper [OF K t(2)], rule wp_map_errI)
  fix n m
  let ?h = "destination_hmac C (plain (tn_vault_mount t) wr) destination" and ?w = "w\<lparr>w_tick := n\<rparr>\<lparr>w_tick := m\<rparr>"
  let ?Q = "\<lambda>_ w'. \<exists>a. active_address kind ?h (w_db w) = Some a \<and> consented (ca_id a) cls (w_db w') = opted_in"
  have found: "wp (find_active_address_by_hmac E kind ?h) (\<lambda>r w'. r = active_address kind ?h (w_db w) \<and> w_db w' = w_db w) (\<lambda>_ _. True) ?w"
    using E by (simp add: find_active_address_by_hmac_def wp_query Let_def)
  have inner: "wp (set_consent_inner E (tn_id t) actor \<lparr>ci_address_id = ca_id a, ci_class = cls, ci_opted_in = opted_in, ci_source = source\<rparr>)
      ?Q (\<lambda>_ _. True) v" if a: "active_address kind ?h (w_db w) = Some a" for a and v :: "'z world_scheme"
  proof -
    define input where "input = \<lparr>ci_address_id = ca_id a, ci_class = cls, ci_opted_in = opted_in, ci_source = source\<rparr>"
    have store: "wp (bindE (utc_now E) (upsert_consent E input))
        (\<lambda>_ w'. \<exists>t. w_db w' = put_consent input t (w_db w)) (\<lambda>_ _. True) w" for w :: "'z world_scheme"
      using E by (auto simp: upsert_consent_def wp_simps Let_def)
    show ?thesis
      unfolding input_def [symmetric] set_consent_inner_def load_one_consent_def
      by (rule wp_mono [OF consent_setting.configure_row_sets [OF E store]])
        (auto simp: consent_audit_def audit_record_db consent_at_def consent_matches_def input_def consented_def a)
  qed
  have reject: "wp (thenE (consent_audit E actor (Some (tn_id t)) None cls opted_in source ''rejected'')
      (throw (Configuration ''no active address on file for this destination''))) ?Q (\<lambda>_ _. True) v" for v :: "'z world_scheme"
    by (simp add: wp_bindE wp_throw_eta)
  show "wp (bindE (find_active_address_by_hmac E kind ?h) (\<lambda>address. case address of
        None \<Rightarrow> thenE (consent_audit E actor (Some (tn_id t)) None cls opted_in source ''rejected'')
                  (throw (Configuration ''no active address on file for this destination''))
      | Some a \<Rightarrow> set_consent_inner E (tn_id t) actor \<lparr>ci_address_id = ca_id a, ci_class = cls, ci_opted_in = opted_in, ci_source = source\<rparr>))
      ?Q (\<lambda>_ _. True) ?w"
  proof (rule wp_bindI [OF found])
    fix r and v :: "'z world_scheme" assume r: "r = active_address kind ?h (w_db w) \<and> w_db v = w_db w"
    show "wp (case r of
        None \<Rightarrow> thenE (consent_audit E actor (Some (tn_id t)) None cls opted_in source ''rejected'')
                  (throw (Configuration ''no active address on file for this destination''))
      | Some a \<Rightarrow> set_consent_inner E (tn_id t) actor \<lparr>ci_address_id = ca_id a, ci_class = cls, ci_opted_in = opted_in, ci_source = source\<rparr>)
      ?Q (\<lambda>_ _. True) v"
    proof (cases r)
      case None
      then show ?thesis using reject by (simp only: option.case)
    next
      case (Some a)
      with r have "active_address kind ?h (w_db w) = Some a" by simp
      from inner [OF this] Some show ?thesis by (simp only: option.case)
    qed
  qed
qed

text \<open>A live entry for the destination of a queue row: whoever wrote it, the row is not sent.\<close>

lemma suppression_entry_blocks:
  fixes v :: "('c, 'y) dispatcher_world_scheme"
  assumes "s \<in> set (t_suppression (w_db v))" and "cr \<in> set (t_comms_request (w_db v))" and "request_key cr = outbox_key row"
    and "cr_destination_hmac cr = su_destination_hmac s" and "\<forall>n. e_clock E n < su_review_at s"
    and "db_stable E (suppressed_for_good E row)"
  shows "w_sent (snd (try_process E cx row v)) = w_sent v"
proof -
  have "suppressed_for_good E row (w_db v)"
    unfolding suppressed_for_good_def suppressed_def
    using assms by (auto simp: request_key_def outbox_key_def intro!: bexI [of _ cr] bexI [of _ s])
  with assms(6) show ?thesis
    by (intro blocked_row_sends_nothing [of "suppressed_for_good E row"]) (simp_all add: must_not_send_def)
qed

section \<open>Properties\<close>




section \<open>One audit row per command\<close>

lemma audits_add_suppression:
  assumes "ctl_quiet E"
  shows "audits_once ''suppression.add'' vault_rejection (\<lambda>out. out) (add_suppression E C (Inr ()) slug K destination reason review_at actor)"
  unfolding add_suppression_def add_suppression_inner_def audit_add_def load_one_suppression_def
  by (intro audits_tenant_command audits_once_bindE unlogged_ensure_tenant_pepper audits_once_map_err assms)
    (auto intro!: audits_configure_row [OF assms] audit_intros)

lemma audits_set_consent:
  assumes "ctl_quiet E"
  shows "audits_once ''consent.set'' vault_rejection (\<lambda>out. out)
     (set_consent E C (Inr ()) slug K destination channel cls opted_in source actor)"
proof -
  have up: "unlogged rejection (upsert_consent E input now)" for input now
    unfolding upsert_consent_def by (rule unlogged_stmt) (auto split: if_splits)
  have panic: "audits_once ''consent.set'' rejection (\<lambda>out. out) (throw (Panic p))" for p
    by (simp add: audits_once_def wp_throw fails_logged_def)
  have inner: "audits_once ''consent.set'' rejection (\<lambda>out. out) (set_consent_inner E tid actor input)" for tid input
    unfolding set_consent_inner_def consent_audit_def load_one_consent_def
    by (rule audits_configure_row [OF assms]) (auto intro!: audit_intros up)
  have found: "audits_once ''consent.set'' rejection (\<lambda>out. out)
      (case address of
         None \<Rightarrow> thenE (consent_audit E actor (Some tid) None cls opted_in source ''rejected'')
                   (throw (Configuration ''no active address on file for this destination''))
       | Some a \<Rightarrow> set_consent_inner E tid actor (input a))" for address tid input
    unfolding consent_audit_def
    by (rule audits_once_case_option, rule audits_record_then_reject [OF assms]) (simp_all add: inner)
  have address: "unlogged rejection (find_active_address_by_hmac E kind h)" for kind h
    unfolding find_active_address_by_hmac_def by (rule unlogged_query)
  have body: "audits_once ''consent.set'' vault_rejection (\<lambda>out. out) (bindE (ensure_tenant_pepper E K t) (\<lambda>pepper.
      map_err VaultDatabase (case kind_for_channel channel of
            None \<Rightarrow> throw (Panic ''kind_for_channel'')
          | Some kind \<Rightarrow> bindE (find_active_address_by_hmac E kind (destination_hmac C pepper destination)) (\<lambda>address.
              case address of
                None \<Rightarrow> thenE (consent_audit E actor (Some (tn_id t)) None cls opted_in source ''rejected'')
                          (throw (Configuration ''no active address on file for this destination''))
              | Some a \<Rightarrow> set_consent_inner E (tn_id t) actor
                  \<lparr>ci_address_id = ca_id a, ci_class = cls, ci_opted_in = opted_in, ci_source = source\<rparr>))))" for t
    by (intro audits_once_bindE [OF unlogged_ensure_tenant_pepper [OF assms]] audits_once_map_err audits_once_case_option)
      (simp_all add: panic audits_once_bindE [OF address found])
  show ?thesis
    unfolding set_consent_def
    by (subst consent_audit_def, rule audits_tenant_command [OF assms _ body]) simp_all
qed

definition peppered_tenant :: tenant_row where
  "peppered_tenant = \<lparr>tn_id = 1, tn_slug = ''acme'', tn_region = ''eu'', tn_database_name = ''acme'',
       tn_vault_mount = ''mount'', tn_webhook_token = ''t'', tn_status = ''active'', tn_created_at = 0,
       tn_vault_role_id = None, tn_vault_pepper_wrapped = Some ''wrapped'', tn_auth_enabled = False\<rparr>"

definition operator_world :: world where
  "operator_world = \<lparr>w_db = empty_db, w_ctl = empty_ctl\<lparr>c_tenant := [peppered_tenant]\<rparr>, w_tick = 0\<rparr>"

lemma operator_world_tenant [simp]:
  "find_row (\<lambda>t. tn_slug t = ''acme'') (c_tenant (w_ctl operator_world)) = Some peppered_tenant"
  "tn_vault_pepper_wrapped peppered_tenant = Some ''wrapped''" "tn_vault_mount peppered_tenant = ''mount''"
  by (simp_all add: operator_world_def peppered_tenant_def)



definition addressed_world :: world where
  "addressed_world = operator_world\<lparr>w_db := empty_db\<lparr>t_customer_address := [\<lparr>ca_id = 30, ca_customer_id = 20, ca_kind = ''msisdn'',
     ca_value_ciphertext = [], ca_value_hmac = destination_hmac framed_crypto (replicate 32 7) ''+421'', ca_rank = 0, ca_label = None,
     ca_verified_at = None, ca_active_from = 0, ca_active_to = None, ca_source_updated_at = 0\<rparr>]\<rparr>\<rparr>"

lemma addressed_world_consent:
  "w_ctl addressed_world = w_ctl operator_world"
  "fst (set_consent (quiet_env 0) framed_crypto (Inr ()) ''acme'' sample_keystore ''+421'' ''sms'' ''marketing'' False ''form'' ''ops''
     addressed_world) = Inr ''created''"
  by (simp add: addressed_world_def) code_simp


end
