(* ===== verification/Receipts.thy ===== *)
theory Receipts
  imports Suppression
begin

text \<open>
  Delivery receipts.  A provider posts a signed receipt to \<open>webhook/handler.rs\<close>, which checks the
  signature (\<open>webhook_verify/mod.rs\<close>) and stores it in a staging table; \<open>webhook_receipt/promote.rs\<close> moves
  staged receipts into the ledger, or to the table of orphans when no event of the ledger carries
  their reference yet; \<open>orphan_reconcile/reconcile.rs\<close> retries the orphans until a cap.  Both
  promotions share \<open>insert_comms_event\<close>, which appends the event, advances the final status of the
  request, and suppresses the destination after a bounce or a complaint.

  JSON is a third-party crate: a payload is the text it serialises to, and the two parsing steps of
  the handler are parameters.  So is the Vault read of the webhook secret.  A ledger partition that
  is missing for the time of an event is a failed statement.
\<close>

section \<open>Statuses\<close>

definition STATUS_ORDER :: "string list" where
  "STATUS_ORDER = [''queued'', ''sent'', ''delivered'', ''read'']"

definition ABSORBING_STATUSES :: "string list" where
  "ABSORBING_STATUSES = [''failed'', ''bounced'', ''complaint'', ''expired'', ''cancelled'', ''suppressed_consent'',
     ''suppressed_list'', ''unverified_address'']"

definition is_recognized_event_type :: "string \<Rightarrow> bool" where
  "is_recognized_event_type event_type \<longleftrightarrow> event_type \<in> set STATUS_ORDER \<or> event_type \<in> set ABSORBING_STATUSES"

text \<open>\<open>Iterator::position\<close>.\<close>

fun position :: "'a \<Rightarrow> 'a list \<Rightarrow> nat option" where
  "position x [] = None"
| "position x (y # ys) = (if x = y then Some 0 else map_option Suc (position x ys))"

definition should_advance :: "string option \<Rightarrow> string \<Rightarrow> bool" where
  "should_advance current new_event_type =
     (case current of
        None \<Rightarrow> True
      | Some cur \<Rightarrow>
          new_event_type \<in> set ABSORBING_STATUSES
        \<or> (case (position cur STATUS_ORDER, position new_event_type STATUS_ORDER) of
             (Some c, Some n) \<Rightarrow> n > c
           | _ \<Rightarrow> False))"

section \<open>Statements\<close>

record pending_orphan =
  pe_id :: uuid
  pe_provider_ref :: string
  pe_event_type :: string
  pe_provider_status :: "string option"
  pe_provider_payload_raw :: "string option"
  pe_occurred_at :: timestamp
  pe_reconcile_attempts :: int

record ledger_match =
  lm_comms_request_id :: uuid
  lm_comms_request_created_at :: timestamp
  lm_customer_id :: uuid
  lm_current_final_status :: "string option"
  lm_destination_hmac :: bytes

definition pending_orphan_of :: "orphan_event_row \<Rightarrow> pending_orphan" where
  "pending_orphan_of r = \<lparr>pe_id = or_id r, pe_provider_ref = or_provider_ref r, pe_event_type = or_event_type r,
     pe_provider_status = or_provider_status r, pe_provider_payload_raw = or_provider_payload_raw r,
     pe_occurred_at = or_occurred_at r, pe_reconcile_attempts = or_reconcile_attempts r\<rparr>"

definition list_pending_orphans :: "env \<Rightarrow> ('z world_scheme, sqlx_error, pending_orphan list) io" where
  "list_pending_orphans E = query E (\<lambda>_ d. map pending_orphan_of (t_orphan_event d))"

text \<open>The join of events and requests, latest event first, ties by the larger request id.\<close>

definition event_matches :: "string \<Rightarrow> tenant_db \<Rightarrow> (comms_event_row \<times> comms_request_row) list" where
  "event_matches provider_ref d = filter (\<lambda>(ce, cr). cr_id cr = ev_comms_request_id ce
     \<and> ev_provider_ref ce = provider_ref \<and> ev_provider_ref ce \<noteq> []) (List.product (t_comms_event d) (t_comms_request d))"

definition match_in :: "string \<Rightarrow> tenant_db \<Rightarrow> ledger_match option" where
  "match_in provider_ref d =
     (case top_by (\<lambda>(ce, cr). (- ev_occurred_at ce, - uint (ev_comms_request_id ce))) 1 (event_matches provider_ref d) of
        [] \<Rightarrow> None
      | (ce, cr) # _ \<Rightarrow> Some \<lparr>lm_comms_request_id = cr_id cr, lm_comms_request_created_at = cr_created_at cr,
          lm_customer_id = cr_customer_id cr, lm_current_final_status = cr_final_status cr,
          lm_destination_hmac = cr_destination_hmac cr\<rparr>)"

definition find_match :: "env \<Rightarrow> string \<Rightarrow> ('z world_scheme, sqlx_error, ledger_match option) io" where
  "find_match E provider_ref = query E (\<lambda>_. match_in provider_ref)"

definition auto_suppress_reason :: "string \<Rightarrow> string option" where
  "auto_suppress_reason event_type =
     (if event_type = ''bounced'' then Some ''hard_bounce''
      else if event_type = ''complaint'' then Some ''complaint'' else None)"

definition suppress_for_a_year :: "bytes \<Rightarrow> string \<Rightarrow> timestamp \<Rightarrow> tenant_db \<Rightarrow> tenant_db" where
  "suppress_for_a_year hmac reason now d =
    (let review_at = now + days 365 in
     d\<lparr>t_suppression := upsert su_destination_hmac
        (\<lambda>s. if review_at > su_review_at s then s\<lparr>su_reason := reason, su_review_at := review_at\<rparr> else s)
        \<lparr>su_destination_hmac = hmac, su_reason = reason, su_added_at = now, su_review_at = review_at\<rparr> (t_suppression d)\<rparr>)"

definition advanced :: "timestamp \<Rightarrow> ledger_match \<Rightarrow> string \<Rightarrow> tenant_db \<Rightarrow> tenant_db" where
  "advanced finalized_at m event_type d =
     d\<lparr>t_comms_request := upd_where (\<lambda>r. cr_created_at r = lm_comms_request_created_at m \<and> cr_id r = lm_comms_request_id m)
        (\<lambda>r. r\<lparr>cr_final_status := Some event_type, cr_finalized_at := Some finalized_at\<rparr>) (t_comms_request d)\<rparr>"

text \<open>The body of the transaction; \<open>finalized_at\<close> and \<open>now\<close> are its two readings of the clock.\<close>

definition insert_comms_event :: "timestamp \<Rightarrow> timestamp \<Rightarrow> ledger_match \<Rightarrow> timestamp \<Rightarrow> string \<Rightarrow> string
    \<Rightarrow> string option \<Rightarrow> bytes option \<Rightarrow> bool \<Rightarrow> tenant_db \<Rightarrow> tenant_db" where
  "insert_comms_event finalized_at now m occurred_at event_type provider_ref provider_status ciphertext advance d =
    (let d1 = add_event \<lparr>ev_comms_request_id = lm_comms_request_id m, ev_customer_id = lm_customer_id m,
           ev_occurred_at = occurred_at, ev_event_type = event_type, ev_provider_ref = provider_ref,
           ev_provider_status = provider_status, ev_provider_payload_ciphertext = ciphertext\<rparr> d;
         d2 = (if advance then advanced finalized_at m event_type d1 else d1)
     in case auto_suppress_reason event_type of
          None \<Rightarrow> d2
        | Some reason \<Rightarrow> suppress_for_a_year (lm_destination_hmac m) reason now d2)"

definition promote_orphan :: "env \<Rightarrow> pending_orphan \<Rightarrow> ledger_match \<Rightarrow> bytes option \<Rightarrow> bool
    \<Rightarrow> ('z world_scheme, sqlx_error, unit) io" where
  "promote_orphan E orphan m ciphertext advance =
     bindE (utc_now E) (\<lambda>finalized_at. bindE (utc_now E) (\<lambda>now. exec E (\<lambda>_ d.
       let d' = insert_comms_event finalized_at now m (pe_occurred_at orphan) (pe_event_type orphan)
             (pe_provider_ref orphan) (pe_provider_status orphan) ciphertext advance d
       in d'\<lparr>t_orphan_event := del_where (\<lambda>r. or_id r = pe_id orphan) (t_orphan_event d')\<rparr>)))"

text \<open>\<open>reconcile_attempts\<close> is a \<open>smallint\<close>.\<close>

definition record_miss :: "env \<Rightarrow> uuid \<Rightarrow> int \<Rightarrow> ('z world_scheme, sqlx_error, unit) io" where
  "record_miss E orphan_id cap =
     thenE (stmt E (\<lambda>_ d.
       if \<exists>r \<in> set (t_orphan_event d). or_id r = orphan_id \<and> or_reconcile_attempts r \<ge> SMALLINT_MAX then Inl OutOfRange
       else Inr ((), d\<lparr>t_orphan_event := upd_where (\<lambda>r. or_id r = orphan_id)
              (\<lambda>r. r\<lparr>or_reconcile_attempts := or_reconcile_attempts r + 1\<rparr>) (t_orphan_event d)\<rparr>)))
     (exec E (\<lambda>_ d. d\<lparr>t_orphan_event := del_where (\<lambda>r. or_id r = orphan_id \<and> or_reconcile_attempts r \<ge> cap) (t_orphan_event d)\<rparr>))"

section \<open>Reconciling orphans\<close>

datatype orphan_reconcile_error =
    OrphanDatabase sqlx_error
  | OrphanVault keystore_error
  | OrphanEncryption encryption_error
  | OrphanUnknownTenant string

primrec orphan_of_dek :: "dek_error \<Rightarrow> orphan_reconcile_error" where
  "orphan_of_dek (DekDatabase e) = OrphanDatabase e"
| "orphan_of_dek (DekVault e) = OrphanVault e"
| "orphan_of_dek DekPanic = OrphanDatabase (Panic ''get_or_create_dek'')"

record reconcile_report =
  rr_reconciled :: nat
  rr_aged_out :: nat
  rr_still_pending :: nat

abbreviation DEFAULT_RECONCILE_ATTEMPTS_CAP :: int where "DEFAULT_RECONCILE_ATTEMPTS_CAP \<equiv> 5"

definition seal_orphan :: "'c lru \<Rightarrow> crypto \<Rightarrow> env \<Rightarrow> keystore \<Rightarrow> string \<Rightarrow> pending_orphan \<Rightarrow> ledger_match
    \<Rightarrow> (('c, 'z) key_world_scheme, orphan_reconcile_error, bytes option) io" where
  "seal_orphan L C E K mount orphan m =
     (case pe_provider_payload_raw orphan of
        None \<Rightarrow> ret None
      | Some raw \<Rightarrow>
         bindE (map_err orphan_of_dek (get_or_create_dek L E K mount (lm_customer_id m))) (\<lambda>dek.
         bindE (map_err OrphanEncryption (encrypt C E dek (cy_uuid_bytes C (lm_comms_request_id m)) (as_bytes raw)))
           (\<lambda>blob. ret (Some blob))))"

definition promote_orphan_match :: "'c lru \<Rightarrow> crypto \<Rightarrow> env \<Rightarrow> keystore \<Rightarrow> string \<Rightarrow> pending_orphan \<Rightarrow> ledger_match
    \<Rightarrow> (('c, 'z) key_world_scheme, orphan_reconcile_error, unit) io" where
  "promote_orphan_match L C E K mount orphan m =
     bindE (seal_orphan L C E K mount orphan m) (\<lambda>ciphertext.
       map_err OrphanDatabase (promote_orphan E orphan m ciphertext
         (should_advance (lm_current_final_status m) (pe_event_type orphan))))"

fun reconcile_loop :: "'c lru \<Rightarrow> crypto \<Rightarrow> env \<Rightarrow> keystore \<Rightarrow> string \<Rightarrow> int \<Rightarrow> pending_orphan list \<Rightarrow> reconcile_report
    \<Rightarrow> (('c, 'z) key_world_scheme, orphan_reconcile_error, reconcile_report) io" where
  "reconcile_loop L C E K mount cap [] report = ret report"
| "reconcile_loop L C E K mount cap (orphan # rest) report =
     bindE (if is_recognized_event_type (pe_event_type orphan)
            then map_err OrphanDatabase (find_match E (pe_provider_ref orphan)) else ret None) (\<lambda>m.
     case m of
       Some m \<Rightarrow> thenE (promote_orphan_match L C E K mount orphan m)
         (reconcile_loop L C E K mount cap rest (report\<lparr>rr_reconciled := rr_reconciled report + 1\<rparr>))
     | None \<Rightarrow> thenE (map_err OrphanDatabase (record_miss E (pe_id orphan) cap))
         (reconcile_loop L C E K mount cap rest
           (if i16_succ (pe_reconcile_attempts orphan) \<ge> cap then report\<lparr>rr_aged_out := rr_aged_out report + 1\<rparr>
            else report\<lparr>rr_still_pending := rr_still_pending report + 1\<rparr>)))"

definition reconcile_run :: "'c lru \<Rightarrow> crypto \<Rightarrow> env \<Rightarrow> keystore \<Rightarrow> string \<Rightarrow> int
    \<Rightarrow> (('c, 'z) key_world_scheme, orphan_reconcile_error, reconcile_report) io" where
  "reconcile_run L C E K mount cap =
     bindE (map_err OrphanDatabase (list_pending_orphans E)) (\<lambda>orphans.
       reconcile_loop L C E K mount cap orphans \<lparr>rr_reconciled = 0, rr_aged_out = 0, rr_still_pending = 0\<rparr>)"

text \<open>The command; \<open>fresh\<close> is an empty key cache.\<close>

definition reconcile_tenant :: "'c lru \<Rightarrow> crypto \<Rightarrow> env \<Rightarrow> keystore \<Rightarrow> 'c key_cache \<Rightarrow> sqlx_error + unit \<Rightarrow> string
    \<Rightarrow> (('c, 'z) key_world_scheme, orphan_reconcile_error, reconcile_report) io" where
  "reconcile_tenant L C E K fresh parsed tenant_slug =
     bindE (map_err OrphanDatabase (find_by_slug E tenant_slug)) (\<lambda>found.
     bindE (of_result (ok_or (OrphanUnknownTenant tenant_slug) found)) (\<lambda>tenant.
     thenE (map_err OrphanDatabase (connect_tenant_pool E parsed (tn_id tenant) (tn_database_name tenant)))
     (bindE (map_err OrphanDatabase (load_tenant_config E)) (\<lambda>config.
      thenE (modifyE (\<lambda>w. w\<lparr>w_keys := fresh\<rparr>))
        (reconcile_run L C E K (tn_vault_mount tenant)
          (case config of None \<Rightarrow> DEFAULT_RECONCILE_ATTEMPTS_CAP | Some c \<Rightarrow> tc_reconcile_attempts_cap c))))))"

section \<open>Staged receipts\<close>

record pending_staging_receipt =
  ps_id :: uuid
  ps_provider :: string
  ps_provider_ref :: string
  ps_occurred_at :: timestamp
  ps_event_type :: string
  ps_provider_status :: "string option"
  ps_provider_payload_raw :: string

definition receipt_key :: "webhook_receipt_row \<Rightarrow> string \<times> string \<times> string \<times> timestamp" where
  "receipt_key r = (wr_provider r, wr_provider_ref r, wr_event_type r, wr_occurred_at r)"

text \<open>Only a conflict on the unique key is ignored; a duplicate id is an error.\<close>

definition insert_staging :: "env \<Rightarrow> webhook_receipt_row \<Rightarrow> ('z world_scheme, sqlx_error, unit) io" where
  "insert_staging E r = stmt E (\<lambda>_ d.
     if receipt_key r \<in> receipt_key ` set (t_webhook_receipt d) then Inr ((), d)
     else map_sum id (\<lambda>t. ((), d\<lparr>t_webhook_receipt := t\<rparr>))
            (ins_pk ''webhook_receipt_staging_pkey'' wr_id r (t_webhook_receipt d)))"

definition pending_receipt_of :: "webhook_receipt_row \<Rightarrow> pending_staging_receipt" where
  "pending_receipt_of r = \<lparr>ps_id = wr_id r, ps_provider = wr_provider r, ps_provider_ref = wr_provider_ref r,
     ps_occurred_at = wr_occurred_at r, ps_event_type = wr_event_type r, ps_provider_status = wr_provider_status r,
     ps_provider_payload_raw = wr_provider_payload_raw r\<rparr>"

definition list_pending_receipts :: "env \<Rightarrow> ('z world_scheme, sqlx_error, pending_staging_receipt list) io" where
  "list_pending_receipts E = query E (\<lambda>_ d. map pending_receipt_of (t_webhook_receipt d))"

definition unstage :: "uuid \<Rightarrow> tenant_db \<Rightarrow> tenant_db" where
  "unstage i d = d\<lparr>t_webhook_receipt := del_where (\<lambda>r. wr_id r = i) (t_webhook_receipt d)\<rparr>"

definition promote_receipt :: "env \<Rightarrow> pending_staging_receipt \<Rightarrow> ledger_match \<Rightarrow> bytes option \<Rightarrow> bool
    \<Rightarrow> ('z world_scheme, sqlx_error, unit) io" where
  "promote_receipt E receipt m ciphertext advance =
     bindE (utc_now E) (\<lambda>finalized_at. bindE (utc_now E) (\<lambda>now. exec E (\<lambda>_ d.
       unstage (ps_id receipt) (insert_comms_event finalized_at now m (ps_occurred_at receipt) (ps_event_type receipt)
         (ps_provider_ref receipt) (ps_provider_status receipt) ciphertext advance d))))"

definition to_orphan :: "env \<Rightarrow> pending_staging_receipt \<Rightarrow> ('z world_scheme, sqlx_error, unit) io" where
  "to_orphan E receipt = bindE (new_uuid E) (\<lambda>i. stmt E (\<lambda>n d.
     map_sum id (\<lambda>t. ((), unstage (ps_id receipt) (d\<lparr>t_orphan_event := t\<rparr>)))
       (ins_pk ''orphan_event_pkey'' or_id
         \<lparr>or_id = i, or_received_at = e_clock E n, or_provider = ps_provider receipt, or_provider_ref = ps_provider_ref receipt,
          or_occurred_at = ps_occurred_at receipt, or_event_type = ps_event_type receipt,
          or_provider_status = ps_provider_status receipt,
          or_provider_payload_raw = Some (ps_provider_payload_raw receipt), or_reconcile_attempts = 0\<rparr>
         (t_orphan_event d))))"

datatype webhook_promote_error =
    PromoteDatabase sqlx_error
  | PromoteVault keystore_error
  | PromoteEncryption encryption_error
  | PromoteUnknownTenant string

primrec promote_of_dek :: "dek_error \<Rightarrow> webhook_promote_error" where
  "promote_of_dek (DekDatabase e) = PromoteDatabase e"
| "promote_of_dek (DekVault e) = PromoteVault e"
| "promote_of_dek DekPanic = PromoteDatabase (Panic ''get_or_create_dek'')"

record promote_report =
  pp_promoted :: nat
  pp_orphaned :: nat

definition promote_receipt_match :: "'c lru \<Rightarrow> crypto \<Rightarrow> env \<Rightarrow> keystore \<Rightarrow> string \<Rightarrow> pending_staging_receipt \<Rightarrow> ledger_match
    \<Rightarrow> (('c, 'z) key_world_scheme, webhook_promote_error, unit) io" where
  "promote_receipt_match L C E K mount receipt m =
     bindE (map_err promote_of_dek (get_or_create_dek L E K mount (lm_customer_id m))) (\<lambda>dek.
     bindE (map_err PromoteEncryption (encrypt C E dek (cy_uuid_bytes C (lm_comms_request_id m))
         (as_bytes (ps_provider_payload_raw receipt)))) (\<lambda>ciphertext.
       map_err PromoteDatabase (promote_receipt E receipt m (Some ciphertext)
         (should_advance (lm_current_final_status m) (ps_event_type receipt)))))"

fun promote_loop :: "'c lru \<Rightarrow> crypto \<Rightarrow> env \<Rightarrow> keystore \<Rightarrow> string \<Rightarrow> pending_staging_receipt list \<Rightarrow> promote_report
    \<Rightarrow> (('c, 'z) key_world_scheme, webhook_promote_error, promote_report) io" where
  "promote_loop L C E K mount [] report = ret report"
| "promote_loop L C E K mount (receipt # rest) report =
     bindE (if is_recognized_event_type (ps_event_type receipt)
            then map_err PromoteDatabase (find_match E (ps_provider_ref receipt)) else ret None) (\<lambda>m.
     case m of
       Some m \<Rightarrow> thenE (promote_receipt_match L C E K mount receipt m)
         (promote_loop L C E K mount rest (report\<lparr>pp_promoted := pp_promoted report + 1\<rparr>))
     | None \<Rightarrow> thenE (map_err PromoteDatabase (to_orphan E receipt))
         (promote_loop L C E K mount rest (report\<lparr>pp_orphaned := pp_orphaned report + 1\<rparr>)))"

definition promote_run :: "'c lru \<Rightarrow> crypto \<Rightarrow> env \<Rightarrow> keystore \<Rightarrow> string
    \<Rightarrow> (('c, 'z) key_world_scheme, webhook_promote_error, promote_report) io" where
  "promote_run L C E K mount =
     bindE (map_err PromoteDatabase (list_pending_receipts E)) (\<lambda>receipts.
       promote_loop L C E K mount receipts \<lparr>pp_promoted = 0, pp_orphaned = 0\<rparr>)"

definition promote_tenant :: "'c lru \<Rightarrow> crypto \<Rightarrow> env \<Rightarrow> keystore \<Rightarrow> 'c key_cache \<Rightarrow> sqlx_error + unit \<Rightarrow> string
    \<Rightarrow> (('c, 'z) key_world_scheme, webhook_promote_error, promote_report) io" where
  "promote_tenant L C E K fresh parsed tenant_slug =
     bindE (map_err PromoteDatabase (find_by_slug E tenant_slug)) (\<lambda>found.
     bindE (of_result (ok_or (PromoteUnknownTenant tenant_slug) found)) (\<lambda>tenant.
     thenE (map_err PromoteDatabase (connect_tenant_pool E parsed (tn_id tenant) (tn_database_name tenant)))
     (thenE (modifyE (\<lambda>w. w\<lparr>w_keys := fresh\<rparr>)) (promote_run L C E K (tn_vault_mount tenant)))))"

section \<open>The webhook endpoint\<close>

definition hex_value :: "char \<Rightarrow> nat option" where
  "hex_value c = (let n = of_char c in
     if 48 \<le> n \<and> n \<le> 57 then Some (n - 48)
     else if 97 \<le> n \<and> n \<le> 102 then Some (n - 87)
     else if 65 \<le> n \<and> n \<le> 70 then Some (n - 55) else None)"

text \<open>\<open>u8::from_str_radix(_, 16)\<close> on two characters; a leading plus sign is accepted.\<close>

definition from_str_radix_16 :: "char \<Rightarrow> char \<Rightarrow> 8 word option" where
  "from_str_radix_16 x y =
     (if x = CHR ''+'' then map_option word_of_nat (hex_value y)
      else case (hex_value x, hex_value y) of
        (Some a, Some b) \<Rightarrow> Some (word_of_nat (16 * a + b))
      | _ \<Rightarrow> None)"

fun hex_decode :: "string \<Rightarrow> bytes option" where
  "hex_decode [] = Some []"
| "hex_decode [_] = None"
| "hex_decode (x # y # r) =
     (case from_str_radix_16 x y of None \<Rightarrow> None | Some b \<Rightarrow> map_option ((#) b) (hex_decode r))"

definition strip_prefix :: "string \<Rightarrow> string \<Rightarrow> string" where
  "strip_prefix p s = (if take (length p) s = p then drop (length p) s else s)"

definition hmac_verify :: "crypto \<Rightarrow> bytes \<Rightarrow> bytes \<Rightarrow> string \<Rightarrow> bool" where
  "hmac_verify C secret body signature_header =
     (case hex_decode (strip_prefix ''sha256='' signature_header) of
        None \<Rightarrow> False
      | Some signature_bytes \<Rightarrow> cy_hmac C secret body = signature_bytes)"

text \<open>The open pools of a process, by tenant, each with the database it is connected to.\<close>

record pool_world = world +
  w_pools :: "(uuid \<times> string) list"

definition get_or_open :: "env \<Rightarrow> sqlx_error + unit \<Rightarrow> uuid \<Rightarrow> string \<Rightarrow> ('z pool_world_scheme, sqlx_error, string) io" where
  "get_or_open E parsed tenant_id database_name =
     bindE (gets (\<lambda>w. map_of (w_pools w) tenant_id)) (\<lambda>cached.
     case cached of
       Some pool \<Rightarrow> ret pool
     | None \<Rightarrow>
        thenE (connect_tenant_pool E parsed tenant_id database_name)
        (thenE (modifyE (\<lambda>w. w\<lparr>w_pools := (tenant_id, database_name) # w_pools w\<rparr>)) (ret database_name)))"

record generic_receipt =
  gr_provider_ref :: string
  gr_event_type :: string
  gr_occurred_at :: timestamp
  gr_provider_status :: "string option"

text \<open>What the endpoint takes from outside: parsing the body as JSON, reading the JSON as a receipt, and
  the tenant's secret in Vault.\<close>

record webhook_parts =
  wb_crypto :: crypto
  wb_parse :: "bytes \<Rightarrow> string option"
  wb_receipt :: "string \<Rightarrow> generic_receipt option"
  wb_secret :: "nat \<Rightarrow> string \<Rightarrow> keystore_error + bytes"

definition read_webhook_secret :: "webhook_parts \<Rightarrow> string \<Rightarrow> ('z world_scheme, keystore_error, bytes) io" where
  "read_webhook_secret W slug w = (wb_secret W (w_tick w) slug, w\<lparr>w_tick := Suc (w_tick w)\<rparr>)"

definition store_receipt :: "env \<Rightarrow> string \<Rightarrow> generic_receipt \<Rightarrow> string \<Rightarrow> ('z world_scheme, 'e, nat) io" where
  "store_receipt E provider receipt raw =
     bindE (new_uuid E) (\<lambda>i. bindE (utc_now E) (\<lambda>now.
     bindE (attempt (insert_staging E \<lparr>wr_id = i, wr_received_at = now, wr_provider = provider,
        wr_provider_ref = gr_provider_ref receipt, wr_occurred_at = gr_occurred_at receipt,
        wr_event_type = gr_event_type receipt, wr_provider_status = gr_provider_status receipt,
        wr_provider_payload_raw = raw\<rparr>)) (\<lambda>result.
     ret (case result of Inr _ \<Rightarrow> 200 | Inl _ \<Rightarrow> 500))))"

text \<open>The handler after the signature has been checked.\<close>

definition receive_verified :: "webhook_parts \<Rightarrow> env \<Rightarrow> sqlx_error + unit \<Rightarrow> tenant_row \<Rightarrow> string \<Rightarrow> bytes
    \<Rightarrow> ('z pool_world_scheme, 'e, nat) io" where
  "receive_verified W E parsed tenant provider body =
     (case wb_parse W body of
        None \<Rightarrow> ret 400
      | Some raw \<Rightarrow>
         (case wb_receipt W raw of
            None \<Rightarrow> ret 400
          | Some receipt \<Rightarrow>
             bindE (attempt (get_or_open E parsed (tn_id tenant) (tn_database_name tenant))) (\<lambda>pool.
             case pool of
               Inl _ \<Rightarrow> ret 500
             | Inr _ \<Rightarrow> store_receipt E provider receipt raw)))"

definition receive_webhook :: "webhook_parts \<Rightarrow> env \<Rightarrow> sqlx_error + unit \<Rightarrow> string \<Rightarrow> string \<Rightarrow> string option \<Rightarrow> bytes
    \<Rightarrow> ('z pool_world_scheme, 'e, nat) io" where
  "receive_webhook W E parsed webhook_token provider signature_header body =
     bindE (attempt (find_by_webhook_token E webhook_token)) (\<lambda>found.
     case found of
       Inl _ \<Rightarrow> ret 404
     | Inr None \<Rightarrow> ret 404
     | Inr (Some tenant) \<Rightarrow>
        bindE (attempt (read_webhook_secret W (tn_slug tenant))) (\<lambda>secret.
        case secret of
          Inl _ \<Rightarrow> ret 401
        | Inr secret \<Rightarrow>
           if \<not> (case signature_header of None \<Rightarrow> False | Some header \<Rightarrow> hmac_verify (wb_crypto W) secret body header)
           then ret 401
           else receive_verified W E parsed tenant provider body))"

section \<open>The status only advances\<close>

definition advance_status :: "string option \<Rightarrow> string \<Rightarrow> string option" where
  "advance_status current event_type = (if should_advance current event_type then Some event_type else current)"

text \<open>The order behind \<open>should_advance\<close>: no status, the four ordinary ones, everything else.\<close>

definition status_rank :: "string option \<Rightarrow> nat" where
  "status_rank current = (case current of None \<Rightarrow> 0
     | Some s \<Rightarrow> (case position s STATUS_ORDER of Some n \<Rightarrow> Suc n | None \<Rightarrow> 5))"

lemma position_None: "position x xs = None \<longleftrightarrow> x \<notin> set xs"
  by (induction xs) auto

lemma position_Some: "position x xs = Some n \<Longrightarrow> n < length xs \<and> xs ! n = x"
  by (induction xs arbitrary: n) (auto split: if_splits)

lemma absorbing_not_ordered: "s \<in> set ABSORBING_STATUSES \<Longrightarrow> position s STATUS_ORDER = None"
  by (auto simp: ABSORBING_STATUSES_def STATUS_ORDER_def)

lemma status_rank_ordered: "s \<in> set STATUS_ORDER \<Longrightarrow> status_rank (Some s) \<le> 4"
proof -
  assume "s \<in> set STATUS_ORDER"
  then obtain n where "position s STATUS_ORDER = Some n" using position_None by fast
  moreover from position_Some [OF this] have "n < 4" by (simp add: STATUS_ORDER_def)
  ultimately show ?thesis by (simp add: status_rank_def)
qed

lemma status_rank_eq:
  assumes "status_rank (Some s) = status_rank c" and "s \<in> set STATUS_ORDER"
  shows "c = Some s"
proof -
  obtain n where n: "position s STATUS_ORDER = Some n" using assms(2) position_None by fast
  moreover from position_Some [OF n] have "n < 4" "STATUS_ORDER ! n = s" by (simp_all add: STATUS_ORDER_def)
  ultimately show ?thesis
    using assms(1) position_Some [of _ STATUS_ORDER]
    by (auto simp: status_rank_def split: option.splits)
qed

text \<open>For an ordinary status, the result is the higher of the two.\<close>

lemma advance_ordered:
  assumes "s \<in> set STATUS_ORDER"
  shows "advance_status c s = (if status_rank c < status_rank (Some s) then Some s else c)"
proof -
  obtain n where n: "position s STATUS_ORDER = Some n" using assms position_None by fast
  have "s \<notin> set ABSORBING_STATUSES" using n absorbing_not_ordered by fastforce
  moreover have "n < 4" using position_Some [OF n] by (simp add: STATUS_ORDER_def)
  ultimately show ?thesis
    using n by (auto simp: advance_status_def should_advance_def status_rank_def split: option.splits)
qed

lemma advance_absorbing: "s \<in> set ABSORBING_STATUSES \<Longrightarrow> advance_status c s = Some s"
  by (simp add: advance_status_def should_advance_def split: option.splits)

lemma advance_rank: "is_recognized_event_type s \<Longrightarrow> status_rank c \<le> status_rank (advance_status c s)"
proof -
  have top: "status_rank c \<le> 5" for c
    using position_Some [of _ STATUS_ORDER] by (auto simp: status_rank_def STATUS_ORDER_def split: option.splits)
  assume "is_recognized_event_type s"
  then consider "s \<in> set STATUS_ORDER" | "s \<in> set ABSORBING_STATUSES" by (auto simp: is_recognized_event_type_def)
  then show ?thesis
    by cases (use top in \<open>auto simp: advance_ordered advance_absorbing, simp add: status_rank_def absorbing_not_ordered\<close>)
qed

lemma advance_all_ordered:
  assumes "set es \<subseteq> set STATUS_ORDER"
  shows "foldl advance_status c es \<in> insert c (Some ` set es)
    \<and> (\<forall>x \<in> insert c (Some ` set es). status_rank x \<le> status_rank (foldl advance_status c es))"
  using assms
proof (induction es arbitrary: c)
  case (Cons s es)
  then have "advance_status c s \<in> {c, Some s}" "status_rank c \<le> status_rank (advance_status c s)"
      "status_rank (Some s) \<le> status_rank (advance_status c s)"
    by (simp_all add: advance_ordered)
  moreover from Cons.prems have "set es \<subseteq> set STATUS_ORDER" by simp
  note Cons.IH [OF this, of "advance_status c s"]
  ultimately show ?case by (auto intro: order_trans)
qed simp

lemma advance_all_absorbing:
  assumes "\<forall>s \<in> set es. is_recognized_event_type s" and "\<forall>s \<in> set es. s \<in> set ABSORBING_STATUSES \<longrightarrow> s = a"
    and "a \<in> set ABSORBING_STATUSES"
  shows "a \<in> set es \<or> c = Some a \<Longrightarrow> foldl advance_status c es = Some a"
  using assms(1,2)
proof (induction es arbitrary: c)
  case (Cons s es)
  have stay: "advance_status (Some a) s = Some a" if "s \<in> set STATUS_ORDER"
    using that assms(3) absorbing_not_ordered status_rank_ordered [OF that]
    by (simp add: advance_ordered) (simp add: status_rank_def)
  consider "s \<in> set ABSORBING_STATUSES" | "s \<in> set STATUS_ORDER"
    using Cons.prems(2) by (auto simp: is_recognized_event_type_def)
  then have "a \<in> set es \<or> advance_status c s = Some a"
  proof cases
    case 1
    with Cons.prems(3) have "s = a" by simp
    with 1 show ?thesis by (simp add: advance_absorbing)
  next
    case 2
    then have "s \<noteq> a" using absorbing_not_ordered [OF assms(3)] by (auto simp: position_None)
    with Cons.prems(1) stay [OF 2] show ?thesis by auto
  qed
  with Cons.IH [of "advance_status c s"] Cons.prems(2,3) show ?case by simp
qed simp



section \<open>What a promotion writes\<close>

lemma suppress_for_a_year_tables [simp]:
  "t_comms_request (suppress_for_a_year h r now d) = t_comms_request d" "t_comms_event (suppress_for_a_year h r now d) = t_comms_event d"
  "t_outbox (suppress_for_a_year h r now d) = t_outbox d" "t_customer_dek (suppress_for_a_year h r now d) = t_customer_dek d"
  "t_orphan_event (suppress_for_a_year h r now d) = t_orphan_event d" "t_webhook_receipt (suppress_for_a_year h r now d) = t_webhook_receipt d"
  by (simp_all add: suppress_for_a_year_def Let_def)

lemma advanced_tables [simp]:
  "t_comms_event (advanced t m ev d) = t_comms_event d" "t_outbox (advanced t m ev d) = t_outbox d"
  "t_customer_dek (advanced t m ev d) = t_customer_dek d" "t_suppression (advanced t m ev d) = t_suppression d"
  "t_orphan_event (advanced t m ev d) = t_orphan_event d" "t_webhook_receipt (advanced t m ev d) = t_webhook_receipt d"
  by (simp_all add: advanced_def)

lemma add_event_tables [simp]:
  "t_comms_request (add_event e d) = t_comms_request d" "t_outbox (add_event e d) = t_outbox d"
  "t_customer_dek (add_event e d) = t_customer_dek d" "t_suppression (add_event e d) = t_suppression d"
  "t_orphan_event (add_event e d) = t_orphan_event d" "t_webhook_receipt (add_event e d) = t_webhook_receipt d"
  by (simp_all add: add_event_def)

lemma unstage_tables [simp]:
  "t_comms_event (unstage i d) = t_comms_event d" "t_comms_request (unstage i d) = t_comms_request d"
  "t_outbox (unstage i d) = t_outbox d" "t_orphan_event (unstage i d) = t_orphan_event d" "t_suppression (unstage i d) = t_suppression d"
  by (simp_all add: unstage_def)

lemma upsert_member: "x \<in> set t \<Longrightarrow> (if k x = k r then f x else x) \<in> set (upsert k f r t)"
  by (cases "k x = k r") (force simp: upsert_def upd_where_def image_iff)+

lemma suppress_for_a_year_table:
  "t_suppression (suppress_for_a_year h r now d) = upsert su_destination_hmac
     (\<lambda>s. if now + days 365 > su_review_at s then s\<lparr>su_reason := r, su_review_at := now + days 365\<rparr> else s)
     \<lparr>su_destination_hmac = h, su_reason = r, su_added_at = now, su_review_at = now + days 365\<rparr> (t_suppression d)"
proof -
  have "t_suppression (d\<lparr>t_suppression := x\<rparr>) = x" for x by simp
  then show ?thesis unfolding suppress_for_a_year_def Let_def .
qed

text \<open>A destination once suppressed stays suppressed at least as long, and after a bounce or a complaint
  for a year from now.\<close>

lemma suppress_for_a_year_grows:
  assumes "s \<in> set (t_suppression d)"
  shows "\<exists>s' \<in> set (t_suppression (suppress_for_a_year h r now d)).
     su_destination_hmac s' = su_destination_hmac s \<and> su_review_at s \<le> su_review_at s'"
  unfolding suppress_for_a_year_table
  by (intro bexI [OF _ upsert_member [OF assms]]) auto

lemma suppress_for_a_year_covers:
  "\<exists>s \<in> set (t_suppression (suppress_for_a_year h r now d)). su_destination_hmac s = h \<and> now + days 365 \<le> su_review_at s"
proof (cases "h \<in> su_destination_hmac ` set (t_suppression d)")
  case True
  then obtain s where "s \<in> set (t_suppression d)" "su_destination_hmac s = h" by auto
  then show ?thesis
    unfolding suppress_for_a_year_table by (intro bexI [OF _ upsert_member [of s]]) auto
next
  case False
  then show ?thesis by (simp add: suppress_for_a_year_table upsert_def)
qed

lemma insert_comms_event_grows:
  assumes "s \<in> set (t_suppression d)"
  shows "\<exists>s' \<in> set (t_suppression (insert_comms_event fin now m at ev ref st ct adv d)).
     su_destination_hmac s' = su_destination_hmac s \<and> su_review_at s \<le> su_review_at s'"
  using assms suppress_for_a_year_grows [of s] unfolding insert_comms_event_def Let_def
  by (cases "auto_suppress_reason ev") (fastforce split: if_splits)+

lemma insert_comms_event_suppresses:
  assumes "ev = ''bounced'' \<or> ev = ''complaint''"
  shows "\<exists>s \<in> set (t_suppression (insert_comms_event fin now m at ev ref st ct adv d)).
     su_destination_hmac s = lm_destination_hmac m \<and> now + days 365 \<le> su_review_at s"
proof -
  obtain reason where "auto_suppress_reason ev = Some reason" using assms by (auto simp: auto_suppress_reason_def)
  then show ?thesis
    unfolding insert_comms_event_def Let_def by (simp only: option.case suppress_for_a_year_covers)
qed

lemma insert_comms_event_tables [simp]:
  "t_outbox (insert_comms_event fin now m at ev ref st ct adv d) = t_outbox d"
  "t_orphan_event (insert_comms_event fin now m at ev ref st ct adv d) = t_orphan_event d"
  "t_webhook_receipt (insert_comms_event fin now m at ev ref st ct adv d) = t_webhook_receipt d"
  "t_comms_event (insert_comms_event fin now m at ev ref st ct adv d) = ins_ignore event_key
     \<lparr>ev_comms_request_id = lm_comms_request_id m, ev_customer_id = lm_customer_id m, ev_occurred_at = at, ev_event_type = ev,
      ev_provider_ref = ref, ev_provider_status = st, ev_provider_payload_ciphertext = ct\<rparr> (t_comms_event d)"
  by (simp_all add: insert_comms_event_def Let_def add_event_def split: option.splits)

lemma insert_comms_event_requests:
  "t_comms_request (insert_comms_event fin now m at ev ref st ct adv d) =
     upd_where (\<lambda>r. adv \<and> cr_created_at r = lm_comms_request_created_at m \<and> cr_id r = lm_comms_request_id m)
       (\<lambda>r. r\<lparr>cr_final_status := Some ev, cr_finalized_at := Some fin\<rparr>) (t_comms_request d)"
  by (simp add: insert_comms_event_def Let_def advanced_def upd_where_def split: option.splits)

section \<open>Matching\<close>

lemma match_inD:
  assumes "match_in ref d = Some m"
  shows "\<exists>ce \<in> set (t_comms_event d). \<exists>cr \<in> set (t_comms_request d). ev_provider_ref ce = ref \<and> ref \<noteq> []
     \<and> ev_comms_request_id ce = cr_id cr \<and> cr_id cr = lm_comms_request_id m \<and> cr_created_at cr = lm_comms_request_created_at m
     \<and> cr_final_status cr = lm_current_final_status m \<and> cr_destination_hmac cr = lm_destination_hmac m
     \<and> cr_customer_id cr = lm_customer_id m"
proof -
  let ?k = "\<lambda>(ce, cr). (- ev_occurred_at ce, - uint (ev_comms_request_id ce))"
  obtain ce cr rest where t: "top_by ?k 1 (event_matches ref d) = (ce, cr) # rest"
    using assms by (auto simp: match_in_def split: list.splits)
  then have "(ce, cr) \<in> set (event_matches ref d)" using set_top_by [of ?k 1 "event_matches ref d"] by auto
  moreover have "lm_comms_request_id m = cr_id cr" "lm_comms_request_created_at m = cr_created_at cr"
      "lm_current_final_status m = cr_final_status cr" "lm_destination_hmac m = cr_destination_hmac cr" "lm_customer_id m = cr_customer_id cr"
    using assms t by (auto simp: match_in_def)
  ultimately show ?thesis by (intro bexI [of _ ce] bexI [of _ cr]) (auto simp: event_matches_def)
qed

text \<open>An event that carries a provider's reference is written when the message leaves the queue.\<close>

definition refs_settled :: "tenant_db \<Rightarrow> bool" where
  "refs_settled d \<longleftrightarrow> (\<forall>ce \<in> set (t_comms_event d). ev_provider_ref ce \<noteq> [] \<longrightarrow>
     ev_comms_request_id ce \<notin> ob_comms_request_id ` set (t_outbox d))"

definition ledger_ok :: "tenant_db \<Rightarrow> bool" where
  "ledger_ok d \<longleftrightarrow> queue_ok d \<and> refs_settled d"

definition off_queue :: "uuid \<Rightarrow> tenant_db \<Rightarrow> bool" where
  "off_queue i d \<longleftrightarrow> i \<notin> ob_comms_request_id ` set (t_outbox d)"

lemma match_off_queue: "ledger_ok d \<Longrightarrow> match_in ref d = Some m \<Longrightarrow> off_queue (lm_comms_request_id m) d"
  using match_inD [of ref d m] by (fastforce simp: ledger_ok_def refs_settled_def off_queue_def)

lemma insert_comms_event_ledger_ok:
  assumes "ledger_ok d" and "off_queue (lm_comms_request_id m) d"
  shows "ledger_ok (insert_comms_event fin now m at ev ref st ct adv d)"
proof -
  let ?d = "insert_comms_event fin now m at ev ref st ct adv d"
  have q: "queue_ok d" "refs_settled d" using assms(1) by (simp_all add: ledger_ok_def)
  have keys: "map request_key (t_comms_request ?d) = map request_key (t_comms_request d)"
    unfolding insert_comms_event_requests by (rule map_key_upd_where) (simp add: request_key_def)
  have "\<exists>cr \<in> set (t_comms_request ?d). request_key cr = outbox_key r \<and> cr_final_status cr = None"
    if r: "r \<in> set (t_outbox d)" for r
  proof -
    obtain cr where cr: "cr \<in> set (t_comms_request d)" "request_key cr = outbox_key r" "cr_final_status cr = None"
      using q(1) r by (auto simp: queue_ok_def)
    then have "cr_id cr \<noteq> lm_comms_request_id m"
      using assms(2) r by (force simp: off_queue_def request_key_def outbox_key_def)
    with cr show ?thesis by (force simp: insert_comms_event_requests upd_where_def)
  qed
  then have "queue_ok ?d" using q(1) keys by (auto simp: queue_ok_def distinct_map_ins_ignore)
  moreover have "refs_settled ?d" using q(2) assms(2) by (auto simp: refs_settled_def off_queue_def ins_ignore_def)
  ultimately show ?thesis by (simp add: ledger_ok_def)
qed

lemma ledger_ok_frame [simp]:
  "ledger_ok (d\<lparr>t_orphan_event := x\<rparr>) = ledger_ok d" "ledger_ok (unstage i d) = ledger_ok d"
  "off_queue i (d\<lparr>t_orphan_event := x\<rparr>) = off_queue i d" "off_queue i (unstage j d) = off_queue i d"
  "off_queue i (insert_comms_event fin now m at ev ref st ct adv d) = off_queue i d"
  by (simp_all add: ledger_ok_def queue_ok_def refs_settled_def off_queue_def unstage_def)

lemma ledger_ok_insert_dek [simp]:
  "ledger_ok (snd (insert_dek c wr t d)) = ledger_ok d" "off_queue i (snd (insert_dek c wr t d)) = off_queue i d"
  by (simp_all add: ledger_ok_def queue_ok_def refs_settled_def off_queue_def insert_dek_def)

section \<open>What the promotions keep\<close>

text \<open>An invariant of the ledger, as the two promotions rely on it: a matched request has left the queue,
  and neither the event of a recognised receipt nor the bookkeeping tables break it.\<close>

locale receipt_invariant =
  fixes I :: "tenant_db \<Rightarrow> bool"
  assumes matched: "I d \<Longrightarrow> match_in ref d = Some m \<Longrightarrow> off_queue (lm_comms_request_id m) d"
    and event: "I d \<Longrightarrow> off_queue (lm_comms_request_id m) d \<Longrightarrow> is_recognized_event_type ev
      \<Longrightarrow> I (insert_comms_event fin now m at ev ref st ct adv d)"
    and orphans: "I (d\<lparr>t_orphan_event := x\<rparr>) = I d"
    and staging: "I (unstage i d) = I d"
    and key: "I (snd (insert_dek c wr t d)) = I d"
begin

abbreviation during :: "uuid \<Rightarrow> tenant_db \<Rightarrow> bool" where
  "during i d \<equiv> I d \<and> off_queue i d"

lemma keeps_promote_orphan_match:
  assumes "db_stable E (during (lm_comms_request_id m))" and "is_recognized_event_type (pe_event_type orphan)"
  shows "keeps (db_inv (during (lm_comms_request_id m))) (promote_orphan_match L C E K mount orphan m)"
  unfolding promote_orphan_match_def seal_orphan_def promote_orphan_def Let_def
  by (intro keeps_intros assms(1)) (simp_all add: key event orphans assms(2))

lemma keeps_promote_receipt_match:
  assumes "db_stable E (during (lm_comms_request_id m))" and "is_recognized_event_type (ps_event_type receipt)"
  shows "keeps (db_inv (during (lm_comms_request_id m))) (promote_receipt_match L C E K mount receipt m)"
  unfolding promote_receipt_match_def promote_receipt_def Let_def
  by (intro keeps_intros assms(1)) (simp_all add: key event staging assms(2))

lemma keeps_record_miss: "db_stable E I \<Longrightarrow> keeps (db_inv I) (record_miss E i cap)"
  unfolding record_miss_def by (intro keeps_intros keeps_stmt) (auto simp: orphans split: if_splits)

lemma keeps_to_orphan: "db_stable E I \<Longrightarrow> keeps (db_inv I) (to_orphan E receipt)"
  unfolding to_orphan_def by (intro keeps_intros keeps_stmt) (auto simp: orphans staging)

lemma find_match_off_queue:
  assumes "db_stable E I" and "I (w_db w)"
  shows "wp (find_match E ref) (\<lambda>m w'. case m of None \<Rightarrow> I (w_db w') | Some m \<Rightarrow> during (lm_comms_request_id m) (w_db w'))
     (\<lambda>_ w'. I (w_db w')) w"
  using stableD [OF assms] matched by (auto simp: find_match_def wp_simps Let_def split: option.splits)

text \<open>One turn of either loop: look for a match when the event is recognised, promote it or put it aside.\<close>

lemma keeps_turn:
  fixes g :: "sqlx_error \<Rightarrow> 'e" and promote :: "ledger_match \<Rightarrow> ('z world_scheme, 'e, unit) io"
  assumes st: "db_stable E I" and hit: "\<And>m. known \<Longrightarrow> keeps (db_inv (during (lm_comms_request_id m))) (promote m)"
    and miss: "keeps (db_inv I) aside" and rest: "\<And>m. keeps (db_inv I) (next' m)" "keeps (db_inv I) next''"
  shows "keeps (db_inv I) (bindE (if known then map_err g (find_match E ref) else ret None) (\<lambda>m. case m of
     Some m \<Rightarrow> thenE (promote m) (next' m) | None \<Rightarrow> thenE aside next''))"
proof (rule wp_keeps)
  fix w :: "'z world_scheme" assume "db_inv I w"
  then have I: "I (w_db w)" by (simp add: db_inv_def)
  let ?Q = "\<lambda>(m :: ledger_match option) w'. case m of None \<Rightarrow> I (w_db w') | Some m \<Rightarrow> known \<and> during (lm_comms_request_id m) (w_db w')"
  have look: "wp (if known then map_err g (find_match E ref) else ret None) ?Q (\<lambda>_. db_inv I) w"
    using find_match_off_queue [OF st I, of ref] I
    by (auto simp: wp_simps db_inv_def elim!: wp_mono split: option.splits)
  show "wp (bindE (if known then map_err g (find_match E ref) else ret None) (\<lambda>m. case m of
     Some m \<Rightarrow> thenE (promote m) (next' m) | None \<Rightarrow> thenE aside next'')) (\<lambda>_. db_inv I) (\<lambda>_. db_inv I) w"
  proof (rule wp_bindI [OF look])
    fix m :: "ledger_match option" and v :: "'z world_scheme" assume Q: "?Q m v"
    show "wp (case m of Some m \<Rightarrow> thenE (promote m) (next' m) | None \<Rightarrow> thenE aside next'') (\<lambda>_. db_inv I) (\<lambda>_. db_inv I) v"
    proof (cases m)
      case None
      with Q show ?thesis by (simp add: db_inv_def keeps_wp [OF keeps_bindE [OF miss rest(2)]])
    next
      case (Some m')
      with Q have "wp (promote m') (\<lambda>_. db_inv (during (lm_comms_request_id m'))) (\<lambda>_. db_inv (during (lm_comms_request_id m'))) v"
        by (intro keeps_wp hit) (simp_all add: db_inv_def)
      then have "wp (promote m') (\<lambda>_. db_inv I) (\<lambda>_. db_inv I) v" by (rule wp_mono) (simp_all add: db_inv_def)
      with Some show ?thesis using keeps_wp [OF rest(1)] by (auto intro!: wp_bindI)
    qed
  qed
qed

lemma keeps_reconcile_loop:
  assumes "db_stable E I" and "\<And>i. db_stable E (off_queue i)"
  shows "keeps (db_inv I) (reconcile_loop L C E K mount cap orphans report)"
proof (induction orphans arbitrary: report)
  case (Cons orphan rest)
  show ?case
    unfolding reconcile_loop.simps
    by (rule keeps_turn [OF assms(1)])
      (intro keeps_promote_orphan_match stable_conj assms, assumption, intro keeps_map_err keeps_record_miss assms(1), rule Cons.IH, rule Cons.IH)
qed (simp add: keeps_ret)

lemma keeps_promote_loop:
  assumes "db_stable E I" and "\<And>i. db_stable E (off_queue i)"
  shows "keeps (db_inv I) (promote_loop L C E K mount receipts report)"
proof (induction receipts arbitrary: report)
  case (Cons receipt rest)
  show ?case
    unfolding promote_loop.simps
    by (rule keeps_turn [OF assms(1)])
      (intro keeps_promote_receipt_match stable_conj assms, assumption, intro keeps_map_err keeps_to_orphan assms(1), rule Cons.IH, rule Cons.IH)
qed (simp add: keeps_ret)

lemma keeps_commands:
  assumes "db_stable E I" and "\<And>i. db_stable E (off_queue i)"
  shows "keeps (db_inv I) (reconcile_tenant L C E K fresh parsed slug)" "keeps (db_inv I) (promote_tenant L C E K fresh parsed slug)"
proof -
  have keys: "keeps (db_inv I) (modifyE (\<lambda>w. w\<lparr>w_keys := fresh\<rparr>))"
    by (rule wp_keeps) (simp add: db_inv_def wp_simps)
  have pool: "keeps (db_inv I) (connect_tenant_pool E parsed t n)" for t n
    unfolding connect_tenant_pool_def find_by_id_def
    by (intro keeps_intros) (rule wp_keeps, auto simp: db_inv_def wp_simps Let_def)
  show "keeps (db_inv I) (reconcile_tenant L C E K fresh parsed slug)"
    unfolding reconcile_tenant_def reconcile_run_def find_by_slug_def load_tenant_config_def list_pending_orphans_def
    by (intro keeps_intros pool keys keeps_reconcile_loop assms)
  show "keeps (db_inv I) (promote_tenant L C E K fresh parsed slug)"
    unfolding promote_tenant_def promote_run_def find_by_slug_def list_pending_receipts_def
    by (intro keeps_intros pool keys keeps_promote_loop assms)
qed

end

text \<open>The values \<open>final_status\<close> may take: those of a receipt, and the dispatcher's own.\<close>

definition statuses_known :: "tenant_db \<Rightarrow> bool" where
  "statuses_known d \<longleftrightarrow> (\<forall>r \<in> set (t_comms_request d). \<forall>s. cr_final_status r = Some s \<longrightarrow>
     is_recognized_event_type s \<or> s = ''discarded'')"

lemma insert_comms_event_known:
  "statuses_known d \<Longrightarrow> is_recognized_event_type ev \<Longrightarrow> statuses_known (insert_comms_event fin now m at ev ref st ct adv d)"
  by (auto simp: statuses_known_def insert_comms_event_requests upd_where_def)

text \<open>What the other sessions do to queue and ledger: they keep the invariant, and no message returns
  to the queue.\<close>

definition ledger_stable :: "env \<Rightarrow> bool" where
  "ledger_stable E \<longleftrightarrow> db_stable E (\<lambda>d. ledger_ok d \<and> statuses_known d) \<and> (\<forall>i. db_stable E (off_queue i))"

lemma quiet_ledger_stable [simp]: "quiet E \<Longrightarrow> ledger_stable E"
  by (simp add: ledger_stable_def quiet_stable)

interpretation ledger: receipt_invariant "\<lambda>d. ledger_ok d \<and> statuses_known d"
proof
  show "(ledger_ok (snd (insert_dek c wr t d)) \<and> statuses_known (snd (insert_dek c wr t d))) = (ledger_ok d \<and> statuses_known d)" for c wr t d
    by simp (simp add: statuses_known_def insert_dek_def)
qed (auto simp: match_off_queue insert_comms_event_ledger_ok insert_comms_event_known, auto simp: statuses_known_def)

section \<open>Signatures\<close>

lemma hex_digit_value: "n < 16 \<Longrightarrow> hex_value (hex_digit n) = Some n \<and> hex_digit n \<noteq> CHR ''+'' \<and> hex_digit n \<noteq> CHR ''s''"
proof -
  have "\<forall>n \<in> set [0..<16]. hex_value (hex_digit n) = Some n \<and> hex_digit n \<noteq> CHR ''+'' \<and> hex_digit n \<noteq> CHR ''s''" by code_simp
  then show "n < 16 \<Longrightarrow> hex_value (hex_digit n) = Some n \<and> hex_digit n \<noteq> CHR ''+'' \<and> hex_digit n \<noteq> CHR ''s''" by simp
qed

lemma hex_round_trip: "hex_decode (hex_encode bs) = Some bs"
proof (induction bs)
  case (Cons b bs)
  have b: "unat b < 256" using unsigned_less [of b] by simp
  then have q: "unat b div 16 < 16" by simp
  have "hex_digit (unat b) = hex_digit (unat b mod 16)" by (simp add: hex_digit_def)
  then have lo: "hex_value (hex_digit (unat b)) = Some (unat b mod 16)" using hex_digit_value [of "unat b mod 16"] by simp
  have "from_str_radix_16 (hex_digit (unat b div 16)) (hex_digit (unat b)) = Some (word_of_nat (16 * (unat b div 16) + unat b mod 16))"
    using hex_digit_value [OF q] lo by (simp add: from_str_radix_16_def)
  then have "from_str_radix_16 (hex_digit (unat b div 16)) (hex_digit (unat b)) = Some b" by simp
  with Cons show ?case by (simp add: hex_encode_def)
qed (simp add: hex_encode_def)

lemma hex_not_prefixed: "strip_prefix ''sha256='' (hex_encode bs) = hex_encode bs"
proof (cases bs)
  case (Cons b bs')
  have "unat b < 256" using unsigned_less [of b] by simp
  then have "unat b div 16 < 16" by simp
  then have "hex_digit (unat b div 16) \<noteq> CHR ''s''" using hex_digit_value by blast
  with Cons show ?thesis by (simp add: strip_prefix_def hex_encode_def)
qed (simp add: strip_prefix_def hex_encode_def)

lemma signature_verifies:
  "hmac_verify C secret body (hex_encode (cy_hmac C secret body))"
  "hmac_verify C secret body (''sha256='' @ hex_encode (cy_hmac C secret body))"
proof -
  have "strip_prefix p (p @ s) = s" for p s by (simp add: strip_prefix_def)
  then show "hmac_verify C secret body (hex_encode (cy_hmac C secret body))"
    "hmac_verify C secret body (''sha256='' @ hex_encode (cy_hmac C secret body))"
    unfolding hmac_verify_def hex_not_prefixed by (simp_all only: hex_round_trip option.case)
qed

section \<open>Properties of the receipts\<close>

text \<open>What a request must be to enter the staging table of a tenant.\<close>

definition authentic :: "webhook_parts \<Rightarrow> control_db \<Rightarrow> string \<Rightarrow> string option \<Rightarrow> bytes \<Rightarrow> bool" where
  "authentic W c token header body \<longleftrightarrow> (\<exists>t \<in> set (c_tenant c). \<exists>n secret h. tn_webhook_token t = token
     \<and> wb_secret W n (tn_slug t) = Inr secret \<and> header = Some h \<and> hmac_verify (wb_crypto W) secret body h)"

lemma store_receipt_stores:
  "wp (store_receipt E provider receipt raw) (\<lambda>status w'. (status = 200 \<or> status = 500) \<and> (status = 200 \<longrightarrow>
     (\<exists>r \<in> set (t_webhook_receipt (w_db w')). receipt_key r = (provider, gr_provider_ref receipt, gr_event_type receipt, gr_occurred_at receipt))))
   R w"
  by (auto simp: store_receipt_def insert_staging_def wp_simps Let_def ins_pk_def receipt_key_def image_iff split: sum.splits fault.splits)

lemma wp_read_webhook_secret [wp_simps]:
  "wp (read_webhook_secret W slug) Q R w = (case wb_secret W (w_tick w) slug of
     Inr secret \<Rightarrow> Q secret (w\<lparr>w_tick := Suc (w_tick w)\<rparr>) | Inl e \<Rightarrow> R e (w\<lparr>w_tick := Suc (w_tick w)\<rparr>))"
  by (simp add: wp_def read_webhook_secret_def split: sum.splits)

lemma receive_verified_wp:
  "wp (receive_verified W E parsed t provider body)
     (\<lambda>status w'. (status = 200 \<longrightarrow> (\<exists>raw receipt. \<exists>r \<in> set (t_webhook_receipt (w_db w')). wb_parse W body = Some raw
           \<and> wb_receipt W raw = Some receipt
           \<and> receipt_key r = (provider, gr_provider_ref receipt, gr_event_type receipt, gr_occurred_at receipt)))
      \<and> (status \<noteq> 200 \<and> status \<noteq> 500 \<longrightarrow> w_db w' = w_db w)) R w"
proof -
  have open_then: "wp (bindE (attempt (get_or_open E parsed i n)) (\<lambda>pool. case pool of Inl _ \<Rightarrow> ret 500
        | Inr _ \<Rightarrow> store_receipt E provider receipt raw)) (\<lambda>status w'. (status = 200 \<or> status = 500) \<and> (status = 200 \<longrightarrow>
     (\<exists>r \<in> set (t_webhook_receipt (w_db w')). receipt_key r = (provider, gr_provider_ref receipt, gr_event_type receipt, gr_occurred_at receipt))))
   R w" for i n receipt raw
  proof (rule wp_bindI [where Q' = "\<lambda>_ _. True"], goal_cases)
    case (2 pool v)
    show ?case
    proof (cases pool)
      case Inr
      then show ?thesis by (simp only: sum.case store_receipt_stores)
    qed (simp add: wp_ret)
  qed (simp add: wp_attempt)
  show ?thesis
  proof (cases "wb_parse W body")
    case (Some raw)
    show ?thesis
    proof (cases "wb_receipt W raw")
      case (Some receipt)
      then show ?thesis
        unfolding receive_verified_def \<open>wb_parse W body = Some raw\<close> Some option.case
        by (intro wp_mono [OF open_then]) (use Some in auto)
    qed (simp add: receive_verified_def wp_ret \<open>wb_parse W body = Some raw\<close>)
  qed (simp add: receive_verified_def wp_ret)
qed


definition sample_webhook :: webhook_parts where
  "sample_webhook = \<lparr>wb_crypto = framed_crypto, wb_parse = \<lambda>_. Some ''{}'',
     wb_receipt = \<lambda>_. Some \<lparr>gr_provider_ref = ''ref'', gr_event_type = ''bounced'', gr_occurred_at = 7, gr_provider_status = None\<rparr>,
     wb_secret = \<lambda>_ _. Inr [1]\<rparr>"

definition webhook_world :: pool_world where
  "webhook_world = \<lparr>w_db = empty_db, w_ctl = empty_ctl\<lparr>c_tenant := [peppered_tenant]\<rparr>, w_tick = 0, w_pools = []\<rparr>"


text \<open>C12: A bounce or a complaint silences the destination.  Once such a receipt has been promoted, staged or
  orphaned, no dispatcher sends a message to that destination for a year: processing any queue row
  whose ledger row carries its hash makes no provider call, as long as the entry is there.  And
  promoting a receipt never shortens a suppression that is already in force.\<close>

theorem bounce_stops_sending:
  fixes w :: "('k, 'z) key_world_scheme" and m :: ledger_match and t0 :: timestamp
  assumes "pe_event_type orphan = ''bounced'' \<or> pe_event_type orphan = ''complaint''"
    and "ps_event_type receipt = ''bounced'' \<or> ps_event_type receipt = ''complaint''" and "\<forall>n. t0 \<le> e_clock E n"
  defines "silenced \<equiv> \<lambda>w' :: ('k, 'z) key_world_scheme. \<forall>E' cx row cr (v :: ('c, 'y) dispatcher_world_scheme).
         set (t_suppression (w_db w')) \<subseteq> set (t_suppression (w_db v))
       \<and> cr \<in> set (t_comms_request (w_db v)) \<and> request_key cr = outbox_key row
       \<and> cr_destination_hmac cr = lm_destination_hmac m
       \<and> db_stable E' (suppressed_for_good E' row) \<and> (\<forall>n. e_clock E' n < t0 + days 365)
       \<longrightarrow> w_sent (snd (try_process E' cx row v)) = w_sent v"
  shows "wp (promote_orphan_match L C E K mount orphan m) (\<lambda>_. silenced) (\<lambda>_ _. True) w
    \<and> wp (promote_receipt_match L C E K mount receipt m) (\<lambda>_. silenced) (\<lambda>_ _. True) w
    \<and> (\<forall>s \<in> set (t_suppression d). \<exists>s' \<in> set (t_suppression (insert_comms_event fin now m at ev ref st ct adv d)).
         su_destination_hmac s' = su_destination_hmac s \<and> su_review_at s \<le> su_review_at s')"
proof -
  have silent: "silenced w'" if "\<exists>s \<in> set (t_suppression (w_db w')). su_destination_hmac s = lm_destination_hmac m \<and> e_clock E n + days 365 \<le> su_review_at s"
    for n w'
  proof -
    from that obtain s where s: "s \<in> set (t_suppression (w_db w'))" "su_destination_hmac s = lm_destination_hmac m"
        "e_clock E n + days 365 \<le> su_review_at s" by blast
    have "t0 + days 365 \<le> su_review_at s" using s(3) assms(3) by (meson add_mono_thms_linordered_semiring(3) order_trans)
    with s(1,2) show ?thesis
      unfolding silenced_def by (intro allI impI, elim conjE, intro suppression_entry_blocks [of s]) (auto intro: less_le_trans)
  qed
  have orphan: "wp (promote_orphan E orphan m ct adv) (\<lambda>_. silenced) (\<lambda>_ _. True) v" for ct adv v
    unfolding promote_orphan_def Let_def wp_simps
    using insert_comms_event_suppresses [OF assms(1)] by (auto split: fault.splits intro!: silent)
  have receipt: "wp (promote_receipt E receipt m ct adv) (\<lambda>_. silenced) (\<lambda>_ _. True) v" for ct adv v
    unfolding promote_receipt_def Let_def wp_simps
    using insert_comms_event_suppresses [OF assms(2)] by (auto split: fault.splits intro!: silent)
  have last: "wp (bindE x y) (\<lambda>_. silenced) (\<lambda>_ _. True) v"
    if "\<And>a v. wp (y a) (\<lambda>_. silenced) (\<lambda>_ _. True) v" for x :: "(_, 'e, 'a) io" and y :: "'a \<Rightarrow> (_, 'e, unit) io" and v
    by (rule wp_bindI [OF wp_any that])
  show ?thesis
    unfolding promote_orphan_match_def promote_receipt_match_def
    by (intro conjI last wp_map_errI orphan receipt ballI insert_comms_event_grows)
qed

definition bounced_match :: ledger_match where
  "bounced_match = \<lparr>lm_comms_request_id = 10, lm_comms_request_created_at = 0, lm_customer_id = 20,
     lm_current_final_status = Some ''sent'', lm_destination_hmac = [9]\<rparr>"

definition bounced_receipt :: pending_staging_receipt where
  "bounced_receipt = \<lparr>ps_id = 1, ps_provider = ''p'', ps_provider_ref = ''ref'', ps_occurred_at = 7, ps_event_type = ''bounced'',
     ps_provider_status = None, ps_provider_payload_raw = ''{}''\<rparr>"

definition bounced_orphan :: pending_orphan where
  "bounced_orphan = \<lparr>pe_id = 1, pe_provider_ref = ''ref'', pe_event_type = ''complaint'', pe_provider_status = None,
     pe_provider_payload_raw = None, pe_occurred_at = 7, pe_reconcile_attempts = 0\<rparr>"

theorem bounce_stops_sending_witness:
  "wp (promote_receipt_match list_lru framed_crypto (quiet_env 0) sample_keystore ''mount'' bounced_receipt bounced_match)
     (\<lambda>_ w'. \<forall>row cr (v :: ((uuid \<times> cache_entry) list) dispatcher_world).
         set (t_suppression (w_db w')) \<subseteq> set (t_suppression (w_db v))
       \<and> cr \<in> set (t_comms_request (w_db v)) \<and> request_key cr = outbox_key row \<and> cr_destination_hmac cr = [9]
       \<longrightarrow> w_sent (snd (try_process (quiet_env 5) sample_context row v)) = w_sent v) (\<lambda>_ _. True) cold_world"
proof -
  have e: "pe_event_type bounced_orphan = ''bounced'' \<or> pe_event_type bounced_orphan = ''complaint''"
      "ps_event_type bounced_receipt = ''bounced'' \<or> ps_event_type bounced_receipt = ''complaint''"
      "\<forall>n. 0 \<le> e_clock (quiet_env 0) n"
    by (simp_all add: bounced_orphan_def bounced_receipt_def quiet_env_def)
  have facts: "db_stable (quiet_env 5) (suppressed_for_good (quiet_env 5) row)" "e_clock (quiet_env 5) n < 0 + days 365" for row n
    by (simp_all add: quiet_stable)
  show ?thesis
  proof (rule wp_mono [OF conjunct1 [OF conjunct2 [OF bounce_stops_sending [where 'c = "(uuid \<times> cache_entry) list" and 'y = unit, OF e]]]], goal_cases)
    case (1 out w')
    show ?case using 1 [THEN spec, of "quiet_env 5", THEN spec, of sample_context] facts by (simp add: bounced_match_def)
  qed simp
qed

text \<open>C14: Receipts keep the ledger consistent.  Promoting staged receipts and reconciling orphans, whatever
  the providers sent and whatever fails on the way, keeps the queue and the ledger in step: a queued
  message has no final status, an event with a provider's reference belongs to a message that has left
  the queue, and every final status is one the platform documents.\<close>

theorem receipts_keep_ledger:
  fixes w :: "('c, 'z) key_world_scheme"
  assumes "ledger_stable E" and "ledger_ok (w_db w)" and "statuses_known (w_db w)"
  defines "ok \<equiv> \<lambda>w' :: ('c, 'z) key_world_scheme. ledger_ok (w_db w') \<and> statuses_known (w_db w')"
  shows "ok (snd (promote_tenant L C E K fresh parsed slug w)) \<and> ok (snd (reconcile_tenant L C E K fresh parsed slug w))"
proof -
  have st: "db_stable E (\<lambda>d. ledger_ok d \<and> statuses_known d)" "\<And>i. db_stable E (off_queue i)"
    using assms(1) by (simp_all add: ledger_stable_def)
  show ?thesis
    using keeps_dbD [OF ledger.keeps_commands(1) [OF st], of w L C K fresh parsed slug]
      keeps_dbD [OF ledger.keeps_commands(2) [OF st], of w L C K fresh parsed slug] assms(2,3)
    by (simp add: ok_def)
qed

text \<open>A database in which one message has been sent and its bounce is staged.\<close>

definition bounced_db :: tenant_db where
  "bounced_db = empty_db\<lparr>
     t_comms_request := [\<lparr>cr_tenant_id = 1, cr_id = 10, cr_created_at = 0, cr_customer_id = 20, cr_channel = ''sms'', cr_class = ''marketing'',
        cr_template_id = ''t'', cr_template_version = 1, cr_campaign_id = None, cr_destination_hmac = [9], cr_destination_ciphertext = [],
        cr_payload_ciphertext = None, cr_producer_id = 3, cr_scheduled_for = None, cr_expires_at = None,
        cr_final_status = Some ''sent'', cr_finalized_at = Some 5\<rparr>],
     t_comms_event := [internal_event 10 20 5 ''sent'' (Some ''ref'') None],
     t_webhook_receipt := [\<lparr>wr_id = 1, wr_received_at = 8, wr_provider = ''p'', wr_provider_ref = ''ref'', wr_occurred_at = 7,
        wr_event_type = ''bounced'', wr_provider_status = None, wr_provider_payload_raw = ''{}''\<rparr>]\<rparr>"

definition bounced_world :: "(uuid \<times> cache_entry) list key_world" where
  "bounced_world = cold_world\<lparr>w_db := bounced_db, w_ctl := empty_ctl\<lparr>c_tenant := [peppered_tenant]\<rparr>\<rparr>"

lemma bounced_world_ok: "ledger_ok (w_db bounced_world)" "statuses_known (w_db bounced_world)"
  by (simp_all add: bounced_world_def bounced_db_def ledger_ok_def queue_ok_def refs_settled_def statuses_known_def empty_db_def
      is_recognized_event_type_def STATUS_ORDER_def)

lemma bounced_world_promotes:
  "map_sum id pp_promoted (fst (promote_tenant list_lru framed_crypto (quiet_env 0) sample_keystore \<lparr>kc_inner = [], kc_ttl = 60\<rparr> (Inr ()) ''acme'' bounced_world))
     = Inr 1"
  "map cr_final_status (t_comms_request (w_db (snd (promote_tenant list_lru framed_crypto (quiet_env 0) sample_keystore
       \<lparr>kc_inner = [], kc_ttl = 60\<rparr> (Inr ()) ''acme'' bounced_world)))) = [Some ''bounced'']"
  by code_simp+

theorem receipts_keep_ledger_witness:
  "ledger_ok (w_db (snd (promote_tenant list_lru framed_crypto (quiet_env 0) sample_keystore \<lparr>kc_inner = [], kc_ttl = 60\<rparr> (Inr ()) ''acme'' bounced_world)))
   \<and> map cr_final_status (t_comms_request (w_db (snd (promote_tenant list_lru framed_crypto (quiet_env 0) sample_keystore
       \<lparr>kc_inner = [], kc_ttl = 60\<rparr> (Inr ()) ''acme'' bounced_world)))) = [Some ''bounced'']"
  using receipts_keep_ledger [of "quiet_env 0" bounced_world list_lru framed_crypto sample_keystore "\<lparr>kc_inner = [], kc_ttl = 60\<rparr>" "Inr ()" "''acme''"]
    bounced_world_ok bounced_world_promotes(2) by simp

section \<open>A promoted receipt is on record\<close>

definition receipt_tables :: "tenant_db \<Rightarrow> comms_event_row list \<times> comms_request_row list \<times> webhook_receipt_row list" where
  "receipt_tables d = (t_comms_event d, t_comms_request d, t_webhook_receipt d)"

lemma dek_leaves_receipt_tables:
  assumes "quiet E"
  shows "keeps (db_inv (\<lambda>d. receipt_tables d = x)) (get_or_create_dek L E K mount c)"
  by (rule keeps_get_or_create_dek) (simp_all add: quiet_stable assms receipt_tables_def insert_dek_def)

lemma unstage_gone: "r \<in> set (t_webhook_receipt (unstage i d)) \<longleftrightarrow> r \<in> set (t_webhook_receipt d) \<and> wr_id r \<noteq> i"
  by (simp add: unstage_def set_del_where)

lemma unstage_finds:
  "find_dek_row c (unstage i d) = find_dek_row c d" "find_request t j (unstage i d) = find_request t j d"
  by (simp_all add: find_dek_row_def find_request_def unstage_def)

text \<open>The status of the matched request after the transaction.\<close>

lemma insert_comms_event_status:
  assumes "distinct (map request_key (t_comms_request d))" and "match_in ref d = Some m"
  shows "map_option cr_final_status (find_request (lm_comms_request_created_at m) (lm_comms_request_id m)
       (insert_comms_event fin now m at ev ref' st ct (should_advance (lm_current_final_status m) ev) d))
     = Some (advance_status (lm_current_final_status m) ev)"
proof -
  let ?P = "\<lambda>r. cr_created_at r = lm_comms_request_created_at m \<and> cr_id r = lm_comms_request_id m"
  obtain cr where cr: "cr \<in> set (t_comms_request d)" "?P cr" "cr_final_status cr = lm_current_final_status m"
    using match_inD [OF assms(2)] by metis
  have "?P = (\<lambda>r. request_key r = request_key cr)" using cr(2) by (auto simp: request_key_def)
  then have "find_row ?P (t_comms_request d) = Some cr"
    using find_row_key [OF _ cr(1), of request_key] assms(1) by simp
  then show ?thesis
    unfolding find_request_def insert_comms_event_requests
    by (subst find_row_upd_where_other) (use cr in \<open>auto simp: advance_status_def\<close>)
qed



end
