(* ===== verification/Producer.thy ===== *)
theory Producer
  imports Command
begin

text \<open>
  Producers: the tenant's \<open>producer\<close> table (\<open>producer/repo.rs\<close>), the control database's certificate
  map (\<open>producer/cert_repo.rs\<close>), registering and disabling (\<open>producer/register.rs\<close>) and the
  resolution of a client certificate to a tenant and a producer (\<open>producer/resolve.rs\<close>).

  The two tables live in different databases, so no transaction spans them: what a failure or a
  rival leaves between the two writes is part of the model.  The order \<open>ORDER BY name\<close> gives is
  the database's collation, the argument \<open>collate\<close>.
\<close>

section \<open>The tenant's table\<close>

definition producer_named :: "string \<Rightarrow> tenant_db \<Rightarrow> producer_row option" where
  "producer_named name d = find_row (\<lambda>r. pr_name r = name) (t_producer d)"

definition producer_with_cert :: "string \<Rightarrow> tenant_db \<Rightarrow> producer_row option" where
  "producer_with_cert cert_subject d = find_row (\<lambda>r. pr_cert_subject r = cert_subject) (t_producer d)"

definition find_by_name :: "env \<Rightarrow> string \<Rightarrow> ('z world_scheme, sqlx_error, producer_row option) io" where
  "find_by_name E name = query E (\<lambda>_. producer_named name)"

definition find_producer_by_id :: "env \<Rightarrow> uuid \<Rightarrow> ('z world_scheme, sqlx_error, producer_row option) io" where
  "find_producer_by_id E i = query E (\<lambda>_ d. find_row (\<lambda>r. pr_id r = i) (t_producer d))"

definition list_producer_rows :: "env \<Rightarrow> (string \<Rightarrow> 'k :: linorder) \<Rightarrow> ('z world_scheme, sqlx_error, producer_row list) io" where
  "list_producer_rows E collate = query E (\<lambda>_ d. sort_key (\<lambda>r. collate (pr_name r)) (t_producer d))"

text \<open>An untargeted \<open>ON CONFLICT DO NOTHING\<close>: any of the three unique columns can be the one that is taken.\<close>

definition add_producer :: "producer_row \<Rightarrow> tenant_db \<Rightarrow> bool \<times> tenant_db" where
  "add_producer r d =
     (if \<exists>x \<in> set (t_producer d). pr_id x = pr_id r \<or> pr_name x = pr_name r \<or> pr_cert_subject x = pr_cert_subject r
      then (False, d) else (True, d\<lparr>t_producer := t_producer d @ [r]\<rparr>))"

definition insert_producer :: "env \<Rightarrow> uuid \<Rightarrow> string \<Rightarrow> string \<Rightarrow> string \<Rightarrow> string \<Rightarrow> ('z world_scheme, sqlx_error, bool) io" where
  "insert_producer E i name cert_subject owner_team contact =
     bindE (utc_now E) (\<lambda>now. stmt E (\<lambda>_ d. Inr (add_producer
       \<lparr>pr_id = i, pr_name = name, pr_cert_subject = cert_subject, pr_owner_team = owner_team, pr_contact = contact,
        pr_enabled = True, pr_created_at = now\<rparr> d)))"

definition set_enabled :: "env \<Rightarrow> uuid \<Rightarrow> bool \<Rightarrow> ('z world_scheme, sqlx_error, unit) io" where
  "set_enabled E producer_id enabled = exec E (\<lambda>_ d.
     d\<lparr>t_producer := upd_where (\<lambda>r. pr_id r = producer_id) (\<lambda>r. r\<lparr>pr_enabled := enabled\<rparr>) (t_producer d)\<rparr>)"

section \<open>The certificate map\<close>

record producer_cert =
  pt_cert_subject :: string
  pt_tenant_id :: uuid
  pt_producer_id :: uuid
  pt_enabled :: bool
  pt_tenant_status :: string

text \<open>A join: a certificate of a tenant that is not there is not found.\<close>

definition cert_at :: "string \<Rightarrow> control_db \<Rightarrow> producer_cert option" where
  "cert_at cert_subject c =
     (case find_row (\<lambda>r. pc_cert_subject r = cert_subject) (c_producer_cert c) of
        None \<Rightarrow> None
      | Some r \<Rightarrow> map_option (\<lambda>t. \<lparr>pt_cert_subject = pc_cert_subject r, pt_tenant_id = pc_tenant_id r,
            pt_producer_id = pc_producer_id r, pt_enabled = pc_enabled r, pt_tenant_status = tn_status t\<rparr>)
          (find_tenant (pc_tenant_id r) c))"

definition find_producer_cert :: "env \<Rightarrow> string \<Rightarrow> ('z world_scheme, sqlx_error, producer_cert option) io" where
  "find_producer_cert E cert_subject = ctl_query E (\<lambda>_. cert_at cert_subject)"

text \<open>The tenant must exist; a conflict keeps \<open>enabled\<close>.\<close>

definition bind_cert :: "string \<Rightarrow> uuid \<Rightarrow> uuid \<Rightarrow> control_db \<Rightarrow> sqlx_error + unit \<times> control_db" where
  "bind_cert cert_subject tenant_id producer_id c =
     (if find_tenant tenant_id c = None then Inl (Constraint ''producer_cert_tenant_id_fkey'')
      else Inr ((), c\<lparr>c_producer_cert :=
        upsert pc_cert_subject (\<lambda>r. r\<lparr>pc_tenant_id := tenant_id, pc_producer_id := producer_id\<rparr>)
          \<lparr>pc_cert_subject = cert_subject, pc_tenant_id = tenant_id, pc_producer_id = producer_id, pc_enabled = True\<rparr>
          (c_producer_cert c)\<rparr>))"

definition upsert_producer_cert :: "env \<Rightarrow> string \<Rightarrow> uuid \<Rightarrow> uuid \<Rightarrow> ('z world_scheme, sqlx_error, unit) io" where
  "upsert_producer_cert E cert_subject tenant_id producer_id =
     ctl_stmt E (\<lambda>_. bind_cert cert_subject tenant_id producer_id)"

definition set_cert_enabled :: "env \<Rightarrow> string \<Rightarrow> bool \<Rightarrow> ('z world_scheme, sqlx_error, unit) io" where
  "set_cert_enabled E cert_subject enabled = ctl_exec E (\<lambda>_ c.
     c\<lparr>c_producer_cert := upd_where (\<lambda>r. pc_cert_subject r = cert_subject) (\<lambda>r. r\<lparr>pc_enabled := enabled\<rparr>) (c_producer_cert c)\<rparr>)"

definition delete_producer_cert :: "env \<Rightarrow> string \<Rightarrow> ('z world_scheme, sqlx_error, unit) io" where
  "delete_producer_cert E cert_subject = ctl_exec E (\<lambda>_ c.
     c\<lparr>c_producer_cert := del_where (\<lambda>r. pc_cert_subject r = cert_subject) (c_producer_cert c)\<rparr>)"

section \<open>Registering\<close>

record register_outcome =
  ro_producer_id :: uuid
  ro_outcome :: string

definition register_audit :: "env \<Rightarrow> string \<Rightarrow> string \<Rightarrow> uuid option \<Rightarrow> string \<Rightarrow> string option \<Rightarrow> string
    \<Rightarrow> ('z world_scheme, sqlx_error, unit) io" where
  "register_audit E actor action tenant_id name cert_subject outcome =
     audit_record E actor action tenant_id
       [(''name'', JStr name), (''cert_subject'', json_opt cert_subject), (''outcome'', JStr outcome)]"

abbreviation rejected_registration :: "env \<Rightarrow> string \<Rightarrow> uuid option \<Rightarrow> string \<Rightarrow> string \<Rightarrow> string \<Rightarrow> ('z world_scheme, sqlx_error, 'a) io" where
  "rejected_registration E actor tenant_id name cert_subject why \<equiv>
     thenE (register_audit E actor ''producer.register'' tenant_id name (Some cert_subject) ''rejected'') (throw (Configuration why))"

text \<open>Both reads of the tenant table share one snapshot; the certificate is looked up after it.\<close>

definition classify_registration :: "env \<Rightarrow> uuid \<Rightarrow> string \<Rightarrow> string \<Rightarrow> string \<Rightarrow> string \<Rightarrow> string
    \<Rightarrow> ('z world_scheme, sqlx_error, register_outcome option) io" where
  "classify_registration E tenant_id name cert_subject owner_team contact actor =
     bindE (query E (\<lambda>_ d. (producer_named name d, producer_with_cert cert_subject d))) (\<lambda>(by_name, by_cert_subject).
     case by_name of
       Some existing \<Rightarrow>
         (if pr_cert_subject existing = cert_subject \<and> pr_owner_team existing = owner_team \<and> pr_contact existing = contact
          then thenE (upsert_producer_cert E cert_subject tenant_id (pr_id existing))
                 (thenE (register_audit E actor ''producer.register'' (Some tenant_id) name (Some cert_subject) ''idempotent'')
                   (ret (Some \<lparr>ro_producer_id = pr_id existing, ro_outcome = ''idempotent''\<rparr>)))
          else rejected_registration E actor (Some tenant_id) name cert_subject ''registered with different inputs'')
     | None \<Rightarrow>
        (case by_cert_subject of
           Some other \<Rightarrow> rejected_registration E actor (Some tenant_id) name cert_subject ''cert_subject bound in this tenant''
         | None \<Rightarrow> bindE (find_producer_cert E cert_subject) (\<lambda>existing_cert.
             case existing_cert of
               Some cert \<Rightarrow> (if pt_tenant_id cert \<noteq> tenant_id
                 then rejected_registration E actor (Some tenant_id) name cert_subject ''cert_subject bound to a different tenant''
                 else ret None)
             | None \<Rightarrow> ret None)))"

definition register_producer_inner :: "env \<Rightarrow> uuid \<Rightarrow> string \<Rightarrow> string \<Rightarrow> string \<Rightarrow> string \<Rightarrow> string
    \<Rightarrow> ('z world_scheme, sqlx_error, register_outcome) io" where
  "register_producer_inner E tenant_id name cert_subject owner_team contact actor =
     bindE (classify_registration E tenant_id name cert_subject owner_team contact actor) (\<lambda>known.
     case known of
       Some outcome \<Rightarrow> ret outcome
     | None \<Rightarrow>
        bindE (new_uuid E) (\<lambda>producer_id.
        bindE (insert_producer E producer_id name cert_subject owner_team contact) (\<lambda>inserted.
        if \<not> inserted then
          bindE (classify_registration E tenant_id name cert_subject owner_team contact actor) (\<lambda>again.
          case again of
            Some outcome \<Rightarrow> ret outcome
          | None \<Rightarrow> rejected_registration E actor (Some tenant_id) name cert_subject ''lost a race to a row that is not there'')
        else
          thenE (upsert_producer_cert E cert_subject tenant_id producer_id)
            (thenE (register_audit E actor ''producer.register'' (Some tenant_id) name (Some cert_subject) ''created'')
              (ret \<lparr>ro_producer_id = producer_id, ro_outcome = ''created''\<rparr>)))))"

definition register_producer :: "env \<Rightarrow> sqlx_error + unit \<Rightarrow> string \<Rightarrow> string \<Rightarrow> string \<Rightarrow> string \<Rightarrow> string \<Rightarrow> string
    \<Rightarrow> ('z world_scheme, sqlx_error, register_outcome) io" where
  "register_producer E parsed tenant_slug name cert_subject owner_team contact actor =
     tenant_command id E parsed tenant_slug
       (register_audit E actor ''producer.register'' None name (Some cert_subject) ''rejected'')
       (\<lambda>tenant. register_producer_inner E (tn_id tenant) name cert_subject owner_team contact actor)"

section \<open>Disabling and listing\<close>

text \<open>The control side first: it is the copy that resolution reads.\<close>

definition disable_producer_inner :: "env \<Rightarrow> uuid \<Rightarrow> string \<Rightarrow> string \<Rightarrow> ('z world_scheme, sqlx_error, string) io" where
  "disable_producer_inner E tenant_id name actor =
     bindE (find_by_name E name) (\<lambda>found.
     case found of
       None \<Rightarrow> thenE (register_audit E actor ''producer.disable'' (Some tenant_id) name None ''rejected'')
                 (throw (Configuration ''no producer of that name''))
     | Some existing \<Rightarrow>
        thenE (set_cert_enabled E (pr_cert_subject existing) False)
        (bindE (if pr_enabled existing then thenE (set_enabled E (pr_id existing) False) (ret ''disabled'') else ret ''idempotent'') (\<lambda>outcome.
         thenE (register_audit E actor ''producer.disable'' (Some tenant_id) name (Some (pr_cert_subject existing)) outcome)
           (ret outcome))))"

definition disable_producer :: "env \<Rightarrow> sqlx_error + unit \<Rightarrow> string \<Rightarrow> string \<Rightarrow> string \<Rightarrow> ('z world_scheme, sqlx_error, string) io" where
  "disable_producer E parsed tenant_slug name actor =
     tenant_command id E parsed tenant_slug (register_audit E actor ''producer.disable'' None name None ''rejected'')
       (\<lambda>tenant. disable_producer_inner E (tn_id tenant) name actor)"

definition list_producers :: "env \<Rightarrow> (string \<Rightarrow> 'k :: linorder) \<Rightarrow> sqlx_error + unit \<Rightarrow> string
    \<Rightarrow> ('z world_scheme, sqlx_error, producer_row list) io" where
  "list_producers E collate parsed tenant_slug = tenant_read id E parsed tenant_slug (\<lambda>_. list_producer_rows E collate)"

section \<open>Resolving a certificate\<close>

record resolved_identity =
  ri_tenant_id :: uuid
  ri_producer_id :: uuid

datatype resolution_error =
    UnknownCert
  | Disabled uuid uuid
  | ResolutionTenantNotActive uuid uuid
  | ResolutionDatabase sqlx_error

definition resolve_producer :: "env \<Rightarrow> string \<Rightarrow> ('z world_scheme, resolution_error, resolved_identity) io" where
  "resolve_producer E cert_subject =
     bindE (map_err ResolutionDatabase (find_producer_cert E cert_subject)) (\<lambda>found.
     case found of
       None \<Rightarrow> throw UnknownCert
     | Some cert \<Rightarrow>
        if \<not> pt_enabled cert then throw (Disabled (pt_tenant_id cert) (pt_producer_id cert))
        else if pt_tenant_status cert \<noteq> ''active'' then throw (ResolutionTenantNotActive (pt_tenant_id cert) (pt_producer_id cert))
        else ret \<lparr>ri_tenant_id = pt_tenant_id cert, ri_producer_id = pt_producer_id cert\<rparr>)"

section \<open>A disabled certificate\<close>

definition cert_off :: "string \<Rightarrow> control_db \<Rightarrow> bool" where
  "cert_off s c \<longleftrightarrow> s \<in> pc_cert_subject ` set (c_producer_cert c)
     \<and> (\<forall>r \<in> set (c_producer_cert c). pc_cert_subject r = s \<longrightarrow> \<not> pc_enabled r)"

lemma cert_off_bind_cert: "cert_off s c \<Longrightarrow> bind_cert s' t p c = Inr (u, c') \<Longrightarrow> cert_off s c'"
  by (auto simp: cert_off_def bind_cert_def upsert_def image_upd_where split: if_splits) (auto simp: upd_where_def)

lemma cert_off_ignores_audit [simp]: "ignores_audit (cert_off s)"
  by (simp add: ignores_audit_def cert_off_def)

lemma keeps_upsert_producer_cert:
  "ctl_stable E (cert_off s) \<Longrightarrow> keeps (ctl_inv (cert_off s)) (upsert_producer_cert E s' t p)"
  unfolding upsert_producer_cert_def by (rule ctl_keeps_stmt) (auto intro: cert_off_bind_cert)

lemma keeps_register_audit:
  "ctl_stable E (cert_off s) \<Longrightarrow> keeps (ctl_inv (cert_off s)) (register_audit E actor action t n cs out)"
  unfolding register_audit_def by (intro keeps_intros) simp_all

lemma keeps_classify_registration:
  assumes "ctl_stable E (cert_off s)"
  shows "keeps (ctl_inv (cert_off s)) (classify_registration E t n cs o' co actor)"
  unfolding classify_registration_def find_producer_cert_def
  by (rule keeps_bindE, intro keeps_intros)
    (auto split: prod.splits option.splits
      intro!: keeps_intros keeps_register_audit keeps_upsert_producer_cert assms)

lemma keeps_register_producer:
  assumes "ctl_stable E (cert_off s)"
  shows "keeps (ctl_inv (cert_off s)) (register_producer E parsed slug n cs o' co actor)"
  unfolding register_producer_def register_producer_inner_def insert_producer_def
  by (intro keeps_intros keeps_register_audit keeps_classify_registration keeps_upsert_producer_cert assms)

lemma keeps_disable_producer:
  assumes "ctl_stable E (cert_off s)"
  shows "keeps (ctl_inv (cert_off s)) (disable_producer E parsed slug n actor)"
proof -
  have "keeps (ctl_inv (cert_off s)) (set_cert_enabled E cs False)" for cs
    unfolding set_cert_enabled_def
    by (intro keeps_intros assms) (auto simp: cert_off_def image_upd_where, auto simp: upd_where_def)
  then show ?thesis
    unfolding disable_producer_def disable_producer_inner_def find_by_name_def set_enabled_def
    by (intro keeps_intros keeps_register_audit assms)
qed

lemma cert_off_refused:
  assumes "ctl_stable E (cert_off s)" and "cert_off s (w_ctl w)"
  shows "wp (resolve_producer E s) (\<lambda>_ _. False) (\<lambda>e w'. e = UnknownCert \<or> (\<exists>t p. e = Disabled t p) \<or> e = ResolutionDatabase Io) w"
proof -
  have off: "cert_off s (e_ctl_interfere E n (w_ctl w))" for n
    using assms by (simp add: ctl_stable_def)
  have "\<not> pt_enabled cert" if "cert_at s (e_ctl_interfere E n (w_ctl w)) = Some cert" for n cert
    using that off [of n] by (auto simp: cert_at_def cert_off_def split: option.splits dest!: find_row_SomeD)
  then show ?thesis
    by (auto simp: resolve_producer_def find_producer_cert_def wp_simps wp_case_option Let_def split: option.splits)
qed

section \<open>Registration\<close>

definition bound_to :: "string \<Rightarrow> uuid \<Rightarrow> uuid \<Rightarrow> control_db \<Rightarrow> bool" where
  "bound_to s tenant_id producer_id c \<longleftrightarrow> (\<exists>r. find_row (\<lambda>r. pc_cert_subject r = s) (c_producer_cert c) = Some r
     \<and> pc_tenant_id r = tenant_id \<and> pc_producer_id r = producer_id)"

lemma bind_cert_bound: "bind_cert s t p c = Inr (u, c') \<Longrightarrow> bound_to s t p c'"
proof -
  assume "bind_cert s t p c = Inr (u, c')"
  then have c': "c' = c\<lparr>c_producer_cert :=
        upsert pc_cert_subject (\<lambda>r. r\<lparr>pc_tenant_id := t, pc_producer_id := p\<rparr>)
          \<lparr>pc_cert_subject = s, pc_tenant_id = t, pc_producer_id = p, pc_enabled = True\<rparr> (c_producer_cert c)\<rparr>"
    by (auto simp: bind_cert_def split: if_splits)
  show ?thesis
    using upsert_fits [of pc_cert_subject "\<lparr>pc_cert_subject = s, pc_tenant_id = t, pc_producer_id = p, pc_enabled = True\<rparr>"
        "\<lambda>r. r\<lparr>pc_tenant_id := t, pc_producer_id := p\<rparr>" "\<lambda>r. pc_tenant_id r = t \<and> pc_producer_id r = p" "c_producer_cert c"]
    unfolding c' by (simp add: bound_to_def)
qed

text \<open>A registration under the tenant that owns the certificate, if anybody does.\<close>

definition own_cert :: "string \<Rightarrow> uuid \<Rightarrow> control_db \<Rightarrow> bool" where
  "own_cert s tenant_id c \<longleftrightarrow> (\<forall>cert. cert_at s c = Some cert \<longrightarrow> pt_tenant_id cert = tenant_id)"

lemma classify_registration_wp:
  assumes "ctl_quiet E"
  shows "wp (classify_registration E tenant_id name s owner_team contact actor)
     (\<lambda>r w'. case r of None \<Rightarrow> w_ctl w' = w_ctl w \<and> own_cert s tenant_id (w_ctl w) | Some out \<Rightarrow> ro_outcome out = ''idempotent'')
     (\<lambda>_ _. True) w"
  using assms
  by (auto simp: classify_registration_def find_producer_cert_def upsert_producer_cert_def wp_simps Let_def own_cert_def
      wp_case_option wp_ret_eta wp_throw_eta split: prod.splits option.splits sum.splits fault.splits)

lemma upsert_producer_cert_wp:
  assumes "ctl_quiet E"
  shows "wp (upsert_producer_cert E s t p) (\<lambda>_ w'. bound_to s t p (w_ctl w')) (\<lambda>_ _. True) w"
  using assms bind_cert_bound [of s t p]
  by (auto simp: upsert_producer_cert_def wp_simps Let_def split: sum.splits fault.splits)

lemma register_audit_wp:
  assumes "ctl_quiet E" and "P (w_ctl w)" and "ignores_audit P"
  shows "wp (register_audit E actor action t n cs out) (\<lambda>_ w'. P (w_ctl w')) (\<lambda>_ _. True) w"
proof -
  have "ctl_stable E P" using assms(1) by (simp add: ctl_stable_def)
  from keepsD [OF ctl_keeps_audit_record [OF this assms(3)]] assms(2)
  have "P (w_ctl (snd (register_audit E actor action t n cs out w)))"
    unfolding register_audit_def ctl_inv_def by blast
  then show ?thesis by (cases "register_audit E actor action t n cs out w") (auto simp: wp_def split: sum.splits)
qed

lemma register_producer_inner_wp:
  assumes "ctl_quiet E"
  shows "wp (register_producer_inner E tenant_id name s owner_team contact actor)
     (\<lambda>r w'. ro_outcome r = ''created'' \<longrightarrow> own_cert s tenant_id (w_ctl w) \<and> bound_to s tenant_id (ro_producer_id r) (w_ctl w'))
     (\<lambda>_ _. True) w"
proof -
  let ?Q = "\<lambda>r w'. ro_outcome r = ''created'' \<longrightarrow> own_cert s tenant_id (w_ctl w) \<and> bound_to s tenant_id (ro_producer_id r) (w_ctl w')"
  let ?C = "classify_registration E tenant_id name s owner_team contact actor"
  have again: "wp (bindE ?C (\<lambda>again. case again of Some outcome \<Rightarrow> ret outcome
      | None \<Rightarrow> rejected_registration E actor (Some tenant_id) name s why)) ?Q (\<lambda>_ _. True) v" for why v
    by (rule wp_bindI [OF classify_registration_wp [OF assms]])
      (auto simp: wp_ret wp_bindE wp_throw_eta split: option.splits)
  have new: "wp (thenE (upsert_producer_cert E s tenant_id p)
      (thenE (register_audit E actor ''producer.register'' (Some tenant_id) name (Some s) ''created'')
        (ret \<lparr>ro_producer_id = p, ro_outcome = ''created''\<rparr>))) ?Q (\<lambda>_ _. True) v"
    if "own_cert s tenant_id (w_ctl w)" for p v
  proof (rule wp_bindI [OF upsert_producer_cert_wp [OF assms]])
    fix u v' assume "bound_to s tenant_id p (w_ctl v')"
    from register_audit_wp [where P = "bound_to s tenant_id p", OF assms this]
    have "wp (register_audit E actor ''producer.register'' (Some tenant_id) name (Some s) ''created'')
        (\<lambda>_ w'. bound_to s tenant_id p (w_ctl w')) (\<lambda>_ _. True) v'"
      by (simp add: ignores_audit_def bound_to_def)
    then show "wp (thenE (register_audit E actor ''producer.register'' (Some tenant_id) name (Some s) ''created'')
        (ret \<lparr>ro_producer_id = p, ro_outcome = ''created''\<rparr>)) ?Q (\<lambda>_ _. True) v'"
      by (rule wp_bindI) (use that in \<open>simp add: wp_ret\<close>)
  qed
  let ?fin = "\<lambda>p inserted. if \<not> inserted then bindE ?C (\<lambda>again. case again of Some outcome \<Rightarrow> ret outcome
        | None \<Rightarrow> rejected_registration E actor (Some tenant_id) name s ''lost a race to a row that is not there'')
      else thenE (upsert_producer_cert E s tenant_id p)
            (thenE (register_audit E actor ''producer.register'' (Some tenant_id) name (Some s) ''created'')
              (ret \<lparr>ro_producer_id = p, ro_outcome = ''created''\<rparr>))"
  have fin: "wp (?fin p inserted) ?Q (\<lambda>_ _. True) v" if "own_cert s tenant_id (w_ctl w)" for p inserted v
    using again new [OF that] by (cases inserted) simp_all
  have "wp (bindE (insert_producer E p name s owner_team contact) (?fin p)) ?Q (\<lambda>_ _. True) v"
    if "own_cert s tenant_id (w_ctl w)" for p v
    by (rule wp_bindI [where Q' = "\<lambda>_ _. True", OF wp_any]) (rule fin [OF that])
  then have "wp (case known of Some outcome \<Rightarrow> ret outcome
      | None \<Rightarrow> bindE (new_uuid E) (\<lambda>p. bindE (insert_producer E p name s owner_team contact) (?fin p))) ?Q (\<lambda>_ _. True) v"
    if "case known of None \<Rightarrow> w_ctl v = w_ctl w \<and> own_cert s tenant_id (w_ctl w) | Some out \<Rightarrow> ro_outcome out = ''idempotent''"
    for known :: "register_outcome option" and v
    using that by (cases known) (simp_all add: wp_ret wp_bindE [of "new_uuid E"] wp_new_uuid)
  then show ?thesis
    unfolding register_producer_inner_def by (rule wp_bindI [OF classify_registration_wp [OF assms]])
qed


section \<open>One audit row per command\<close>

lemma unlogged_upsert_producer_cert: "ctl_quiet E \<Longrightarrow> unlogged rejection (upsert_producer_cert E s t p)"
  unfolding upsert_producer_cert_def
  by (rule unlogged_ctl_stmt) (auto simp: bind_cert_def split: if_splits)

lemma audits_rejected_registration:
  "ctl_quiet E \<Longrightarrow> audits_once ''producer.register'' rejection outcome (rejected_registration E actor t n s why)"
  unfolding register_audit_def by (rule audits_record_then_reject) simp_all

lemma classify_registration_logs:
  fixes w :: "'z world_scheme"
  assumes "ctl_quiet E"
  shows "wp (classify_registration E tenant_id name s owner_team contact actor)
     (\<lambda>r w'. case r of None \<Rightarrow> audit_log w' = audit_log w | Some out \<Rightarrow> returns_logged ''producer.register'' (ro_outcome out) w w')
     (\<lambda>e. fails_logged ''producer.register'' rejection e w) w"
proof -
  let ?out = "\<lambda>r :: register_outcome option. case r of None \<Rightarrow> '''' | Some out \<Rightarrow> ro_outcome out"
  let ?Q = "\<lambda>r w'. case r of None \<Rightarrow> audit_log w' = audit_log w | Some out \<Rightarrow> returns_logged ''producer.register'' (ro_outcome out) w w'"
  let ?R = "\<lambda>e. fails_logged ''producer.register'' rejection e w"
  have read: "wp m (\<lambda>_ w'. audit_log w' = audit_log w) ?R v"
    if "unlogged rejection m" "audit_log v = audit_log w" for m :: "('z world_scheme, sqlx_error, 'x) io" and v :: "'z world_scheme"
    using that by (auto simp: unlogged_def fails_logged_def intro: wp_mono)
  have reject: "wp (rejected_registration E actor (Some tenant_id) name s why) ?Q ?R v" if "audit_log v = audit_log w" for why and v :: "'z world_scheme"
  proof -
    have "wp (rejected_registration E actor (Some tenant_id) name s why) (\<lambda>_ _. False) ?R v"
      unfolding register_audit_def wp_bindE wp_throw_eta
      by (rule wp_mono [OF audit_record_logs [OF assms]]) (use that in \<open>auto simp: fails_logged_def returns_logged_def\<close>)
    then show ?thesis by (rule wp_mono) auto
  qed
  have same: "wp (thenE (upsert_producer_cert E s tenant_id p)
      (thenE (register_audit E actor ''producer.register'' (Some tenant_id) name (Some s) ''idempotent'')
        (ret (Some \<lparr>ro_producer_id = p, ro_outcome = ''idempotent''\<rparr>)))) ?Q ?R v" if "audit_log v = audit_log w" for p and v :: "'z world_scheme"
  proof (rule wp_bindI [OF read [OF unlogged_upsert_producer_cert [OF assms] that]])
    fix a and v' :: "'z world_scheme" assume v': "audit_log v' = audit_log w"
    show "wp (thenE (register_audit E actor ''producer.register'' (Some tenant_id) name (Some s) ''idempotent'')
        (ret (Some \<lparr>ro_producer_id = p, ro_outcome = ''idempotent''\<rparr>))) ?Q ?R v'"
      unfolding register_audit_def wp_bindE wp_ret_eta
      by (rule wp_mono [OF audit_record_logs [OF assms]]) (use v' in \<open>auto simp: fails_logged_def returns_logged_def\<close>)
  qed
  have cert: "wp (bindE (find_producer_cert E s) (\<lambda>existing_cert. case existing_cert of
      Some cert \<Rightarrow> (if pt_tenant_id cert \<noteq> tenant_id
        then rejected_registration E actor (Some tenant_id) name s ''cert_subject bound to a different tenant'' else ret None)
    | None \<Rightarrow> ret None)) ?Q ?R v" if "audit_log v = audit_log w" for v :: "'z world_scheme"
    unfolding find_producer_cert_def
    by (rule wp_bindI [OF read [OF unlogged_ctl_query [OF assms] that]]) (auto simp: wp_ret reject split: option.splits)
  show ?thesis
    unfolding classify_registration_def
    by (rule wp_bindI [OF read [OF unlogged_query refl]]) (auto simp: same reject cert split: prod.splits option.splits)
qed


lemma audits_after_classify:
  assumes "ctl_quiet E" and "audits_once ''producer.register'' rejection ro_outcome m"
  shows "audits_once ''producer.register'' rejection ro_outcome
     (bindE (classify_registration E tenant_id name s owner_team contact actor) (\<lambda>known. case known of
        Some outcome \<Rightarrow> ret outcome | None \<Rightarrow> m))"
  unfolding audits_once_def
proof (intro allI, rule wp_bindI [OF classify_registration_logs [OF assms(1)]])
  fix w :: "'a world_scheme" and known :: "register_outcome option" and v :: "'a world_scheme"
  assume k: "case known of None \<Rightarrow> audit_log v = audit_log w | Some out \<Rightarrow> returns_logged ''producer.register'' (ro_outcome out) w v"
  have "wp m (\<lambda>a. returns_logged ''producer.register'' (ro_outcome a) w) (\<lambda>e. fails_logged ''producer.register'' rejection e w) v"
    if "audit_log v = audit_log w"
    by (rule wp_mono [OF assms(2) [unfolded audits_once_def, rule_format]]) (use that in \<open>auto simp: returns_logged_def fails_logged_def\<close>)
  with k show "wp (case known of Some outcome \<Rightarrow> ret outcome | None \<Rightarrow> m)
      (\<lambda>a. returns_logged ''producer.register'' (ro_outcome a) w) (\<lambda>e. fails_logged ''producer.register'' rejection e w) v"
    by (cases known) (simp_all add: wp_ret)
qed

lemma audits_register_producer:
  assumes "ctl_quiet E"
  shows "audits_once ''producer.register'' rejection ro_outcome (register_producer E (Inr ()) slug name s owner_team contact actor)"
proof -
  have ins: "unlogged rejection (insert_producer E p name s owner_team contact)" for p
    unfolding insert_producer_def by (intro audit_intros unlogged_stmt) auto
  have created: "audits_once ''producer.register'' rejection ro_outcome
      (thenE (register_audit E actor ''producer.register'' (Some t) name (Some s) ''created'')
        (ret \<lparr>ro_producer_id = p, ro_outcome = ''created''\<rparr>))" for t p
    unfolding register_audit_def by (rule audits_record_then_ret [OF assms]) simp
  have "audits_once ''producer.register'' rejection ro_outcome (register_producer_inner E t name s owner_team contact actor)" for t
    unfolding register_producer_inner_def
    by (intro audits_after_classify [OF assms] audits_once_bindE audits_once_if unlogged_new_uuid ins created
        unlogged_upsert_producer_cert [OF assms] audits_rejected_registration [OF assms])
  then show ?thesis
    unfolding register_producer_def
    by (subst register_audit_def, intro audits_tenant_command assms) simp_all
qed

lemma audits_disable_producer:
  assumes "ctl_quiet E"
  shows "audits_once ''producer.disable'' rejection (\<lambda>out. out) (disable_producer E (Inr ()) slug name actor)"
proof -
  have cert: "unlogged rejection (set_cert_enabled E s b)" for s b
    unfolding set_cert_enabled_def by (rule unlogged_ctl_exec [OF assms]) simp
  have en: "unlogged rejection (if b then thenE (set_enabled E i False) (ret ''disabled'') else ret ''idempotent'')" for b i
    unfolding set_enabled_def by (intro audit_intros)
  have found: "audits_once ''producer.disable'' rejection (\<lambda>out. out)
      (thenE (register_audit E actor ''producer.disable'' (Some t) name (Some s) out) (ret out))" for t s out
    unfolding register_audit_def by (rule audits_record_then_ret [OF assms]) simp
  have missing: "audits_once ''producer.disable'' rejection (\<lambda>out. out)
      (thenE (register_audit E actor ''producer.disable'' (Some t) name None ''rejected'') (throw (Configuration why)))" for t why
    unfolding register_audit_def by (rule audits_record_then_reject [OF assms]) simp
  have "audits_once ''producer.disable'' rejection (\<lambda>out. out) (disable_producer_inner E t name actor)" for t
    unfolding disable_producer_inner_def find_by_name_def
    by (rule audits_once_bindE [OF unlogged_query], rule audits_once_case_option, rule missing)
      (intro audits_once_bindE [OF cert] audits_once_bindE [OF en] found)
  then show ?thesis
    unfolding disable_producer_def
    by (subst register_audit_def, intro audits_tenant_command assms) simp_all
qed

section \<open>Properties\<close>

text \<open>C39: A disabled certificate stays disabled.  Once the control database holds a certificate as
  disabled, no registration and no disabling, whatever their inputs and whatever fails in them,
  enables it again, and as long as the other sessions leave it so no request that presents it
  is resolved to a producer.\<close>

theorem disabled_cert_stays_disabled:
  fixes w :: "'z world_scheme"
  assumes "ctl_stable E (cert_off s)" and "cert_off s (w_ctl w)"
  shows "cert_off s (w_ctl (snd (register_producer E parsed slug name s' owner_team contact actor w)))
    \<and> cert_off s (w_ctl (snd (disable_producer E parsed slug name actor w)))
    \<and> (\<forall>i. fst (resolve_producer E s w) \<noteq> Inr i)"
  using keepsD [OF keeps_register_producer [OF assms(1)], of w parsed slug name s' owner_team contact actor]
    keepsD [OF keeps_disable_producer [OF assms(1)], of w parsed slug name actor] cert_off_refused [OF assms] assms(2)
  by (auto simp: ctl_inv_def wp_def split: prod.splits sum.splits)

text \<open>A new registration is for a free certificate, and binds it.  When registration answers \<open>created\<close>, no
  other tenant held the certificate when it started, and now the certificate leads to this
  tenant and to the producer the answer names.\<close>

theorem created_registration_binds_free_cert:
  assumes "ctl_quiet E"
  shows "wp (register_producer_inner E tenant_id name s owner_team contact actor)
     (\<lambda>r w'. ro_outcome r = ''created'' \<longrightarrow>
        (\<forall>cert. cert_at s (w_ctl w) = Some cert \<longrightarrow> pt_tenant_id cert = tenant_id)
      \<and> (\<exists>c. find_row (\<lambda>c. pc_cert_subject c = s) (c_producer_cert (w_ctl w')) = Some c
           \<and> pc_tenant_id c = tenant_id \<and> pc_producer_id c = ro_producer_id r)) (\<lambda>_ _. True) w"
  using register_producer_inner_wp [OF assms] by (rule wp_mono) (auto simp: own_cert_def bound_to_def)


definition sample_tenant :: "uuid \<Rightarrow> string \<Rightarrow> tenant_row" where
  "sample_tenant i slug = \<lparr>tn_id = i, tn_slug = slug, tn_region = ''eu'', tn_database_name = slug, tn_vault_mount = slug,
     tn_webhook_token = slug, tn_status = ACTIVE, tn_created_at = 0, tn_vault_role_id = None, tn_vault_pepper_wrapped = None,
     tn_auth_enabled = False\<rparr>"

definition two_tenants :: world where
  "two_tenants = \<lparr>w_db = empty_db, w_ctl = empty_ctl\<lparr>c_tenant := [sample_tenant 1 ''a'', sample_tenant 2 ''b'']\<rparr>, w_tick = 0\<rparr>"

text \<open>A run in which the write of the certificate map, the ninth interaction, fails.\<close>

definition crash_env :: env where
  "crash_env = (quiet_env 0)\<lparr>e_fault := \<lambda>n. if n = 8 then NotApplied else NoFault\<rparr>"

definition register_shop :: "env \<Rightarrow> string \<Rightarrow> world \<Rightarrow> (sqlx_error + register_outcome) \<times> world" where
  "register_shop E slug = register_producer E (Inr ()) slug ''shop'' ''CN=shop'' ''team'' ''mail'' ''ops''"

text \<open>The database of the first tenant after a registration whose second write failed.\<close>

definition half_registered :: world where
  "half_registered = snd (register_shop crash_env ''a'' two_tenants)"

text \<open>Then the second tenant registers the same certificate in its own database.\<close>

definition rival_registered :: world where
  "rival_registered = (snd (register_shop (quiet_env 0) ''b'' (half_registered\<lparr>w_db := empty_db\<rparr>)))\<lparr>w_db := w_db half_registered\<rparr>"

text \<open>Then the first tenant repeats its registration.\<close>

definition repeated_registration :: "(sqlx_error + register_outcome) \<times> world" where
  "repeated_registration = register_shop (quiet_env 0) ''a'' rival_registered"

text \<open>Or the half-registered producer is disabled, and its registration repeated after that.\<close>

definition disabled_shop :: "(sqlx_error + string) \<times> world" where
  "disabled_shop = disable_producer (quiet_env 0) (Inr ()) ''a'' ''shop'' ''ops'' half_registered"

abbreviation resolves_to :: "world \<Rightarrow> (resolution_error + uuid)" where
  "resolves_to w \<equiv> map_sum id ri_tenant_id (fst (resolve_producer (quiet_env 0) ''CN=shop'' w))"


definition off_world :: world where
  "off_world = two_tenants\<lparr>w_ctl := (w_ctl two_tenants)\<lparr>c_producer_cert :=
     [\<lparr>pc_cert_subject = ''CN=shop'', pc_tenant_id = 1, pc_producer_id = 5, pc_enabled = False\<rparr>]\<rparr>\<rparr>"

theorem disabled_cert_stays_disabled_witness:
  "cert_off ''CN=shop'' (w_ctl (snd (register_producer (quiet_env 0) (Inr ()) ''a'' ''shop'' ''CN=shop'' ''team'' ''mail'' ''ops'' off_world)))"
  using disabled_cert_stays_disabled [of "quiet_env 0" "''CN=shop''" off_world "Inr ()" "''a''" "''shop''" "''CN=shop''" "''team''" "''mail''" "''ops''"]
  by (simp add: ctl_stable_def) (simp add: off_world_def cert_off_def)

theorem created_registration_binds_free_cert_witness:
  "wp (register_producer_inner (quiet_env 0) 1 ''shop'' ''CN=shop'' ''team'' ''mail'' ''ops'')
     (\<lambda>r w'. ro_outcome r = ''created'' \<longrightarrow>
        (\<exists>c. find_row (\<lambda>c. pc_cert_subject c = ''CN=shop'') (c_producer_cert (w_ctl w')) = Some c
           \<and> pc_tenant_id c = 1 \<and> pc_producer_id c = ro_producer_id r)) (\<lambda>_ _. True) two_tenants"
  by (rule wp_mono [OF created_registration_binds_free_cert]) auto

end
