(* ===== verification/QuotaConfig.thy ===== *)
theory QuotaConfig
  imports Producer Quota Settings
begin

text \<open>
  The operator commands on producer quotas (\<open>producer_quota/configure.rs\<close>) and their statements
  (\<open>producer_quota/repo.rs\<close>): setting a limit, adding a time-boxed override, listing both, and the
  history the dashboard reads.  What they promise the tracker is the rule that a quota never
  blocks transactional or authentication traffic.
\<close>

section \<open>Statements\<close>

type_synonym producer_quota_input = producer_quota_row

definition quota_matches :: "producer_quota_input \<Rightarrow> producer_quota_row \<Rightarrow> bool" where
  "quota_matches input existing \<longleftrightarrow>
     pq_producer_id input = pq_producer_id existing \<and> pq_channel input = pq_channel existing
   \<and> pq_class input = pq_class existing \<and> pq_per_minute input = pq_per_minute existing
   \<and> pq_per_day input = pq_per_day existing \<and> pq_enforcement input = pq_enforcement existing"

definition quota_row_key :: "producer_quota_row \<Rightarrow> uuid \<times> string \<times> string" where
  "quota_row_key r = (pq_producer_id r, pq_channel r, pq_class r)"

definition quota_at :: "uuid \<Rightarrow> string \<Rightarrow> string \<Rightarrow> tenant_db \<Rightarrow> producer_quota_row option" where
  "quota_at producer_id channel cls d = find_row (\<lambda>r. quota_row_key r = (producer_id, channel, cls)) (t_producer_quota d)"

definition load_one_quota :: "env \<Rightarrow> uuid \<Rightarrow> string \<Rightarrow> string \<Rightarrow> ('z world_scheme, sqlx_error, producer_quota_row option) io" where
  "load_one_quota E producer_id channel cls = query E (\<lambda>_. quota_at producer_id channel cls)"

definition list_quota_rows :: "env \<Rightarrow> (string \<Rightarrow> 'k :: linorder) \<Rightarrow> ('z world_scheme, sqlx_error, producer_quota_row list) io" where
  "list_quota_rows E collate = query E (\<lambda>_ d. sort_key pq_producer_id (sort_key (\<lambda>r. collate (pq_channel r))
     (sort_key (\<lambda>r. collate (pq_class r)) (t_producer_quota d))))"

definition put_quota :: "producer_quota_input \<Rightarrow> tenant_db \<Rightarrow> tenant_db" where
  "put_quota input d = d\<lparr>t_producer_quota :=
     upsert quota_row_key (\<lambda>r. r\<lparr>pq_per_minute := pq_per_minute input, pq_per_day := pq_per_day input,
         pq_enforcement := pq_enforcement input\<rparr>) input (t_producer_quota d)\<rparr>"

text \<open>Both tables reference \<open>producer\<close>.\<close>

definition producer_exists :: "uuid \<Rightarrow> tenant_db \<Rightarrow> bool" where
  "producer_exists producer_id d \<longleftrightarrow> producer_id \<in> pr_id ` set (t_producer d)"

definition upsert_quota :: "env \<Rightarrow> producer_quota_input \<Rightarrow> ('z world_scheme, sqlx_error, unit) io" where
  "upsert_quota E input = stmt E (\<lambda>_ d.
     if producer_exists (pq_producer_id input) d then Inr ((), put_quota input d)
     else Inl (Constraint ''producer_quota_producer_id_fkey''))"

definition insert_override :: "env \<Rightarrow> producer_quota_override_row \<Rightarrow> ('z world_scheme, sqlx_error, unit) io" where
  "insert_override E r = stmt E (\<lambda>_ d.
     if \<not> producer_exists (po_producer_id r) d then Inl (Constraint ''producer_quota_override_producer_id_fkey'')
     else map_sum id (\<lambda>t. ((), d\<lparr>t_producer_quota_override := t\<rparr>))
            (ins_pk ''producer_quota_override_pkey'' po_id r (t_producer_quota_override d)))"

definition list_override_rows :: "env \<Rightarrow> ('z world_scheme, sqlx_error, producer_quota_override_row list) io" where
  "list_override_rows E = query E (\<lambda>_ d. sort_key (\<lambda>r. - po_valid_from r) (t_producer_quota_override d))"

definition load_usage_history :: "env \<Rightarrow> timestamp \<Rightarrow> ('z world_scheme, sqlx_error, usage_row list) io" where
  "load_usage_history E since = query E (\<lambda>_ d. sort_key us_window_start
     (filter (\<lambda>u. us_granularity u = MINUTE \<and> since \<le> us_window_start u) (t_producer_usage d)))"

section \<open>Commands\<close>

definition resolve_tenant_and_producer :: "env \<Rightarrow> sqlx_error + unit \<Rightarrow> string \<Rightarrow> string \<Rightarrow> string \<Rightarrow> string
    \<Rightarrow> (uuid \<Rightarrow> uuid \<Rightarrow> ('z world_scheme, sqlx_error, 'a) io) \<Rightarrow> ('z world_scheme, sqlx_error, 'a) io" where
  "resolve_tenant_and_producer E parsed tenant_slug producer_name actor action body =
     tenant_command id E parsed tenant_slug
       (audit_record E actor action None [(''outcome'', JStr ''rejected''), (''reason'', JStr ''unknown tenant_slug'')])
       (\<lambda>tenant. bindE (find_by_name E producer_name) (\<lambda>found.
          case found of
            Some producer \<Rightarrow> body (tn_id tenant) (pr_id producer)
          | None \<Rightarrow> thenE (audit_record E actor action (Some (tn_id tenant))
                      [(''outcome'', JStr ''rejected''), (''reason'', JStr ''unknown producer_name'')])
                    (throw (Configuration ''no producer registered with name''))))"

definition json_limit :: "int option \<Rightarrow> json" where
  "json_limit l = (case l of None \<Rightarrow> JNull | Some n \<Rightarrow> JInt n)"

definition audit_set :: "env \<Rightarrow> string \<Rightarrow> uuid \<Rightarrow> producer_quota_input \<Rightarrow> string \<Rightarrow> ('z world_scheme, sqlx_error, unit) io" where
  "audit_set E actor tenant_id input outcome =
     audit_record E actor ''producer_quota.set'' (Some tenant_id)
       [(''producer_id'', JUuid (pq_producer_id input)), (''channel'', JStr (pq_channel input)), (''class'', JStr (pq_class input)),
        (''per_minute'', json_limit (pq_per_minute input)), (''per_day'', json_limit (pq_per_day input)),
        (''enforcement'', JStr (pq_enforcement input)), (''outcome'', JStr outcome)]"

definition set_producer_quota_inner :: "env \<Rightarrow> uuid \<Rightarrow> string \<Rightarrow> producer_quota_input \<Rightarrow> ('z world_scheme, sqlx_error, string) io" where
  "set_producer_quota_inner E tenant_id actor input =
     configure_row (load_one_quota E (pq_producer_id input) (pq_channel input) (pq_class input)) (quota_matches input)
       (upsert_quota E input) (audit_set E actor tenant_id input)"

definition illegal_quota :: "string \<Rightarrow> string \<Rightarrow> bool" where
  "illegal_quota class_value enforcement_value \<longleftrightarrow>
     class_value = AUTH \<or> (class_value = TRANSACTIONAL \<and> enforcement_value = HARD)"

definition set_producer_quota :: "env \<Rightarrow> sqlx_error + unit \<Rightarrow> string \<Rightarrow> string \<Rightarrow> string \<Rightarrow> string \<Rightarrow> int option \<Rightarrow> int option
    \<Rightarrow> string \<Rightarrow> string \<Rightarrow> ('z world_scheme, sqlx_error, string) io" where
  "set_producer_quota E parsed tenant_slug producer_name channel class_value per_minute per_day enforcement_value actor =
     resolve_tenant_and_producer E parsed tenant_slug producer_name actor ''producer_quota.set'' (\<lambda>tenant_id producer_id.
       let input = \<lparr>pq_producer_id = producer_id, pq_channel = channel, pq_class = class_value,
             pq_per_minute = per_minute, pq_per_day = per_day, pq_enforcement = enforcement_value\<rparr> in
       if illegal_quota class_value enforcement_value
       then thenE (audit_set E actor tenant_id input ''rejected'') (throw (Configuration
         (if class_value = AUTH then ''producer_quota cannot be configured for class auth''
          else ''producer_quota cannot use hard enforcement for class transactional'')))
       else set_producer_quota_inner E tenant_id actor input)"

definition list_producer_quota :: "env \<Rightarrow> (string \<Rightarrow> 'k :: linorder) \<Rightarrow> sqlx_error + unit \<Rightarrow> string
    \<Rightarrow> ('z world_scheme, sqlx_error, producer_quota_row list) io" where
  "list_producer_quota E collate parsed tenant_slug = tenant_read id E parsed tenant_slug (\<lambda>_. list_quota_rows E collate)"

definition audit_override_add :: "env \<Rightarrow> string \<Rightarrow> uuid \<Rightarrow> uuid \<Rightarrow> string \<Rightarrow> string \<Rightarrow> int \<Rightarrow> timestamp \<Rightarrow> timestamp \<Rightarrow> string \<Rightarrow> string
    \<Rightarrow> ('z world_scheme, sqlx_error, unit) io" where
  "audit_override_add E actor tenant_id producer_id channel class_value per_day valid_from valid_to approved_by outcome =
     audit_record E actor ''producer_quota_override.add'' (Some tenant_id)
       [(''producer_id'', JUuid producer_id), (''channel'', JStr channel), (''class'', JStr class_value), (''per_day'', JInt per_day),
        (''valid_from'', JTime valid_from), (''valid_to'', JTime valid_to), (''approved_by'', JStr approved_by), (''outcome'', JStr outcome)]"

definition override_rejection :: "string \<Rightarrow> int \<Rightarrow> timestamp \<Rightarrow> timestamp \<Rightarrow> string option" where
  "override_rejection class_value per_day valid_from valid_to =
     (if class_value = AUTH then Some ''producer_quota_override cannot be configured for class auth''
      else if valid_to \<le> valid_from then Some ''producer_quota_override valid_to must be after valid_from''
      else if per_day \<le> 0 then Some ''producer_quota_override per_day must be positive''
      else None)"

definition add_producer_quota_override :: "env \<Rightarrow> sqlx_error + unit \<Rightarrow> string \<Rightarrow> string \<Rightarrow> string \<Rightarrow> string \<Rightarrow> int \<Rightarrow> timestamp
    \<Rightarrow> timestamp \<Rightarrow> string \<Rightarrow> string \<Rightarrow> string \<Rightarrow> ('z world_scheme, sqlx_error, uuid) io" where
  "add_producer_quota_override E parsed tenant_slug producer_name channel class_value per_day valid_from valid_to approved_by reason actor =
     resolve_tenant_and_producer E parsed tenant_slug producer_name actor ''producer_quota_override.add'' (\<lambda>tenant_id producer_id.
       let audit = audit_override_add E actor tenant_id producer_id channel class_value per_day valid_from valid_to approved_by in
       case override_rejection class_value per_day valid_from valid_to of
         Some why \<Rightarrow> thenE (audit ''rejected'') (throw (Configuration why))
       | None \<Rightarrow>
          bindE (new_uuid E) (\<lambda>i.
          thenE (insert_override E \<lparr>po_id = i, po_producer_id = producer_id, po_channel = channel, po_class = class_value,
              po_per_day = per_day, po_valid_from = valid_from, po_valid_to = valid_to, po_approved_by = approved_by, po_reason = reason\<rparr>)
            (thenE (audit ''created'') (ret i))))"

definition list_producer_quota_overrides :: "env \<Rightarrow> sqlx_error + unit \<Rightarrow> string
    \<Rightarrow> ('z world_scheme, sqlx_error, producer_quota_override_row list) io" where
  "list_producer_quota_overrides E parsed tenant_slug = tenant_read id E parsed tenant_slug (\<lambda>_. list_override_rows E)"

section \<open>A quota row is a setting\<close>

interpretation quota_setting: row_setting "quota_at (pq_producer_id input) (pq_channel input) (pq_class input)" "quota_matches input"
    "\<lambda>_. put_quota input" for input
proof
  fix t d
  show "\<exists>r. quota_at (pq_producer_id input) (pq_channel input) (pq_class input) (put_quota input d) = Some r \<and> quota_matches input r"
    using upsert_fits [of quota_row_key input "\<lambda>r. r\<lparr>pq_per_minute := pq_per_minute input, pq_per_day := pq_per_day input,
         pq_enforcement := pq_enforcement input\<rparr>" "quota_matches input" "t_producer_quota d"]
    by (simp add: quota_at_def put_quota_def quota_matches_def quota_row_key_def)
qed

section \<open>The legal quotas\<close>

definition quotas_legal :: "tenant_db \<Rightarrow> bool" where
  "quotas_legal d \<longleftrightarrow> (\<forall>r \<in> set (t_producer_quota d). \<not> illegal_quota (pq_class r) (pq_enforcement r))"

lemma quotas_legal_put:
  assumes "quotas_legal d" and "\<not> illegal_quota (pq_class input) (pq_enforcement input)"
  shows "quotas_legal (put_quota input d)"
  using assms by (auto simp: quotas_legal_def put_quota_def upsert_def upd_where_def quota_row_key_def)

lemma keeps_set_producer_quota:
  assumes "db_stable E quotas_legal"
  shows "keeps (db_inv quotas_legal) (set_producer_quota E parsed slug name channel cls pm pd enf actor)"
proof -
  have up: "keeps (db_inv quotas_legal) (upsert_quota E input)" if "\<not> illegal_quota (pq_class input) (pq_enforcement input)" for input
    unfolding upsert_quota_def using assms that by (intro keeps_stmt) (auto intro: quotas_legal_put split: if_splits)
  show ?thesis
    unfolding set_producer_quota_def resolve_tenant_and_producer_def Let_def
      set_producer_quota_inner_def load_one_quota_def audit_set_def find_by_name_def
    by (intro keeps_intros up assms) simp_all
qed


lemma keeps_add_override:
  assumes "db_stable E quotas_legal"
  shows "keeps (db_inv quotas_legal) (add_producer_quota_override E parsed slug name channel cls pd vf vt by' why actor)"
proof -
  have ins: "keeps (db_inv quotas_legal) (insert_override E r)" for r
    unfolding insert_override_def using assms
    by (intro keeps_stmt) (auto simp: quotas_legal_def ins_pk_def split: if_splits)
  show ?thesis
    unfolding add_producer_quota_override_def resolve_tenant_and_producer_def Let_def audit_override_add_def find_by_name_def
    by (intro keeps_intros ins assms)
qed

section \<open>What the tracker makes of them\<close>

lemma base_quotas_enforcement:
  "map_of (base_quotas quotas) k = Some e \<Longrightarrow> \<exists>r \<in> set quotas. quota_row_key r = k \<and> eq_enforcement e = pq_enforcement r"
  unfolding base_quotas_def
proof (induction quotas arbitrary: e rule: rev_induct)
  case (snoc r quotas)
  then show ?case by (auto simp: update_conv' quota_row_key_def split: if_splits)
qed simp

lemma foldl_override_enforcement:
  "map_of (foldl apply_override m os) k = Some e \<Longrightarrow> \<exists>e0. map_of m k = Some e0 \<and> eq_enforcement e = eq_enforcement e0"
proof (induction os arbitrary: m)
  case (Cons x os)
  then obtain e0 where "map_of (apply_override m x) k = Some e0" "eq_enforcement e = eq_enforcement e0" by auto
  then show ?case by (auto simp: map_of_apply_override split: if_splits)
qed simp

text \<open>A configuration under which nothing transactional is deferred.\<close>

definition spares_transactional :: "(quota_key \<times> effective_quota) list \<Rightarrow> bool" where
  "spares_transactional m \<longleftrightarrow> (\<forall>p channel e. map_of m (p, channel, TRANSACTIONAL) = Some e \<longrightarrow> eq_enforcement e \<noteq> HARD)"

lemma legal_quotas_spare:
  assumes "\<forall>r \<in> set quotas. \<not> illegal_quota (pq_class r) (pq_enforcement r)"
  shows "spares_transactional (foldl apply_override (base_quotas quotas) os)"
  using assms
  by (fastforce simp: spares_transactional_def illegal_quota_def quota_row_key_def
      dest!: foldl_override_enforcement base_quotas_enforcement)

lemma spared_never_deferred:
  assumes "spares_transactional (qt_config q)" and "cls = TRANSACTIONAL \<or> cls = AUTH"
  shows "fst (check_and_record q p channel cls now) \<noteq> Defer t"
  using assms by (auto simp: check_and_record_def Let_def spares_transactional_def split: option.splits)

lemma refresh_config_spares:
  assumes "db_stable E quotas_legal" and "quotas_legal (w_db w)"
  shows "wp (refresh_config E now q) (\<lambda>q' _. spares_transactional (qt_config q')) (\<lambda>_ _. True) w"
  using stableD [OF assms]
  by (auto simp: refresh_config_def list_quotas_def load_active_overrides_def wp_simps Let_def quotas_legal_def intro!: legal_quotas_spare)

section \<open>Properties\<close>

text \<open>C19: A quota never holds back transactional or authentication traffic.  The quota commands, whatever their
  arguments and whatever fails in them, never leave a row that limits authentication or limits
  transactional messages hard; and a tracker that has loaded its limits from a database without
  such rows never defers a transactional or authentication message, however full its counters
  are and whatever overrides are active.\<close>

theorem quota_spares_transactional:
  fixes w :: "'z world_scheme"
  assumes "db_stable E quotas_legal" and "quotas_legal (w_db w)" and "cls = TRANSACTIONAL \<or> cls = AUTH"
  shows "quotas_legal (w_db (snd (set_producer_quota E parsed slug name channel cls' pm pd enf actor w)))
    \<and> quotas_legal (w_db (snd (add_producer_quota_override E parsed slug name channel cls' limit vf vt approver why actor w)))
    \<and> wp (refresh_config E now q)
        (\<lambda>q' _. \<forall>tracker p channel now t. qt_config tracker = qt_config q' \<longrightarrow> fst (check_and_record tracker p channel cls now) \<noteq> Defer t)
        (\<lambda>_ _. True) w"
  using keeps_dbD [OF keeps_set_producer_quota [OF assms(1)] assms(2)] keeps_dbD [OF keeps_add_override [OF assms(1)] assms(2)]
    wp_mono [OF refresh_config_spares [OF assms(1,2)]] spared_never_deferred [OF _ assms(3)]
  by auto

theorem quota_spares_transactional_witness:
  "wp (refresh_config (quiet_env 0) 0 \<lparr>qt_tz = fixed_zone 0, qt_config = [], qt_counters = []\<rparr>)
     (\<lambda>q' _. \<forall>tracker p channel now t. qt_config tracker = qt_config q' \<longrightarrow> fst (check_and_record tracker p channel TRANSACTIONAL now) \<noteq> Defer t)
     (\<lambda>_ _. True)
     \<lparr>w_db = empty_db\<lparr>t_producer_quota := [\<lparr>pq_producer_id = 5, pq_channel = ''sms'', pq_class = ''transactional'',
        pq_per_minute = Some 1, pq_per_day = Some 1, pq_enforcement = ''soft''\<rparr>]\<rparr>, w_ctl = empty_ctl, w_tick = 0\<rparr>"
  using quota_spares_transactional [of "quiet_env 0" "\<lparr>w_db = empty_db\<lparr>t_producer_quota := [\<lparr>pq_producer_id = 5, pq_channel = ''sms'',
        pq_class = ''transactional'', pq_per_minute = Some 1, pq_per_day = Some 1, pq_enforcement = ''soft''\<rparr>]\<rparr>, w_ctl = empty_ctl, w_tick = 0\<rparr>"
      TRANSACTIONAL _ _ _ _ _ _ _ _ _ _ _ _ _ _ 0 "\<lparr>qt_tz = fixed_zone 0, qt_config = [], qt_counters = []\<rparr>"]
  by (simp add: quiet_stable quotas_legal_def illegal_quota_def)

section \<open>One audit row per command\<close>

lemma audits_resolve_tenant_and_producer:
  assumes "ctl_quiet E" and "\<And>t p. audits_once action rejection outcome (body t p)"
  shows "audits_once action rejection outcome (resolve_tenant_and_producer E (Inr ()) slug name actor action body)"
  unfolding resolve_tenant_and_producer_def
proof (rule audits_tenant_command [OF assms(1)])
  fix t
  show "audits_once action rejection outcome (bindE (find_by_name E name) (\<lambda>found. case found of
      Some producer \<Rightarrow> body (tn_id t) (pr_id producer)
    | None \<Rightarrow> thenE (audit_record E actor action (Some (tn_id t))
          [(''outcome'', JStr ''rejected''), (''reason'', JStr ''unknown producer_name'')])
        (throw (Configuration ''no producer registered with name''))))"
    unfolding find_by_name_def
    by (rule audits_once_bindE [OF unlogged_query], rule audits_once_case_option,
        rule audits_record_then_reject [OF assms(1)]) (simp_all add: assms(2))
qed simp_all

lemma audits_set_producer_quota:
  assumes "ctl_quiet E"
  shows "audits_once ''producer_quota.set'' rejection (\<lambda>out. out) (set_producer_quota E (Inr ()) slug name channel cls pm pd enf actor)"
proof -
  have up: "unlogged rejection (upsert_quota E input)" for input
    unfolding upsert_quota_def by (rule unlogged_stmt) (auto split: if_splits)
  have "audits_once ''producer_quota.set'' rejection (\<lambda>out. out) (set_producer_quota_inner E t actor input)" for t input
    unfolding set_producer_quota_inner_def load_one_quota_def audit_set_def
    by (rule audits_configure_row [OF assms unlogged_query up refl]) simp
  then show ?thesis
    unfolding set_producer_quota_def Let_def
    by (intro audits_resolve_tenant_and_producer assms audits_once_if)
      (simp_all add: audit_set_def audits_record_then_reject [OF assms])
qed

lemma audits_add_override:
  assumes "ctl_quiet E"
  shows "audits_once ''producer_quota_override.add'' rejection (\<lambda>_. ''created'')
    (add_producer_quota_override E (Inr ()) slug name channel cls pd vf vt by' why actor)"
proof -
  have ins: "unlogged rejection (insert_override E r)" for r
    unfolding insert_override_def by (rule unlogged_stmt) (auto simp: ins_pk_def split: if_splits)
  show ?thesis
    unfolding add_producer_quota_override_def Let_def audit_override_add_def
    apply (rule audits_resolve_tenant_and_producer [OF assms])
    apply (rule audits_once_case_option)
     apply (rule audits_once_bindE [OF unlogged_new_uuid])
     apply (rule audits_once_bindE [OF ins])
     apply (rule audits_record_then_ret [OF assms])
     apply simp
    apply (rule audits_record_then_reject [OF assms])
    apply simp
    done
qed

end
