(* ===== verification/QueryApi.thy ===== *)
theory QueryApi
  imports Receipts QuotaConfig "HOL-Library.Multiset"
begin

text \<open>
  The query API: who may read what.  \<open>query_api/tenant.rs\<close> and \<open>auth_mw.rs\<close> turn a request into a tenant
  and an identity, \<open>handlers.rs\<close> and \<open>views.rs\<close> answer the reading routes from the statements of
  \<open>comms_query/repo.rs\<close>, and \<open>access_audit_mw\<close> runs before every one of them and records what the
  compliance role does.  The routes of the admin panel are in the theory \<open>AdminPanel\<close>.

  The authentication provider is a trait and a parameter; \<open>auth/mock.rs\<close> is one instance.  The path,
  query and form values that axum extracts are arguments of the handlers.  A page is the data its
  template is filled with; the HTML is not modelled.
\<close>

section \<open>Identities\<close>

abbreviation CUSTOMER_SERVICE :: string where "CUSTOMER_SERVICE \<equiv> ''customer_service''"
abbreviation COMPLIANCE :: string where "COMPLIANCE \<equiv> ''compliance''"
abbreviation CAMPAIGN_OPS :: string where "CAMPAIGN_OPS \<equiv> ''campaign_ops''"
abbreviation COMMS_OPS :: string where "COMMS_OPS \<equiv> ''comms_ops''"
abbreviation ADMIN :: string where "ADMIN \<equiv> ''admin''"

record identity =
  id_actor :: string
  id_role :: string
  id_tenant_id :: uuid

datatype auth_error = AuthUnauthenticated

type_synonym auth_provider = "uuid \<Rightarrow> auth_error + identity"

datatype profile = Dev | Staging | Production

text \<open>The constructor of the mock provider panics outside the development profile.\<close>

definition mock_provider :: "profile \<Rightarrow> string \<Rightarrow> string \<Rightarrow> auth_provider option" where
  "mock_provider profile actor role =
     (if profile \<noteq> Dev then None
      else Some (\<lambda>tenant_id. Inr \<lparr>id_actor = actor, id_role = role, id_tenant_id = tenant_id\<rparr>))"

definition require_role :: "identity \<Rightarrow> string list \<Rightarrow> nat + unit" where
  "require_role identity allowed = (if id_role identity \<in> set allowed then Inr () else Inl 403)"

definition identity_owns :: "uuid_parser \<Rightarrow> identity \<Rightarrow> uuid \<Rightarrow> bool" where
  "identity_owns pu identity customer_id = (case pu (id_actor identity) of Some owned \<Rightarrow> owned = customer_id | None \<Rightarrow> False)"

section \<open>The ledger as the API shows it\<close>

record comms_filter =
  cf_customer_id :: "uuid option"
  cf_channel :: "string option"
  cf_class :: "string option"
  cf_campaign_id :: "string option"
  cf_producer_id :: "uuid option"
  cf_from :: "timestamp option"
  cf_to :: "timestamp option"
  cf_status :: "string option"
  cf_scheduled :: "bool option"

record comms_request_summary =
  cs_id :: uuid
  cs_created_at :: timestamp
  cs_customer_id :: uuid
  cs_channel :: string
  cs_class :: string
  cs_template_id :: string
  cs_template_version :: int
  cs_campaign_id :: "string option"
  cs_producer_id :: uuid
  cs_scheduled_for :: "timestamp option"
  cs_expires_at :: "timestamp option"
  cs_final_status :: "string option"
  cs_finalized_at :: "timestamp option"

record comms_request_detail = comms_request_summary +
  cd_destination_ciphertext :: bytes
  cd_payload_ciphertext :: "bytes option"

record comms_request_detail_view = comms_request_summary +
  dv_destination :: string
  dv_body :: "string option"

record comms_event_view =
  cv_comms_request_id :: uuid
  cv_customer_id :: uuid
  cv_occurred_at :: timestamp
  cv_event_type :: string
  cv_provider_ref :: string
  cv_provider_status :: "string option"

type_synonym campaign_reach_count = "string option \<times> nat"

text \<open>\<open>SUMMARY_COLUMNS\<close> of a ledger row.\<close>

definition summary_columns :: "comms_request_row \<Rightarrow> comms_request_summary" where
  "summary_columns r =
     \<lparr>cs_id = cr_id r, cs_created_at = cr_created_at r, cs_customer_id = cr_customer_id r, cs_channel = cr_channel r,
      cs_class = cr_class r, cs_template_id = cr_template_id r, cs_template_version = cr_template_version r,
      cs_campaign_id = cr_campaign_id r, cs_producer_id = cr_producer_id r, cs_scheduled_for = cr_scheduled_for r,
      cs_expires_at = cr_expires_at r, cs_final_status = cr_final_status r, cs_finalized_at = cr_finalized_at r\<rparr>"

definition detail_columns :: "comms_request_row \<Rightarrow> comms_request_detail" where
  "detail_columns r = comms_request_summary.extend (summary_columns r)
     (comms_request_detail.fields (cr_destination_ciphertext r) (cr_payload_ciphertext r))"

definition event_columns :: "comms_event_row \<Rightarrow> comms_event_view" where
  "event_columns e =
     \<lparr>cv_comms_request_id = ev_comms_request_id e, cv_customer_id = ev_customer_id e, cv_occurred_at = ev_occurred_at e,
      cv_event_type = ev_event_type e, cv_provider_ref = ev_provider_ref e, cv_provider_status = ev_provider_status e\<rparr>"

text \<open>\<open>$n IS NULL OR column = $n\<close>, for a column that may be null itself.\<close>

definition unless_given :: "'a option \<Rightarrow> ('a \<Rightarrow> bool) \<Rightarrow> bool" where
  "unless_given x p = (case x of None \<Rightarrow> True | Some v \<Rightarrow> p v)"

definition comms_filter_matches :: "comms_filter \<Rightarrow> comms_request_row \<Rightarrow> bool" where
  "comms_filter_matches f r \<longleftrightarrow>
     unless_given (cf_customer_id f) (\<lambda>v. cr_customer_id r = v)
   \<and> unless_given (cf_channel f) (\<lambda>v. cr_channel r = v)
   \<and> unless_given (cf_class f) (\<lambda>v. cr_class r = v)
   \<and> unless_given (cf_campaign_id f) (\<lambda>v. cr_campaign_id r = Some v)
   \<and> unless_given (cf_producer_id f) (\<lambda>v. cr_producer_id r = v)
   \<and> unless_given (cf_from f) (\<lambda>v. cr_created_at r \<ge> v)
   \<and> unless_given (cf_to f) (\<lambda>v. cr_created_at r \<le> v)
   \<and> unless_given (cf_status f) (\<lambda>v. cr_final_status r = Some v)
   \<and> unless_given (cf_scheduled f) (\<lambda>v. (cr_scheduled_for r \<noteq> None \<and> cr_final_status r = None) = v)"

definition newest_first :: "nat \<Rightarrow> comms_request_row list \<Rightarrow> comms_request_summary list" where
  "newest_first limit rows = map summary_columns (top_by (\<lambda>r. - cr_created_at r) limit rows)"

definition list_comms_rows :: "env \<Rightarrow> comms_filter \<Rightarrow> nat \<Rightarrow> ('z world_scheme, sqlx_error, comms_request_summary list) io" where
  "list_comms_rows E f limit = query E (\<lambda>_ d. newest_first limit (filter (comms_filter_matches f) (t_comms_request d)))"

definition detail :: "env \<Rightarrow> timestamp \<Rightarrow> uuid \<Rightarrow> ('z world_scheme, sqlx_error, comms_request_detail option) io" where
  "detail E created_at i = query E (\<lambda>_ d. map_option detail_columns (find_request created_at i d))"

definition events :: "env \<Rightarrow> uuid \<Rightarrow> ('z world_scheme, sqlx_error, comms_event_view list) io" where
  "events E comms_request_id = query E (\<lambda>_ d. map event_columns
     (sort_key ev_occurred_at (filter (\<lambda>e. ev_comms_request_id e = comms_request_id) (t_comms_event d))))"

definition timeline :: "env \<Rightarrow> uuid \<Rightarrow> nat \<Rightarrow> ('z world_scheme, sqlx_error, comms_request_summary list) io" where
  "timeline E canonical_customer_id limit =
     bindE (alias_set E canonical_customer_id) (\<lambda>ids.
       query E (\<lambda>_ d. newest_first limit (filter (\<lambda>r. cr_customer_id r \<in> set ids) (t_comms_request d))))"

definition campaign_reach_rows :: "string \<Rightarrow> tenant_db \<Rightarrow> campaign_reach_count list" where
  "campaign_reach_rows campaign_id d =
    (let statuses = map cr_final_status (filter (\<lambda>r. cr_campaign_id r = Some campaign_id) (t_comms_request d)) in
     map (\<lambda>s. (s, count_list statuses s)) (remdups statuses))"

definition campaign_reach_query :: "env \<Rightarrow> string \<Rightarrow> ('z world_scheme, sqlx_error, campaign_reach_count list) io" where
  "campaign_reach_query E campaign_id = query E (\<lambda>_. campaign_reach_rows campaign_id)"

section \<open>A request's tenant and identity\<close>

record 'k api_parts =
  ap_auth :: auth_provider
  ap_uuid :: uuid_parser
  ap_show_uuid :: "uuid \<Rightarrow> string"
  ap_crypto :: crypto
  ap_keystore :: keystore
  ap_zone :: zone_parser
  ap_parsed :: "sqlx_error + unit"
  ap_collate :: "string \<Rightarrow> 'k"
  ap_error_text :: "sqlx_error \<Rightarrow> string"
  ap_rfc3339 :: "string \<Rightarrow> timestamp option"
  ap_naive :: "string \<Rightarrow> timestamp option"

record request_tenant =
  rt_tenant_id :: uuid
  rt_pool :: string
  rt_vault_mount :: string

datatype tenant_context_error = TcUnknownTenant | TcDatabase sqlx_error

definition tenant_context_status :: "tenant_context_error \<Rightarrow> nat" where
  "tenant_context_status e = (case e of TcUnknownTenant \<Rightarrow> 404 | TcDatabase _ \<Rightarrow> 500)"

definition tenant_from_request :: "env \<Rightarrow> 'k api_parts \<Rightarrow> string \<Rightarrow> ('z pool_world_scheme, tenant_context_error, request_tenant) io" where
  "tenant_from_request E A slug =
     bindE (map_err TcDatabase (find_by_slug E slug)) (\<lambda>found.
     bindE (of_result (ok_or TcUnknownTenant found)) (\<lambda>tenant.
     bindE (map_err TcDatabase (get_or_open E (ap_parsed A) (tn_id tenant) (tn_database_name tenant))) (\<lambda>pool.
       ret \<lparr>rt_tenant_id = tn_id tenant, rt_pool = pool, rt_vault_mount = tn_vault_mount tenant\<rparr>)))"

datatype authed_user_error = AuTenant tenant_context_error | AuUnauthenticated

definition authed_user_status :: "authed_user_error \<Rightarrow> nat" where
  "authed_user_status e = (case e of AuTenant err \<Rightarrow> tenant_context_status err | AuUnauthenticated \<Rightarrow> 401)"

definition authed_user :: "env \<Rightarrow> 'k api_parts \<Rightarrow> string \<Rightarrow> ('z pool_world_scheme, authed_user_error, identity) io" where
  "authed_user E A slug =
     bindE (map_err AuTenant (tenant_from_request E A slug)) (\<lambda>tenant_ctx.
       map_err (\<lambda>_. AuUnauthenticated) (of_result (ap_auth A (rt_tenant_id tenant_ctx))))"

section \<open>Answers\<close>

record timeline_template =
  tt_actor :: string
  tt_role :: string
  tt_customer_id :: uuid
  tt_rows :: "comms_request_summary list"

record message_detail_template =
  md_actor :: string
  md_role :: string
  md_detail :: comms_request_detail_view
  md_events :: "comms_event_view list"

record campaign_reach_template =
  crt_actor :: string
  crt_role :: string
  crt_campaign_id :: string
  crt_counts :: "campaign_reach_count list"

datatype api_page =
    CommsJson "comms_request_summary list"
  | DetailJson comms_request_detail_view
  | ReachJson "campaign_reach_count list"
  | UsageJson "usage_row list"
  | QuotaJson producer_quota_row
  | TimelineHtml timeline_template
  | DetailHtml message_detail_template
  | ReachHtml campaign_reach_template

text \<open>A bare status, a status with a text, or a page with status 200.\<close>

datatype 'p response = Status nat | Text nat string | Page 'p

definition database_error :: "sqlx_error \<Rightarrow> 'p response" where
  "database_error e = Status 500"

text \<open>\<open>match m { Ok(a) => k(a), Err(err) => return database_error(err) }\<close>.\<close>

definition on_ok :: "('s, sqlx_error, 'a) io \<Rightarrow> ('a \<Rightarrow> ('s, 'e, 'p response) io) \<Rightarrow> ('s, 'e, 'p response) io" where
  "on_ok m k = bindE (attempt m) (\<lambda>r. case r of Inl err \<Rightarrow> ret (database_error err) | Inr a \<Rightarrow> k a)"

text \<open>\<open>if let Err(status) = require_role(..) { return status }\<close>.\<close>

definition with_role :: "identity \<Rightarrow> string list \<Rightarrow> ('s, 'e, 'p response) io \<Rightarrow> ('s, 'e, 'p response) io" where
  "with_role identity allowed k = (case require_role identity allowed of Inl status \<Rightarrow> ret (Status status) | Inr _ \<Rightarrow> k)"

section \<open>Reading routes\<close>

abbreviation LIST_LIMIT :: nat where "LIST_LIMIT \<equiv> 200"

definition list_comms :: "env \<Rightarrow> identity \<Rightarrow> comms_filter \<Rightarrow> ('z world_scheme, 'e, api_page response) io" where
  "list_comms E identity f = with_role identity [COMPLIANCE]
     (on_ok (list_comms_rows E f LIST_LIMIT) (\<lambda>rows. ret (Page (CommsJson rows))))"

text \<open>Every failure of \<open>decrypt_detail\<close> is a 500.\<close>

definition decrypt_text :: "crypto \<Rightarrow> bytes \<Rightarrow> bytes \<Rightarrow> bytes \<Rightarrow> nat + string" where
  "decrypt_text C dek aad ciphertext = (case decrypt C dek aad ciphertext of
       Inl _ \<Rightarrow> Inl 500
     | Inr plaintext \<Rightarrow> ok_or 500 (from_utf8 plaintext))"

definition decrypt_detail :: "env \<Rightarrow> 'k api_parts \<Rightarrow> request_tenant \<Rightarrow> comms_request_detail
    \<Rightarrow> ('z world_scheme, nat, comms_request_detail_view) io" where
  "decrypt_detail E A tenant row =
     bindE (map_err (\<lambda>_. 500) (find_dek E (cs_customer_id row))) (\<lambda>found.
     bindE (of_result (ok_or 500 found)) (\<lambda>dek_row.
     bindE (map_err (\<lambda>_. 500) (unwrap_dek (ap_keystore A) (rt_vault_mount tenant) (dk_wrapped_dek dek_row))) (\<lambda>dek.
     let aad = cy_uuid_bytes (ap_crypto A) (cs_id row) in
     bindE (of_result (decrypt_text (ap_crypto A) dek aad (cd_destination_ciphertext row))) (\<lambda>destination.
     bindE (case cd_payload_ciphertext row of
              Some ciphertext \<Rightarrow> bindE (of_result (decrypt_text (ap_crypto A) dek aad ciphertext)) (\<lambda>t. ret (Some t))
            | None \<Rightarrow> ret None) (\<lambda>body.
       ret (comms_request_summary.extend (comms_request_summary.truncate row) (comms_request_detail_view.fields destination body)))))))"

text \<open>Compliance reads everything, customer service its own customer, everyone else nothing.\<close>

definition may_read_customer :: "uuid_parser \<Rightarrow> identity \<Rightarrow> uuid \<Rightarrow> bool" where
  "may_read_customer pu identity customer_id \<longleftrightarrow>
     id_role identity = COMPLIANCE \<or> (id_role identity = CUSTOMER_SERVICE \<and> identity_owns pu identity customer_id)"

definition comms_detail :: "env \<Rightarrow> 'k api_parts \<Rightarrow> identity \<Rightarrow> request_tenant \<Rightarrow> uuid \<Rightarrow> timestamp
    \<Rightarrow> ('z world_scheme, 'e, api_page response) io" where
  "comms_detail E A identity tenant i created_at =
     on_ok (detail E created_at i) (\<lambda>found. case found of
       None \<Rightarrow> ret (Status 404)
     | Some row \<Rightarrow>
         if \<not> may_read_customer (ap_uuid A) identity (cs_customer_id row) then ret (Status 403)
         else bindE (attempt (decrypt_detail E A tenant row)) (\<lambda>r. case r of
             Inr view \<Rightarrow> ret (Page (DetailJson view))
           | Inl status \<Rightarrow> ret (Status status)))"

definition customer_timeline :: "env \<Rightarrow> 'k api_parts \<Rightarrow> identity \<Rightarrow> uuid \<Rightarrow> ('z world_scheme, 'e, api_page response) io" where
  "customer_timeline E A identity customer_id =
     (if \<not> may_read_customer (ap_uuid A) identity customer_id then ret (Status 403)
      else on_ok (timeline E customer_id LIST_LIMIT) (\<lambda>rows. ret (Page (CommsJson rows))))"

definition campaign_reach :: "env \<Rightarrow> identity \<Rightarrow> string \<Rightarrow> ('z world_scheme, 'e, api_page response) io" where
  "campaign_reach E identity campaign_id = with_role identity [COMPLIANCE, CAMPAIGN_OPS]
     (on_ok (campaign_reach_query E campaign_id) (\<lambda>counts. ret (Page (ReachJson counts))))"

text \<open>The handler's own copy of the tracker's windows.\<close>

definition handler_minute_window_start :: "timestamp \<Rightarrow> timestamp" where
  "handler_minute_window_start now = now - now mod mins 1"

definition handler_day_window_start :: "zone \<Rightarrow> timestamp \<Rightarrow> timestamp" where
  "handler_day_window_start tz now =
    (let naive_midnight = local_date tz now * DAY in
     case earliest (z_from_local tz naive_midnight) of Some dt \<Rightarrow> dt | None \<Rightarrow> naive_midnight)"

definition current_windows :: "env \<Rightarrow> zone_parser \<Rightarrow> ('z world_scheme, sqlx_error, timestamp \<times> timestamp) io" where
  "current_windows E pz =
     bindE (load_tenant_config E) (\<lambda>config.
     let tz_name = (case config of Some c \<Rightarrow> tc_quota_day_boundary_tz c | None \<Rightarrow> ''UTC'');
         tz = (case pz tz_name of Some z \<Rightarrow> z | None \<Rightarrow> fixed_zone 0) in
     bindE (utc_now E) (\<lambda>now.
       ret (handler_minute_window_start now, handler_day_window_start tz now)))"

definition producer_usage :: "env \<Rightarrow> 'k api_parts \<Rightarrow> identity \<Rightarrow> uuid \<Rightarrow> ('z world_scheme, 'e, api_page response) io" where
  "producer_usage E A identity producer_id = with_role identity [COMMS_OPS]
     (on_ok (current_windows E (ap_zone A)) (\<lambda>(minute_start, day_start).
      on_ok (load_current_usage E minute_start day_start) (\<lambda>rows.
        ret (Page (UsageJson (filter (\<lambda>row. us_producer_id row = producer_id) rows))))))"

definition producer_quota :: "env \<Rightarrow> identity \<Rightarrow> uuid \<Rightarrow> string \<Rightarrow> string \<Rightarrow> ('z world_scheme, 'e, api_page response) io" where
  "producer_quota E identity producer_id channel class_value = with_role identity [COMMS_OPS]
     (on_ok (load_one_quota E producer_id channel class_value) (\<lambda>found. case found of
        Some quota \<Rightarrow> ret (Page (QuotaJson quota))
      | None \<Rightarrow> ret (Status 404)))"

definition ui_customer_timeline :: "env \<Rightarrow> 'k api_parts \<Rightarrow> identity \<Rightarrow> uuid \<Rightarrow> ('z world_scheme, 'e, api_page response) io" where
  "ui_customer_timeline E A identity customer_id =
     (if \<not> may_read_customer (ap_uuid A) identity customer_id then ret (Status 403)
      else on_ok (timeline E customer_id 200) (\<lambda>rows. ret (Page (TimelineHtml
        \<lparr>tt_actor = id_actor identity, tt_role = id_role identity, tt_customer_id = customer_id, tt_rows = rows\<rparr>))))"

definition ui_comms_detail :: "env \<Rightarrow> 'k api_parts \<Rightarrow> identity \<Rightarrow> request_tenant \<Rightarrow> uuid \<Rightarrow> timestamp
    \<Rightarrow> ('z world_scheme, 'e, api_page response) io" where
  "ui_comms_detail E A identity tenant i created_at =
     on_ok (detail E created_at i) (\<lambda>found. case found of
       None \<Rightarrow> ret (Status 404)
     | Some row \<Rightarrow>
         if \<not> may_read_customer (ap_uuid A) identity (cs_customer_id row) then ret (Status 403)
         else on_ok (events E i) (\<lambda>evs.
           bindE (attempt (decrypt_detail E A tenant row)) (\<lambda>r. case r of
             Inr view \<Rightarrow> ret (Page (DetailHtml \<lparr>md_actor = id_actor identity, md_role = id_role identity,
                 md_detail = view, md_events = evs\<rparr>))
           | Inl status \<Rightarrow> ret (Status status))))"

definition ui_campaign_reach :: "env \<Rightarrow> identity \<Rightarrow> string \<Rightarrow> ('z world_scheme, 'e, api_page response) io" where
  "ui_campaign_reach E identity campaign_id = with_role identity [COMPLIANCE, CAMPAIGN_OPS]
     (on_ok (campaign_reach_query E campaign_id) (\<lambda>counts. ret (Page (ReachHtml
        \<lparr>crt_actor = id_actor identity, crt_role = id_role identity, crt_campaign_id = campaign_id, crt_counts = counts\<rparr>))))"

section \<open>The access audit\<close>

record access_audit_input =
  ai_actor :: string
  ai_role :: string
  ai_route :: string
  ai_customer_id :: "uuid option"
  ai_query_params :: string

definition record_access :: "env \<Rightarrow> access_audit_input \<Rightarrow> timestamp \<Rightarrow> ('z world_scheme, sqlx_error, unit) io" where
  "record_access E input now = bindE (new_uuid E) (\<lambda>i. stmt E (\<lambda>_ d.
     map_sum id (\<lambda>t. ((), d\<lparr>t_access_audit := t\<rparr>)) (ins_pk ''access_audit_pkey'' aa_id
       \<lparr>aa_id = i, aa_occurred_at = now, aa_actor = ai_actor input, aa_role = ai_role input, aa_route = ai_route input,
        aa_customer_id = ai_customer_id input, aa_query_params = ai_query_params input\<rparr> (t_access_audit d))))"

definition CUSTOMER_ID_ROUTES :: "string list" where
  "CUSTOMER_ID_ROUTES = [''/t/{tenant_slug}/customers/{id}/timeline'', ''/t/{tenant_slug}/ui/customers/{id}/timeline'']"

text \<open>\<open>str::split\<close> on one character: a string without it is one segment.\<close>

fun split_on :: "char \<Rightarrow> string \<Rightarrow> string list" where
  "split_on c [] = [[]]"
| "split_on c (x # xs) = (if x = c then [] # split_on c xs else
     (case split_on c xs of seg # rest \<Rightarrow> (x # seg) # rest | [] \<Rightarrow> [[x]]))"

definition extract_path_customer_id :: "uuid_parser \<Rightarrow> string \<Rightarrow> uuid option" where
  "extract_path_customer_id pu path =
    (let segments = split_on (CHR ''/'') path in
     case position ''timeline'' segments of
       Some (Suc idx) \<Rightarrow> pu (segments ! idx)
     | _ \<Rightarrow> None)"

record api_request =
  ar_slug :: string
  ar_matched_path :: "string option"
  ar_path :: string
  ar_query :: string

text \<open>A row that cannot be written is reported and the request goes on.\<close>

definition log_access :: "env \<Rightarrow> 'k api_parts \<Rightarrow> api_request \<Rightarrow> identity \<Rightarrow> ('z world_scheme, 'e, unit) io" where
  "log_access E A req identity =
     (if id_role identity = COMPLIANCE then
        let customer_id = (case ar_matched_path req of
              Some path \<Rightarrow> if path \<in> set CUSTOMER_ID_ROUTES then extract_path_customer_id (ap_uuid A) (ar_path req) else None
            | None \<Rightarrow> None) in
        bindE (utc_now E) (\<lambda>now.
        thenE (attempt (record_access E \<lparr>ai_actor = id_actor identity, ai_role = id_role identity,
            ai_route = (case ar_matched_path req of Some path \<Rightarrow> path | None \<Rightarrow> []), ai_customer_id = customer_id,
            ai_query_params = ar_query req\<rparr> now)) (ret ()))
      else ret ())"

definition access_audit_mw :: "env \<Rightarrow> 'k api_parts \<Rightarrow> api_request \<Rightarrow> ('z pool_world_scheme, 'e, 'p response) io
    \<Rightarrow> ('z pool_world_scheme, 'e, 'p response) io" where
  "access_audit_mw E A req continue =
     bindE (attempt (tenant_from_request E A (ar_slug req))) (\<lambda>r. case r of
       Inl err \<Rightarrow> ret (Status (tenant_context_status err))
     | Inr tenant_ctx \<Rightarrow>
        (case ap_auth A (rt_tenant_id tenant_ctx) of
           Inl _ \<Rightarrow> ret (Status 401)
         | Inr identity \<Rightarrow> thenE (log_access E A req identity) continue))"

text \<open>A handler runs behind the middleware, after its two extractors.\<close>

definition served :: "env \<Rightarrow> 'k api_parts \<Rightarrow> api_request \<Rightarrow> (identity \<Rightarrow> request_tenant \<Rightarrow> ('z pool_world_scheme, 'e, 'p response) io)
    \<Rightarrow> ('z pool_world_scheme, 'e, 'p response) io" where
  "served E A req handler = access_audit_mw E A req
     (bindE (attempt (authed_user E A (ar_slug req))) (\<lambda>r. case r of
        Inl e \<Rightarrow> ret (Status (authed_user_status e))
      | Inr identity \<Rightarrow>
         bindE (attempt (tenant_from_request E A (ar_slug req))) (\<lambda>r. case r of
           Inl e \<Rightarrow> ret (Status (tenant_context_status e))
         | Inr tenant \<Rightarrow> handler identity tenant)))"

section \<open>The reading routes of the router\<close>

datatype read_route =
    ListComms comms_filter
  | CommsDetail uuid timestamp
  | CustomerTimeline uuid
  | CampaignReach string
  | ProducerUsage uuid
  | ProducerQuota uuid string string
  | UiCustomerTimeline uuid
  | UiCommsDetail uuid timestamp
  | UiCampaignReach string

primrec read_handler :: "env \<Rightarrow> 'k api_parts \<Rightarrow> read_route \<Rightarrow> identity \<Rightarrow> request_tenant
    \<Rightarrow> ('z world_scheme, 'e, api_page response) io" where
  "read_handler E A (ListComms f) identity tenant = list_comms E identity f"
| "read_handler E A (CommsDetail i created_at) identity tenant = comms_detail E A identity tenant i created_at"
| "read_handler E A (CustomerTimeline c) identity tenant = customer_timeline E A identity c"
| "read_handler E A (CampaignReach c) identity tenant = campaign_reach E identity c"
| "read_handler E A (ProducerUsage p) identity tenant = producer_usage E A identity p"
| "read_handler E A (ProducerQuota p channel class_value) identity tenant = producer_quota E identity p channel class_value"
| "read_handler E A (UiCustomerTimeline c) identity tenant = ui_customer_timeline E A identity c"
| "read_handler E A (UiCommsDetail i created_at) identity tenant = ui_comms_detail E A identity tenant i created_at"
| "read_handler E A (UiCampaignReach c) identity tenant = ui_campaign_reach E identity c"

section \<open>What answering leaves alone\<close>

lemma database_error_no_page [simp]: "database_error e \<noteq> Page p" "Page p \<noteq> database_error e" "database_error e \<noteq> Text n t"
  by (simp_all add: database_error_def)

lemma wp_on_ok [wp_simps]: "wp (on_ok m k) Q R s = wp m (\<lambda>a. wp (k a) Q R) (\<lambda>e. Q (database_error e)) s"
  by (auto simp: on_ok_def wp_def bindE_def attempt_def ret_def split: prod.splits sum.splits)

lemma wp_with_role [wp_simps]:
  "wp (with_role identity allowed k) Q R s = (if id_role identity \<in> set allowed then wp k Q R s else Q (Status 403) s)"
  by (simp add: with_role_def require_role_def wp_simps)

lemma keeps_on_ok [keeps_intros]: "keeps P m \<Longrightarrow> (\<And>a. keeps P (k a)) \<Longrightarrow> keeps P (on_ok m k)"
  unfolding on_ok_def by (intro keeps_intros)

lemma keeps_with_role [keeps_intros]: "keeps P k \<Longrightarrow> keeps P (with_role identity allowed k)"
  unfolding with_role_def by (intro keeps_intros)

lemma fails_attempt [fails_intros]: "fails_with P (attempt m)"
  by (auto simp: fails_with_def wp_def attempt_def split: prod.splits)

lemma fails_on_ok [fails_intros]: "(\<And>a. fails_with P (k a)) \<Longrightarrow> fails_with P (on_ok m k)"
  unfolding on_ok_def by (intro fails_intros) (auto intro: fails_intros split: sum.split)

lemma fails_with_role [fails_intros]: "fails_with P k \<Longrightarrow> fails_with P (with_role identity allowed k)"
  by (simp add: fails_with_def wp_simps)

lemma fails_case_sum [fails_intros]:
  "(\<And>a. fails_with P (f a)) \<Longrightarrow> (\<And>b. fails_with P (g b)) \<Longrightarrow> fails_with P (case x of Inl a \<Rightarrow> f a | Inr b \<Rightarrow> g b)"
  by (cases x) simp_all

lemma fails_case_prod [fails_intros]: "(\<And>a b. fails_with P (f a b)) \<Longrightarrow> fails_with P (case x of (a, b) \<Rightarrow> f a b)"
  by (cases x) simp

lemma keeps_case_prod [keeps_intros]: "(\<And>a b. keeps P (f a b)) \<Longrightarrow> keeps P (case x of (a, b) \<Rightarrow> f a b)"
  by (cases x) simp

text \<open>A predicate on both databases; alone with them, every statement that only reads keeps it.\<close>

definition data_inv :: "(tenant_db \<Rightarrow> control_db \<Rightarrow> bool) \<Rightarrow> 'z world_scheme \<Rightarrow> bool" where
  "data_inv P w \<longleftrightarrow> P (w_db w) (w_ctl w)"

lemma data_inv_reads [keeps_intros]:
  assumes "quiet E"
  shows "keeps (data_inv P) (query E f)" "keeps (data_inv P) (ctl_query E g)" "keeps (data_inv P) (connect_with_expected_database E a b)"
  using assms by (auto intro!: wp_keeps simp: data_inv_def wp_simps connect_with_expected_database_def Let_def split: sum.splits)

lemma data_inv_draws [keeps_intros]:
  "keeps (data_inv P) (utc_now E)" "keeps (data_inv P) (new_uuid E)" "keeps (data_inv P) (unwrap_dek K m y)"
  by (auto intro!: wp_keeps simp: data_inv_def wp_simps split: sum.splits)

lemma data_inv_tenant [keeps_intros]:
  assumes "quiet E"
  shows "keeps (data_inv P) (tenant_from_request E A slug)" "keeps (data_inv P) (authed_user E A slug)"
proof -
  have pools: "keeps (data_inv P) (modifyE (\<lambda>w. w\<lparr>w_pools := f w\<rparr>) :: ('z pool_world_scheme, 'f, unit) io)" for f
    by (auto intro!: wp_keeps simp: data_inv_def wp_simps)
  show tenant: "keeps (data_inv P) (tenant_from_request E A slug)"
    unfolding tenant_from_request_def find_by_slug_def get_or_open_def connect_tenant_pool_def find_by_id_def Let_def
    by (intro keeps_intros assms pools)
  show "keeps (data_inv P) (authed_user E A slug)"
    unfolding authed_user_def by (intro keeps_intros tenant)
qed

lemma data_inv_ledger_reads [keeps_intros]:
  assumes "quiet E"
  shows "keeps (data_inv P) (list_comms_rows E f n)" "keeps (data_inv P) (detail E at i)" "keeps (data_inv P) (events E i)"
    "keeps (data_inv P) (timeline E c n)" "keeps (data_inv P) (campaign_reach_query E s)" "keeps (data_inv P) (current_windows E pz)"
    "keeps (data_inv P) (load_current_usage E x y)" "keeps (data_inv P) (load_one_quota E p ch cl)" "keeps (data_inv P) (decrypt_detail E A t row)"
  unfolding list_comms_rows_def detail_def events_def timeline_def alias_set_def campaign_reach_query_def current_windows_def
    load_tenant_config_def load_current_usage_def load_one_quota_def decrypt_detail_def find_dek_def Let_def
  by (intro keeps_intros assms)+

lemmas read_handler_defs = read_handler.simps list_comms_def comms_detail_def customer_timeline_def campaign_reach_def
  producer_usage_def producer_quota_def ui_customer_timeline_def ui_comms_detail_def ui_campaign_reach_def

lemma data_inv_read_handler [keeps_intros]:
  assumes "quiet E"
  shows "keeps (data_inv P) (read_handler E A route identity tenant)"
  by (cases route; simp only: read_handler_defs; intro keeps_intros assms)

section \<open>Roles and routes\<close>

text \<open>A refusal carries no data.\<close>

definition turned_away :: "'p response \<Rightarrow> bool" where
  "turned_away r \<longleftrightarrow> r \<in> Status ` {401, 403, 404, 500}"

lemma turned_away_simps [simp]:
  "turned_away (Status n) \<longleftrightarrow> n \<in> {401, 403, 404, 500}" "\<not> turned_away (Page p)" "\<not> turned_away (Text n t)" "turned_away (database_error e)"
  by (auto simp: turned_away_def database_error_def)

text \<open>Nothing but the access audit has changed.\<close>

definition only_access_logged :: "'z world_scheme \<Rightarrow> 'z world_scheme \<Rightarrow> bool" where
  "only_access_logged w w' \<longleftrightarrow> w_ctl w' = w_ctl w \<and> (w_db w')\<lparr>t_access_audit := []\<rparr> = (w_db w)\<lparr>t_access_audit := []\<rparr>"

lemma wp_authed_user:
  assumes "keeps I (tenant_from_request E A slug)" and "I w"
  shows "wp (authed_user E A slug) (\<lambda>i w'. I w' \<and> (\<exists>t. ap_auth A t = Inr i)) (\<lambda>_. I) w"
  unfolding authed_user_def
  by (rule wp_bindI, rule wp_map_errI, rule keeps_wp [OF assms]) (auto simp: wp_simps wp_def of_result_def map_err_def split: sum.splits)

lemma status_of_errors: "tenant_context_status e \<in> {401, 404, 500}" "authed_user_status e' \<in> {401, 404, 500}"
  by (auto simp: tenant_context_status_def authed_user_status_def split: tenant_context_error.splits authed_user_error.splits)

lemma log_access_answers: "wp (log_access E A req i) (\<lambda>_ _. True) (\<lambda>_ _. False) w"
  by (auto simp: log_access_def wp_def bindE_def attempt_def ret_def utc_now_def Let_def split: prod.splits sum.splits)

text \<open>What holds of a served request follows from what holds of its handler.\<close>

lemma wp_served:
  fixes handler :: "identity \<Rightarrow> request_tenant \<Rightarrow> ('z pool_world_scheme, 'e, 'p response) io"
  assumes "keeps I (tenant_from_request E A (ar_slug req))" and "\<And>x now. keeps I (record_access E x now)" 
    and "keeps I (utc_now E :: ('z pool_world_scheme, 'e, timestamp) io)" and "I w"
    and handler: "\<And>t i tenant v. ap_auth A t = Inr i \<Longrightarrow> I v \<Longrightarrow> wp (handler i tenant) Q R v"
    and status: "\<And>n v. n \<in> {401, 404, 500} \<Longrightarrow> I v \<Longrightarrow> Q (Status n) v"
  shows "wp (served E A req handler) Q R w"
proof -
  let ?rest = "bindE (attempt (authed_user E A (ar_slug req))) (\<lambda>r. case r of
        Inl e \<Rightarrow> ret (Status (authed_user_status e))
      | Inr identity \<Rightarrow>
         bindE (attempt (tenant_from_request E A (ar_slug req))) (\<lambda>r. case r of
           Inl e \<Rightarrow> ret (Status (tenant_context_status e))
         | Inr tenant \<Rightarrow> handler identity tenant))"
  note fin = status [OF status_of_errors(1)] status [OF status_of_errors(2)]
  have rest: "wp ?rest Q R v" if "I v" for v
    unfolding wp_bindE wp_attempt
    by (rule wp_mono [OF wp_authed_user [OF assms(1) that]])
      (auto simp: wp_simps intro!: fin handler wp_mono [OF keeps_wp [OF assms(1)]])
  have log: "keeps I (log_access E A req i :: ('z pool_world_scheme, 'e, unit) io)" for i
    unfolding log_access_def Let_def by (intro keeps_intros assms(2,3))
  have log_ok: "wp (log_access E A req i :: ('z pool_world_scheme, 'e, unit) io) (\<lambda>_. I) (\<lambda>_ _. False) v" if "I v" for i v
    by (rule wp_mono [OF wp_conj [OF keeps_wp [OF log that] log_access_answers]]) auto
  show ?thesis
    unfolding served_def access_audit_mw_def wp_bindE wp_attempt
    by (rule wp_mono [OF keeps_wp [OF assms(1,4)]])
      (auto simp: wp_simps intro!: fin status [of 401] wp_mono [OF log_ok] rest split: sum.split)
qed

lemma keeps_only_access:
  assumes "\<And>P. keeps (data_inv P) m"
  shows "keeps (only_access_logged w) m"
  using assms [of "\<lambda>d c. c = w_ctl w \<and> d\<lparr>t_access_audit := []\<rparr> = (w_db w)\<lparr>t_access_audit := []\<rparr>"]
  by (simp add: only_access_logged_def [abs_def] data_inv_def [abs_def])

lemma record_access_keeps:
  assumes "quiet E"
  shows "keeps (only_access_logged w) (record_access E x now)"
  unfolding record_access_def using assms
  by (auto intro!: wp_keeps simp: wp_simps only_access_logged_def Let_def split: sum.splits)

text \<open>
  The contract of a group of routes: a handler always answers, and it refuses, and changes nothing,
  when the role of its caller is not one its route allows.
\<close>

locale guarded_routes =
  fixes allowed :: "'r \<Rightarrow> string list"
    and handler :: "env \<Rightarrow> 'k api_parts \<Rightarrow> string \<Rightarrow> 'r \<Rightarrow> identity \<Rightarrow> request_tenant \<Rightarrow> ('z pool_world_scheme, 'e, 'p response) io"
  assumes answers: "fails_with (\<lambda>_. False) (handler E A slug r identity tenant)"
    and refuses: "id_role identity \<notin> set (allowed r) \<Longrightarrow> wp (handler E A slug r identity tenant)
      (\<lambda>resp w'. turned_away resp \<and> (quiet E \<longrightarrow> w_db w' = w_db w \<and> w_ctl w' = w_ctl w)) (\<lambda>_ _. False) w"
begin

lemma served_answers: "wp (served E A req (handler E A (ar_slug req) r)) (\<lambda>_ _. True) (\<lambda>_ _. False) w"
  by (rule wp_served [of "\<lambda>_. True"]) (auto intro: fails_wp [OF answers] simp: keeps_def)

lemma served_refuses:
  assumes "\<And>t i. ap_auth A t = Inr i \<Longrightarrow> id_role i \<notin> set (allowed r)"
  shows "wp (served E A req (handler E A (ar_slug req) r))
     (\<lambda>resp w'. turned_away resp \<and> (quiet E \<longrightarrow> only_access_logged w w')) (\<lambda>_ _. False) w"
proof (cases "quiet E")
  case False
  then show ?thesis
    by (intro wp_served [of "\<lambda>_. True"]) (auto simp: keeps_def intro: wp_mono [OF refuses [OF assms]])
next
  case True
  show ?thesis
  proof (rule wp_served [of "only_access_logged w"])
    show "keeps (only_access_logged w) (tenant_from_request E A (ar_slug req))"
      and "keeps (only_access_logged w) (utc_now E :: ('z pool_world_scheme, 'e, timestamp) io)"
      by (intro keeps_only_access keeps_intros True)+
    show "keeps (only_access_logged w) (record_access E x now)" for x now by (rule record_access_keeps [OF True])
    show "only_access_logged w w" by (simp add: only_access_logged_def)
    show "wp (handler E A (ar_slug req) r i tenant) (\<lambda>resp w'. turned_away resp \<and> (quiet E \<longrightarrow> only_access_logged w w')) (\<lambda>_ _. False) v"
      if "ap_auth A t = Inr i" "only_access_logged w v" for t i tenant v
      using that(2) by (intro wp_mono [OF refuses [OF assms [OF that(1)]]]) (auto simp: True only_access_logged_def)
  qed auto
qed

end

primrec read_allowed :: "read_route \<Rightarrow> string list" where
  "read_allowed (ListComms f) = [COMPLIANCE]"
| "read_allowed (CommsDetail i at) = [COMPLIANCE, CUSTOMER_SERVICE]"
| "read_allowed (CustomerTimeline c) = [COMPLIANCE, CUSTOMER_SERVICE]"
| "read_allowed (CampaignReach c) = [COMPLIANCE, CAMPAIGN_OPS]"
| "read_allowed (ProducerUsage p) = [COMMS_OPS]"
| "read_allowed (ProducerQuota p ch cl) = [COMMS_OPS]"
| "read_allowed (UiCustomerTimeline c) = [COMPLIANCE, CUSTOMER_SERVICE]"
| "read_allowed (UiCommsDetail i at) = [COMPLIANCE, CUSTOMER_SERVICE]"
| "read_allowed (UiCampaignReach c) = [COMPLIANCE, CAMPAIGN_OPS]"

interpretation reading: guarded_routes read_allowed "\<lambda>E A slug. read_handler E A"
proof
  show "fails_with (\<lambda>_. False) (read_handler E A r identity tenant)" for E A r identity tenant
    by (cases r; simp only: read_handler_defs; intro fails_intros)
  show "wp (read_handler E A r identity tenant)
      (\<lambda>resp w'. turned_away resp \<and> (quiet E \<longrightarrow> w_db w' = w_db w \<and> w_ctl w' = w_ctl w)) (\<lambda>_ _. False) w"
    if "id_role identity \<notin> set (read_allowed r)" for E A r identity tenant w
    using that
    by (cases r) (auto simp: read_handler_defs wp_simps may_read_customer_def detail_def Let_def split: option.split)
qed

section \<open>Whose messages a page shows\<close>

primrec page_customers :: "api_page \<Rightarrow> uuid set" where
  "page_customers (CommsJson rows) = cs_customer_id ` set rows"
| "page_customers (DetailJson v) = {cs_customer_id v}"
| "page_customers (ReachJson counts) = {}"
| "page_customers (UsageJson rows) = {}"
| "page_customers (QuotaJson q) = {}"
| "page_customers (TimelineHtml t) = cs_customer_id ` set (tt_rows t)"
| "page_customers (DetailHtml t) = {cs_customer_id (md_detail t)}"
| "page_customers (ReachHtml t) = {}"

definition own_ids :: "uuid \<Rightarrow> tenant_db \<Rightarrow> uuid set" where
  "own_ids c d = set (aliases ALIAS_HOP_LIMIT [c] d)"

lemma own_ids_self: "c \<in> own_ids c d"
  by (simp add: own_ids_def eval_nat_numeral)

lemma newest_first_customers: "cs_customer_id ` set (newest_first n rows) \<subseteq> cr_customer_id ` set rows"
  using set_top_by by (fastforce simp: newest_first_def summary_columns_def)

lemma decrypt_detail_columns:
  "wp (decrypt_detail E A tenant row) (\<lambda>v _. comms_request_summary.truncate v = comms_request_summary.truncate row) (\<lambda>_ _. True) w"
  by (simp add: decrypt_detail_def find_dek_def wp_simps Let_def comms_request_summary.defs comms_request_detail_view.defs
      split: option.splits sum.splits)

lemma truncate_customer:
  "comms_request_summary.truncate v = comms_request_summary.truncate row \<Longrightarrow> cs_customer_id v = cs_customer_id row"
  by (simp add: comms_request_summary.defs)

lemma wp_timeline:
  assumes "quiet E"
  shows "wp (timeline E c n) (\<lambda>rows w'. rows = newest_first n (filter (\<lambda>r. cr_customer_id r \<in> own_ids c (w_db w)) (t_comms_request (w_db w)))
     \<and> w_db w' = w_db w) (\<lambda>_ _. False) w"
  using assms by (simp add: timeline_def alias_set_def wp_simps own_ids_def Let_def)

lemma timeline_own:
  assumes "quiet E"
  shows "wp (timeline E c n) (\<lambda>rows _. cs_customer_id ` set rows \<subseteq> own_ids c (w_db w)) (\<lambda>_ _. True) w"
proof (rule wp_mono [OF wp_timeline [OF assms]])
  fix rows and w' :: "'a world_scheme"
  let ?mine = "filter (\<lambda>r. cr_customer_id r \<in> own_ids c (w_db w)) (t_comms_request (w_db w))"
  assume "rows = newest_first n ?mine \<and> w_db w' = w_db w"
  then have "cs_customer_id ` set rows \<subseteq> cr_customer_id ` set ?mine"
    using newest_first_customers [of n ?mine] by blast
  also have "\<dots> \<subseteq> own_ids c (w_db w)" by auto
  finally show "cs_customer_id ` set rows \<subseteq> own_ids c (w_db w)" .
qed simp

lemma read_handler_own:
  fixes w :: "'z world_scheme"
  assumes "quiet E" and "id_role identity = CUSTOMER_SERVICE"
  shows "wp (read_handler E A route identity tenant) (\<lambda>resp _. \<forall>page. resp = Page page \<longrightarrow>
     (\<exists>c. ap_uuid A (id_actor identity) = Some c \<and> page_customers page \<subseteq> own_ids c (w_db w))) (\<lambda>_ _. True) w"
proof -
  have owns: "may_read_customer (ap_uuid A) identity c \<longleftrightarrow> ap_uuid A (id_actor identity) = Some c" for c
    using assms(2) by (auto simp: may_read_customer_def identity_owns_def split: option.splits)
  have view: "wp (decrypt_detail E A tenant row) (\<lambda>v _. cs_customer_id v = cs_customer_id row) (\<lambda>_ _. True) v" for row and v :: "'z world_scheme"
    by (rule wp_mono [OF decrypt_detail_columns]) (auto dest: truncate_customer)
  note simps = read_handler_defs wp_simps detail_def events_def Let_def own_ids_self owns assms
  show ?thesis
  proof (cases route)
    case (CommsDetail i at)
    then show ?thesis by (auto simp: simps intro!: wp_mono [OF view] split: option.split)
  next
    case (UiCommsDetail i at)
    then show ?thesis by (auto simp: simps intro!: wp_mono [OF view] split: option.split)
  next
    case (CustomerTimeline c)
    then show ?thesis by (auto simp: simps intro!: wp_mono [OF timeline_own [OF assms(1)]])
  next
    case (UiCustomerTimeline c)
    then show ?thesis by (auto simp: simps intro!: wp_mono [OF timeline_own [OF assms(1)]])
  qed (simp_all add: simps)
qed

lemma aliases_cong: "t_customer_alias d = t_customer_alias d' \<Longrightarrow> aliases n ids d = aliases n ids d'"
  by (induction n arbitrary: ids) simp_all

lemma own_ids_logged: "only_access_logged w v \<Longrightarrow> own_ids c (w_db v) = own_ids c (w_db w)"
  unfolding own_ids_def only_access_logged_def
  by (elim conjE, drule arg_cong [where f = t_customer_alias]) (simp add: aliases_cong [of "w_db v" "w_db w"])


section \<open>The trace of compliance\<close>

definition access_log :: "tenant_db \<Rightarrow> (string \<times> string \<times> string \<times> uuid option \<times> string) list" where
  "access_log d = map (\<lambda>r. (aa_actor r, aa_role r, aa_route r, aa_customer_id r, aa_query_params r)) (t_access_audit d)"

lemma split_on_none: "c \<notin> set xs \<Longrightarrow> split_on c xs = [xs]"
  by (induction xs) auto

lemma split_on_append: "c \<notin> set xs \<Longrightarrow> split_on c (xs @ c # ys) = xs # split_on c ys"
  by (induction xs) auto

text \<open>The path of a customer's timeline.\<close>

definition timeline_path :: "string \<Rightarrow> string \<Rightarrow> string" where
  "timeline_path slug customer = ''/t/'' @ slug @ ''/customers/'' @ customer @ ''/timeline''"

lemma timeline_path_segments:
  assumes "CHR ''/'' \<notin> set slug" and "CHR ''/'' \<notin> set customer"
  shows "split_on (CHR ''/'') (timeline_path slug customer) = ['''', ''t'', slug, ''customers'', customer, ''timeline'']"
  using split_on_append [OF assms(1), of "''customers/'' @ customer @ ''/timeline''"]
    split_on_append [OF assms(2), of "''timeline''"]
  by (simp add: timeline_path_def)

lemma extract_timeline_customer:
  assumes "CHR ''/'' \<notin> set slug" and "CHR ''/'' \<notin> set customer" and "slug \<noteq> ''timeline''" and "customer \<noteq> ''timeline''"
  shows "extract_path_customer_id pu (timeline_path slug customer) = pu customer"
  using assms by (simp add: extract_path_customer_id_def timeline_path_segments)

text \<open>For the tenant whose slug is \<open>timeline\<close> the first match is the slug, and the row names no customer.\<close>

lemma timeline_slug_hides_customer:
  assumes "CHR ''/'' \<notin> set customer" and "pu ''t'' = None"
  shows "extract_path_customer_id pu (timeline_path ''timeline'' customer) = None"
  using assms by (simp add: extract_path_customer_id_def timeline_path_segments)

definition recorded_customer :: "uuid_parser \<Rightarrow> api_request \<Rightarrow> uuid option" where
  "recorded_customer pu req = (case ar_matched_path req of
       Some path \<Rightarrow> if path \<in> set CUSTOMER_ID_ROUTES then extract_path_customer_id pu (ar_path req) else None
     | None \<Rightarrow> None)"

definition access_entry :: "uuid_parser \<Rightarrow> api_request \<Rightarrow> identity \<Rightarrow> string \<times> string \<times> string \<times> uuid option \<times> string" where
  "access_entry pu req i = (id_actor i, id_role i, (case ar_matched_path req of Some path \<Rightarrow> path | None \<Rightarrow> []),
     recorded_customer pu req, ar_query req)"

lemma wp_log_access:
  assumes "quiet E" and "\<And>n. e_new_uuid E n \<notin> aa_id ` set (t_access_audit (w_db w))"
  shows "wp (log_access E A req i) (\<lambda>_ w'. access_log (w_db w') = access_log (w_db w) @
     (if id_role i = COMPLIANCE then [access_entry (ap_uuid A) req i] else [])) (\<lambda>_ _. False) w"
  using assms
  by (auto simp: log_access_def record_access_def wp_simps Let_def ins_pk_def access_log_def access_entry_def recorded_customer_def)


section \<open>Listings\<close>

text \<open>The newest rows of a selection: as many as fit, in order, and none left out that is newer than one
  shown.\<close>

definition newest_of :: "nat \<Rightarrow> comms_request_row list \<Rightarrow> comms_request_summary list \<Rightarrow> bool" where
  "newest_of limit selection rows \<longleftrightarrow>
     length rows = min limit (length selection) \<and> sorted (map (\<lambda>s. - cs_created_at s) rows)
   \<and> (\<exists>rest. mset (map summary_columns selection) = mset rows + mset rest
        \<and> (\<forall>x \<in> set rows. \<forall>y \<in> set rest. cs_created_at y \<le> cs_created_at x))"

lemma newest_first_newest: "newest_of limit selection (newest_first limit selection)"
proof -
  let ?k = "\<lambda>r. - cr_created_at r" and ?s = "sort_key (\<lambda>r. - cr_created_at r) selection"
  have at: "cs_created_at (summary_columns r) = cr_created_at r" for r by (simp add: summary_columns_def)
  have sorted: "sorted (map ?k (take limit ?s @ drop limit ?s))" by simp
  have "sorted (map ?k (take limit ?s))" and "\<forall>x \<in> set (take limit ?s). \<forall>y \<in> set (drop limit ?s). ?k x \<le> ?k y"
    using sorted unfolding map_append sorted_append by auto
  moreover have "mset (map summary_columns selection) = mset (map summary_columns (take limit ?s)) + mset (map summary_columns (drop limit ?s))"
    by (metis append_take_drop_id map_append mset_append mset_map mset_sort)
  ultimately show ?thesis
    by (auto simp: newest_of_def newest_first_def top_by_def at comp_def intro!: exI [of _ "map summary_columns (drop limit ?s)"])
qed

lemma count_list_sum: "(\<Sum>s \<leftarrow> remdups xs. count_list xs s) = length xs"
  by (simp add: sum_list_distinct_conv_sum_set sum_count_set)

lemma count_list_statuses: "count_list (map g xs) s = length (filter (\<lambda>x. g x = s) xs)"
  by (induction xs) auto

lemma reach_total: "(\<Sum>x \<leftarrow> campaign_reach_rows campaign d. snd x) = length (filter (\<lambda>r. cr_campaign_id r = Some campaign) (t_comms_request d))"
  using count_list_sum [of "map cr_final_status (filter (\<lambda>r. cr_campaign_id r = Some campaign) (t_comms_request d))"]
  by (simp add: campaign_reach_rows_def Let_def comp_def)

lemma reach_each:
  "\<forall>(s, n) \<in> set (campaign_reach_rows campaign d).
     n = length (filter (\<lambda>r. cr_campaign_id r = Some campaign \<and> cr_final_status r = s) (t_comms_request d))"
  by (auto simp: campaign_reach_rows_def Let_def count_list_statuses conj_commute)

text \<open>Listings are complete up to their limit.  Asked by compliance, the ledger listing shows the newest
  rows that match every field of the filter, the timeline the newest rows of a customer and of the
  ids merged into it, two hundred at most, in order, and a row is only ever left out for newer
  ones; and the reach of a campaign counts every one of its messages once.\<close>

theorem listings_show_the_newest:
  fixes w :: "'z world_scheme"
  assumes "quiet E" and "id_role identity = COMPLIANCE"
  defines "ledger \<equiv> t_comms_request (w_db w)"
  shows "wp (list_comms E identity f) (\<lambda>resp _. \<exists>rows. resp = Page (CommsJson rows)
       \<and> newest_of 200 (filter (comms_filter_matches f) ledger) rows) (\<lambda>_ _. False) w
   \<and> wp (customer_timeline E A identity c) (\<lambda>resp _. \<exists>rows. resp = Page (CommsJson rows)
       \<and> newest_of 200 (filter (\<lambda>r. cr_customer_id r \<in> own_ids c (w_db w)) ledger) rows) (\<lambda>_ _. False) w
   \<and> wp (campaign_reach E identity campaign) (\<lambda>resp _. \<exists>counts. resp = Page (ReachJson counts)
       \<and> (\<Sum>x \<leftarrow> counts. snd x) = length (filter (\<lambda>r. cr_campaign_id r = Some campaign) ledger)
       \<and> (\<forall>(s, n) \<in> set counts. n = length (filter (\<lambda>r. cr_campaign_id r = Some campaign \<and> cr_final_status r = s) ledger)))
       (\<lambda>_ _. False) w"
proof (intro conjI)
  show "wp (list_comms E identity f) (\<lambda>resp _. \<exists>rows. resp = Page (CommsJson rows)
       \<and> newest_of 200 (filter (comms_filter_matches f) ledger) rows) (\<lambda>_ _. False) w"
    using assms by (simp add: list_comms_def list_comms_rows_def wp_simps newest_first_newest Let_def)
  show "wp (customer_timeline E A identity c) (\<lambda>resp _. \<exists>rows. resp = Page (CommsJson rows)
       \<and> newest_of 200 (filter (\<lambda>r. cr_customer_id r \<in> own_ids c (w_db w)) ledger) rows) (\<lambda>_ _. False) w"
    using assms(2)
    by (auto simp: customer_timeline_def may_read_customer_def wp_simps ledger_def newest_first_newest intro!: wp_mono [OF wp_timeline [OF assms(1)]])
  show "wp (campaign_reach E identity campaign) (\<lambda>resp _. \<exists>counts. resp = Page (ReachJson counts)
       \<and> (\<Sum>x \<leftarrow> counts. snd x) = length (filter (\<lambda>r. cr_campaign_id r = Some campaign) ledger)
       \<and> (\<forall>(s, n) \<in> set counts. n = length (filter (\<lambda>r. cr_campaign_id r = Some campaign \<and> cr_final_status r = s) ledger)))
       (\<lambda>_ _. False) w"
    using assms
    by (simp add: campaign_reach_def campaign_reach_query_def wp_simps Let_def reach_total reach_each)
qed

section \<open>A concrete reader\<close>

definition sample_api :: "string \<Rightarrow> string \<Rightarrow> nat api_parts" where
  "sample_api actor role = \<lparr>ap_auth = \<lambda>t. Inr \<lparr>id_actor = actor, id_role = role, id_tenant_id = t\<rparr>,
     ap_uuid = \<lambda>s. if s = ''twenty'' then Some 20 else None, ap_show_uuid = \<lambda>_. ''twenty'', ap_crypto = framed_crypto,
     ap_keystore = sample_keystore, ap_zone = \<lambda>_. None, ap_parsed = Inr (), ap_collate = length, ap_error_text = \<lambda>_. ''error'',
     ap_rfc3339 = \<lambda>_. None, ap_naive = \<lambda>_. None\<rparr>"

definition reader_world :: pool_world where
  "reader_world = webhook_world\<lparr>w_db := bounced_db\<rparr>"

definition timeline_request :: api_request where
  "timeline_request = \<lparr>ar_slug = ''acme'', ar_matched_path = Some ''/t/{tenant_slug}/customers/{id}/timeline'',
     ar_path = ''/t/acme/customers/twenty/timeline'', ar_query = ''''\<rparr>"

definition timeline_read :: "string \<Rightarrow> string \<Rightarrow> (unit + api_page response) \<times> pool_world" where
  "timeline_read actor role = served (quiet_env 0) (sample_api actor role) timeline_request
     (read_handler (quiet_env 0) (sample_api actor role) (CustomerTimeline 20)) reader_world"

definition shown :: "(unit + api_page response) \<times> pool_world \<Rightarrow> api_page option" where
  "shown r = (case fst r of Inr (Page p) \<Rightarrow> Some p | _ \<Rightarrow> None)"

lemma shown_run: "shown r = Some p \<Longrightarrow> r = (Inr (Page p), snd r)"
  by (cases r) (auto simp: shown_def split: sum.splits response.splits)

lemma timeline_shown:
  "map_option page_customers (shown (timeline_read ''twenty'' CUSTOMER_SERVICE)) = Some {20}"
  "map_option page_customers (shown (timeline_read ''ann'' COMPLIANCE)) = Some {20}"
  by code_simp+

lemma sample_api_auth: "ap_auth (sample_api actor role) t = Inr i \<Longrightarrow> id_role i = role \<and> id_actor i = actor"
  by (auto simp: sample_api_def)



theorem listings_show_the_newest_witness:
  "\<exists>rows. fst (customer_timeline (quiet_env 0) (sample_api ''ann'' COMPLIANCE) \<lparr>id_actor = ''ann'', id_role = COMPLIANCE, id_tenant_id = 1\<rparr> 20
        reader_world :: (unit + api_page response) \<times> pool_world) = Inr (Page (CommsJson rows))
     \<and> newest_of 200 (filter (\<lambda>r. cr_customer_id r \<in> own_ids 20 (w_db reader_world)) (t_comms_request (w_db reader_world))) rows"
proof -
  let ?i = "\<lparr>id_actor = ''ann'', id_role = COMPLIANCE, id_tenant_id = 1\<rparr>"
  let ?run = "customer_timeline (quiet_env 0) (sample_api ''ann'' COMPLIANCE) ?i 20 reader_world :: (unit + api_page response) \<times> pool_world"
  have "wp (customer_timeline (quiet_env 0) (sample_api ''ann'' COMPLIANCE) ?i 20 :: (pool_world, unit, api_page response) io)
      (\<lambda>resp _. \<exists>rows. resp = Page (CommsJson rows) \<and> newest_of 200 (filter (\<lambda>r. cr_customer_id r \<in> own_ids 20 (w_db reader_world))
         (t_comms_request (w_db reader_world))) rows) (\<lambda>_ _. False) reader_world"
    by (rule listings_show_the_newest [THEN conjunct2, THEN conjunct1]) simp_all
  then show ?thesis by (cases ?run; cases "fst ?run") (auto simp: wp_def)
qed

end
