(* ===== verification/Template.thy ===== *)
theory Template
  imports Command
begin

text \<open>
  Message templates (\<open>template/render.rs\<close>, \<open>repo.rs\<close>, \<open>approve.rs\<close>): the substitution of
  variables into a body, the table of approved versions, which is append-only, and the
  operator's commands on it.

  A Rust \<open>str\<close> is the list of its UTF-8 bytes; \<open>trim\<close> removes the code points with the Unicode
  property \<open>White_Space\<close> at both ends, which \<open>ws_prefix\<close> recognises in their encoded form.
\<close>

section \<open>Strings\<close>

text \<open>\<open>str::find\<close> of a two-character pattern: the text before the first occurrence and the text
  after it.\<close>

fun find2 :: "char \<Rightarrow> char \<Rightarrow> string \<Rightarrow> (string \<times> string) option" where
  "find2 a b (x # y # r) = (if x = a \<and> y = b then Some ([], r)
     else map_option (\<lambda>(p, q). (x # p, q)) (find2 a b (y # r)))"
| "find2 a b _ = None"

text \<open>The number of bytes of the white-space character a text starts with, 0 if it starts with
  none: U+0009 to U+000D, U+0020, U+0085, U+00A0, U+1680, U+2000 to U+200A, U+2028, U+2029,
  U+202F, U+205F, U+3000.\<close>

definition ws_len :: "nat list \<Rightarrow> nat" where
  "ws_len bs = (case bs of
      a # r \<Rightarrow>
        if (9 \<le> a \<and> a \<le> 13) \<or> a = 32 then 1
        else (case r of
          b # r' \<Rightarrow>
            if a = 194 \<and> (b = 133 \<or> b = 160) then 2
            else (case r' of
              c # _ \<Rightarrow>
                if (a = 225 \<and> b = 154 \<and> c = 128)
                 \<or> (a = 226 \<and> b = 128 \<and> (128 \<le> c \<and> c \<le> 138 \<or> c = 168 \<or> c = 169 \<or> c = 175))
                 \<or> (a = 226 \<and> b = 129 \<and> c = 159)
                 \<or> (a = 227 \<and> b = 128 \<and> c = 128) then 3 else 0
            | [] \<Rightarrow> 0)
        | [] \<Rightarrow> 0)
    | [] \<Rightarrow> 0)"

definition ws_prefix :: "string \<Rightarrow> nat" where
  "ws_prefix s = ws_len (map of_char s)"

text \<open>At the end of a text the last character is found by its last one, two or three bytes.\<close>

definition ws_suffix :: "string \<Rightarrow> nat" where
  "ws_suffix s = (let at = \<lambda>k. k \<le> length s \<and> ws_prefix (drop (length s - k) s) = k in
     if at 1 then 1 else if at 2 then 2 else if at 3 then 3 else 0)"

function trim_start :: "string \<Rightarrow> string" where
  "trim_start s = (if ws_prefix s = 0 then s else trim_start (drop (ws_prefix s) s))"
  by auto
termination
proof (relation "measure length")
  fix s assume "ws_prefix s \<noteq> 0"
  then have "s \<noteq> []" by (auto simp: ws_prefix_def ws_len_def)
  with \<open>ws_prefix s \<noteq> 0\<close> show "(drop (ws_prefix s) s, s) \<in> measure length" by simp
qed simp

function trim_end :: "string \<Rightarrow> string" where
  "trim_end s = (if ws_suffix s = 0 then s else trim_end (take (length s - ws_suffix s) s))"
  by auto
termination
proof (relation "measure length")
  fix s assume "ws_suffix s \<noteq> 0"
  then have "s \<noteq> []" by (auto simp: ws_suffix_def Let_def ws_prefix_def ws_len_def split: if_splits)
  with \<open>ws_suffix s \<noteq> 0\<close> show "(take (length s - ws_suffix s) s, s) \<in> measure length" by (cases s) auto
qed simp

declare trim_start.simps [simp del] trim_end.simps [simp del]

definition trim :: "string \<Rightarrow> string" where
  "trim s = trim_end (trim_start s)"

section \<open>Rendering\<close>

datatype render_error = MissingVariable string | UnterminatedPlaceholder string

lemma find2_length: "find2 a b s = Some (p, q) \<Longrightarrow> length q + 2 \<le> length s"
  by (induction a b s arbitrary: p rule: find2.induct) (auto split: if_splits)

text \<open>The loop of \<open>render\<close>; the accumulator is \<open>result\<close>.\<close>

function render_loop :: "(string \<Rightarrow> string option) \<Rightarrow> string \<Rightarrow> string \<Rightarrow> render_error + string" where
  "render_loop variables result rest =
    (case find2 (CHR ''{'') (CHR ''{'') rest of
       None \<Rightarrow> Inr (result @ rest)
     | Some (before, after_open) \<Rightarrow>
        (case find2 (CHR ''}'') (CHR ''}'') after_open of
           None \<Rightarrow> Inl (UnterminatedPlaceholder (''{{'' @ after_open))
         | Some (raw, rest') \<Rightarrow>
            (case variables (trim raw) of
               None \<Rightarrow> Inl (MissingVariable (trim raw))
             | Some v \<Rightarrow> render_loop variables (result @ before @ v) rest')))"
  by pat_completeness auto
termination
  by (relation "measure (\<lambda>(_, _, r). length r)") (auto dest!: find2_length)

declare render_loop.simps [simp del]

definition render :: "string \<Rightarrow> (string \<Rightarrow> string option) \<Rightarrow> render_error + string" where
  "render body variables = render_loop variables [] body"


section \<open>Approved templates\<close>

definition template_key :: "template_row \<Rightarrow> string \<times> int \<times> string" where
  "template_key t = (te_template_id t, te_version t, te_locale t)"

definition template_at :: "string \<Rightarrow> int \<Rightarrow> string \<Rightarrow> tenant_db \<Rightarrow> template_row option" where
  "template_at template_id version locale d =
     find_row (\<lambda>t. template_key t = (template_id, version, locale)) (t_template d)"

definition find_template :: "env \<Rightarrow> string \<Rightarrow> int \<Rightarrow> string \<Rightarrow> ('z world_scheme, sqlx_error, template_row option) io" where
  "find_template E template_id version locale = query E (\<lambda>_. template_at template_id version locale)"

text \<open>\<open>ORDER BY version, locale\<close>; the collation of the locale column is a parameter.\<close>

definition list_versions :: "env \<Rightarrow> (string \<Rightarrow> 'k :: linorder) \<Rightarrow> string \<Rightarrow> ('z world_scheme, sqlx_error, template_row list) io" where
  "list_versions E collate template_id = query E (\<lambda>_ d.
     sort_key te_version (sort_key (\<lambda>t. collate (te_locale t)) (filter (\<lambda>t. te_template_id t = template_id) (t_template d))))"

definition add_template :: "template_row \<Rightarrow> tenant_db \<Rightarrow> bool \<times> tenant_db" where
  "add_template t d = (template_key t \<notin> template_key ` set (t_template d),
     d\<lparr>t_template := ins_ignore template_key t (t_template d)\<rparr>)"

definition insert_template :: "env \<Rightarrow> string \<Rightarrow> int \<Rightarrow> string \<Rightarrow> string \<Rightarrow> string \<Rightarrow> string \<Rightarrow> timestamp
    \<Rightarrow> ('z world_scheme, sqlx_error, bool) io" where
  "insert_template E template_id version channel locale body approved_by approved_at = stmt E (\<lambda>_ d.
     Inr (add_template \<lparr>te_template_id = template_id, te_version = version, te_channel = channel,
       te_locale = locale, te_body = body, te_approved_by = approved_by, te_approved_at = approved_at\<rparr> d))"

section \<open>Commands\<close>

datatype approve_error = ApproveDatabase sqlx_error | ApproveRejected string | ApproveRender render_error

definition approve_audit :: "env \<Rightarrow> string \<Rightarrow> uuid option \<Rightarrow> string \<Rightarrow> int \<Rightarrow> string \<Rightarrow> string \<Rightarrow> string
    \<Rightarrow> ('z world_scheme, sqlx_error, unit) io" where
  "approve_audit E actor tenant_id template_id version channel locale outcome =
     audit_record E actor ''template.approve'' tenant_id
       [(''template_id'', JStr template_id), (''version'', JInt version), (''channel'', JStr channel),
        (''locale'', JStr locale), (''outcome'', JStr outcome)]"

definition approve_template_inner :: "env \<Rightarrow> uuid \<Rightarrow> string \<Rightarrow> int \<Rightarrow> string \<Rightarrow> string \<Rightarrow> string \<Rightarrow> string
    \<Rightarrow> ('z world_scheme, approve_error, string) io" where
  "approve_template_inner E tenant_id template_id version channel locale body actor =
     bindE (utc_now E) (\<lambda>now.
     bindE (map_err ApproveDatabase (insert_template E template_id version channel locale body actor now)) (\<lambda>inserted.
     if \<not> inserted then
       thenE (map_err ApproveDatabase (approve_audit E actor (Some tenant_id) template_id version channel locale ''rejected''))
         (throw (ApproveRejected ''already approved''))
     else
       thenE (map_err ApproveDatabase (approve_audit E actor (Some tenant_id) template_id version channel locale ''created''))
         (ret ''created'')))"

text \<open>An unknown slug is a rejection of this command, not a database error.\<close>

definition approve_template :: "env \<Rightarrow> sqlx_error + unit \<Rightarrow> string \<Rightarrow> string \<Rightarrow> int \<Rightarrow> string \<Rightarrow> string \<Rightarrow> string
    \<Rightarrow> string \<Rightarrow> ('z world_scheme, approve_error, string) io" where
  "approve_template E parsed tenant_slug template_id version channel locale body actor =
     bindE (map_err ApproveDatabase (find_by_slug E tenant_slug)) (\<lambda>found.
     case found of
       None \<Rightarrow>
        thenE (map_err ApproveDatabase (approve_audit E actor None template_id version channel locale ''rejected''))
          (throw (ApproveRejected ''no tenant registered with slug''))
     | Some tenant \<Rightarrow>
        thenE (map_err ApproveDatabase (connect_tenant_pool E parsed (tn_id tenant) (tn_database_name tenant)))
          (approve_template_inner E (tn_id tenant) template_id version channel locale body actor))"

definition template_tenant :: "env \<Rightarrow> string \<Rightarrow> ('z world_scheme, approve_error, tenant_row) io" where
  "template_tenant E tenant_slug = bindE (map_err ApproveDatabase (find_by_slug E tenant_slug)) (\<lambda>found.
     of_result (ok_or (ApproveRejected ''no tenant registered with slug'') found))"

definition on_template_tenant :: "env \<Rightarrow> sqlx_error + unit \<Rightarrow> string \<Rightarrow> ('z world_scheme, sqlx_error, 'a) io
    \<Rightarrow> ('z world_scheme, approve_error, 'a) io" where
  "on_template_tenant E parsed tenant_slug m = bindE (template_tenant E tenant_slug) (\<lambda>tenant.
     thenE (map_err ApproveDatabase (connect_tenant_pool E parsed (tn_id tenant) (tn_database_name tenant)))
       (map_err ApproveDatabase m))"

definition show_template :: "env \<Rightarrow> sqlx_error + unit \<Rightarrow> string \<Rightarrow> string \<Rightarrow> int \<Rightarrow> string
    \<Rightarrow> ('z world_scheme, approve_error, template_row option) io" where
  "show_template E parsed tenant_slug template_id version locale =
     on_template_tenant E parsed tenant_slug (find_template E template_id version locale)"

definition list_template_versions :: "env \<Rightarrow> (string \<Rightarrow> 'k :: linorder) \<Rightarrow> sqlx_error + unit \<Rightarrow> string \<Rightarrow> string
    \<Rightarrow> ('z world_scheme, approve_error, template_row list) io" where
  "list_template_versions E collate parsed tenant_slug template_id =
     on_template_tenant E parsed tenant_slug (list_versions E collate template_id)"

definition render_preview :: "env \<Rightarrow> sqlx_error + unit \<Rightarrow> string \<Rightarrow> string \<Rightarrow> int \<Rightarrow> string
    \<Rightarrow> (string \<Rightarrow> string option) \<Rightarrow> ('z world_scheme, approve_error, string) io" where
  "render_preview E parsed tenant_slug template_id version locale variables =
     bindE (on_template_tenant E parsed tenant_slug (find_template E template_id version locale)) (\<lambda>found.
     case found of
       None \<Rightarrow> throw (ApproveRejected ''no such template'')
     | Some t \<Rightarrow> of_result (map_sum ApproveRender id (render (te_body t) variables)))"

section \<open>A reference for rendering\<close>

text \<open>A body is literals and placeholders in turn, then a tail.  No literal runs into an opening
  pair of braces before its own, no placeholder into a closing pair before its own, and the
  tail opens nothing, or opens a placeholder that never closes.\<close>

definition unparse :: "(string \<times> string) list \<Rightarrow> string \<Rightarrow> string" where
  "unparse segs tail = concat (map (\<lambda>(lit, raw). lit @ ''{{'' @ raw @ ''}}'') segs) @ tail"

definition runs_clear :: "char \<Rightarrow> string \<Rightarrow> bool" where
  "runs_clear a s \<longleftrightarrow> find2 a a (s @ [a]) = None"

definition decomposes :: "string \<Rightarrow> (string \<times> string) list \<Rightarrow> string \<Rightarrow> string option \<Rightarrow> bool" where
  "decomposes body segs tail unclosed \<longleftrightarrow>
     list_all (\<lambda>(lit, raw). runs_clear (CHR ''{'') lit \<and> runs_clear (CHR ''}'') raw) segs
   \<and> (case unclosed of
        None \<Rightarrow> find2 (CHR ''{'') (CHR ''{'') tail = None \<and> body = unparse segs tail
      | Some rest \<Rightarrow> runs_clear (CHR ''{'') tail \<and> find2 (CHR ''}'') (CHR ''}'') rest = None
          \<and> body = unparse segs (tail @ ''{{'' @ rest))"

text \<open>The first placeholder without a value is reported; if all have one, an unclosed placeholder
  is; otherwise every placeholder is replaced, once, by its value.\<close>

definition substituted :: "(string \<Rightarrow> string option) \<Rightarrow> (string \<times> string) list \<Rightarrow> string \<Rightarrow> string option
    \<Rightarrow> render_error + string" where
  "substituted variables segs tail unclosed =
     (case List.find (\<lambda>(lit, raw). variables (trim raw) = None) segs of
        Some (lit, raw) \<Rightarrow> Inl (MissingVariable (trim raw))
      | None \<Rightarrow> (case unclosed of
          Some rest \<Rightarrow> Inl (UnterminatedPlaceholder (''{{'' @ rest))
        | None \<Rightarrow> Inr (concat (map (\<lambda>(lit, raw). lit @ the (variables (trim raw))) segs) @ tail)))"

lemma find2_split: "find2 a b s = Some (p, q) \<Longrightarrow> s = p @ a # b # q"
  by (induction a b s arbitrary: p rule: find2.induct) (auto split: if_splits)

lemma find2_runs_clear: "find2 a a s = Some (p, q) \<Longrightarrow> runs_clear a p"
proof (induction s arbitrary: p)
  case (Cons x s)
  show ?case
  proof (cases s)
    case (Cons y r)
    show ?thesis
    proof (cases "x = a \<and> y = a")
      case True
      with Cons.prems \<open>s = y # r\<close> show ?thesis by (simp add: runs_clear_def)
    next
      case False
      with Cons.prems \<open>s = y # r\<close> obtain p' where p': "find2 a a s = Some (p', q)" "p = x # p'" by auto
      then have "find2 a a (p' @ [a]) = None" using Cons.IH by (simp add: runs_clear_def)
      moreover have "hd (p' @ [a]) = y" using find2_split [OF p'(1)] \<open>s = y # r\<close> by (cases p') auto
      ultimately show ?thesis using False p'(2) by (cases p') (auto simp: runs_clear_def)
    qed
  qed (use Cons.prems in simp)
qed simp

lemma find2_at: "runs_clear a p \<Longrightarrow> find2 a a (p @ a # a # q) = Some (p, q)"
proof (induction p)
  case (Cons x p)
  then show ?case by (cases p) (auto simp: runs_clear_def split: if_splits)
qed simp

lemma decomposes_Nil:
  "decomposes body [] tail None \<longleftrightarrow> find2 (CHR ''{'') (CHR ''{'') tail = None \<and> body = tail"
  "decomposes body [] tail (Some rest) \<longleftrightarrow> runs_clear (CHR ''{'') tail
     \<and> find2 (CHR ''}'') (CHR ''}'') rest = None \<and> body = tail @ ''{{'' @ rest"
  by (auto simp: decomposes_def unparse_def)

lemma decomposes_Cons:
  "decomposes body ((lit, raw) # segs) tail unclosed \<longleftrightarrow> runs_clear (CHR ''{'') lit \<and> runs_clear (CHR ''}'') raw
     \<and> (\<exists>rest. body = lit @ ''{{'' @ raw @ ''}}'' @ rest \<and> decomposes rest segs tail unclosed)"
  by (auto simp: decomposes_def unparse_def split: option.splits)

lemma render_loop_substitutes:
  "decomposes body segs tail unclosed \<Longrightarrow>
   render_loop variables acc body = map_sum id ((@) acc) (substituted variables segs tail unclosed)"
proof (induction segs arbitrary: acc body)
  case Nil
  then show ?case
    by (cases unclosed) (auto simp: decomposes_Nil substituted_def render_loop.simps find2_at)
next
  case (Cons seg segs)
  obtain lit raw where seg: "seg = (lit, raw)" by (cases seg)
  with Cons.prems obtain rest where r: "runs_clear (CHR ''{'') lit" "runs_clear (CHR ''}'') raw"
      "body = lit @ ''{{'' @ raw @ ''}}'' @ rest" "decomposes rest segs tail unclosed"
    by (auto simp: decomposes_Cons)
  have "render_loop variables acc body = (case variables (trim raw) of
      None \<Rightarrow> Inl (MissingVariable (trim raw)) | Some v \<Rightarrow> render_loop variables (acc @ lit @ v) rest)"
    using r by (subst render_loop.simps) (simp add: find2_at)
  then show ?case
    using Cons.IH [OF r(4)] seg
    by (cases "substituted variables segs tail unclosed")
      (auto simp: substituted_def split: option.splits)
qed

lemma decomposition_exists: "\<exists>segs tail unclosed. decomposes body segs tail unclosed"
proof (induction body rule: length_induct)
  case (1 body)
  show ?case
  proof (cases "find2 (CHR ''{'') (CHR ''{'') body")
    case None
    then show ?thesis using decomposes_Nil(1) by blast
  next
    case (Some pq)
    then obtain lit after_open where f: "find2 (CHR ''{'') (CHR ''{'') body = Some (lit, after_open)" by (cases pq) auto
    note lit = find2_runs_clear [OF f] find2_split [OF f]
    show ?thesis
    proof (cases "find2 (CHR ''}'') (CHR ''}'') after_open")
      case None
      with lit have "decomposes body [] lit (Some after_open)" by (simp add: decomposes_Nil)
      then show ?thesis by blast
    next
      case (Some rq)
      then obtain raw rest where g: "find2 (CHR ''}'') (CHR ''}'') after_open = Some (raw, rest)" by (cases rq) auto
      have "length rest < length body" using find2_length [OF f] find2_length [OF g] by simp
      with 1 obtain segs tail unclosed where "decomposes rest segs tail unclosed" by blast
      with lit find2_runs_clear [OF g] find2_split [OF g]
      have "decomposes body ((lit, raw) # segs) tail unclosed" by (auto simp: decomposes_Cons)
      then show ?thesis by blast
    qed
  qed
qed


section \<open>Properties\<close>

text \<open>C38: Rendering substitutes each placeholder once.  Every body is, in a unique way as far as the result
  goes, literals and placeholders in turn followed by a tail; rendering replaces each
  placeholder by the value of its trimmed name and nothing else (braces inside a value stay
  as they are), fails with the first name that has no value, and otherwise fails on a
  placeholder that is never closed.\<close>

theorem render_substitutes:
  "(\<exists>segs tail unclosed. decomposes body segs tail unclosed)
   \<and> (\<forall>segs tail unclosed. decomposes body segs tail unclosed \<longrightarrow>
        render body variables = substituted variables segs tail unclosed)"
proof -
  have "map_sum id ((@) []) r = r" for r :: "render_error + string" by (cases r) auto
  then show ?thesis
    using decomposition_exists render_loop_substitutes [of body _ _ _ variables "[]"] by (auto simp: render_def)
qed

theorem render_substitutes_witness:
  "render ''Hi {{ name }}!'' [''name'' \<mapsto> ''{{x}}''] = Inr ''Hi {{x}}!''"
proof -
  have "decomposes ''Hi {{ name }}!'' [(''Hi '', '' name '')] ''!'' None"
    by (simp add: decomposes_def unparse_def runs_clear_def)
  moreover have "trim '' name '' = ''name''"
    by (simp add: trim_def trim_start.simps trim_end.simps ws_prefix_def ws_suffix_def ws_len_def Let_def)
  ultimately show ?thesis
    using render_substitutes [of "''Hi {{ name }}!''" "[''name'' \<mapsto> ''{{x}}'']"]
    by (auto simp: substituted_def)
qed

text \<open>An approved row is never touched by another approval.\<close>

lemma add_template_keeps:
  assumes "template_at i v l d = Some t"
  shows "template_at i v l (snd (add_template r d)) = Some t"
    and "template_key r = (i, v, l) \<Longrightarrow> \<not> fst (add_template r d)"
proof -
  show "template_at i v l (snd (add_template r d)) = Some t"
    using assms by (auto simp: template_at_def add_template_def ins_ignore_def find_row_append)
  show "\<not> fst (add_template r d)" if "template_key r = (i, v, l)"
    using that find_row_SomeD [OF assms [unfolded template_at_def]] by (auto simp: add_template_def intro!: rev_image_eqI)
qed

lemma insert_template_keeps:
  assumes "db_stable E (\<lambda>d. template_at i v l d = Some t)" and "template_at i v l (w_db w) = Some t"
  shows "wp (insert_template E i' v' ch l' b by' at')
     (\<lambda>inserted w'. template_at i v l (w_db w') = Some t \<and> (inserted \<longrightarrow> (i', v', l') \<noteq> (i, v, l)))
     (\<lambda>_ w'. template_at i v l (w_db w') = Some t) w"
proof -
  let ?d = "e_interfere E (w_tick w) (w_db w)"
  let ?r = "\<lparr>te_template_id = i', te_version = v', te_channel = ch, te_locale = l', te_body = b,
     te_approved_by = by', te_approved_at = at'\<rparr>"
  obtain x d' where a: "add_template ?r ?d = (x, d')" by (cases "add_template ?r ?d")
  have d: "template_at i v l ?d = Some t" using stableD [OF assms] .
  have "template_key ?r = (i', v', l')" by (simp add: template_key_def)
  with add_template_keeps [OF d, of ?r] a d show ?thesis
    by (auto simp: insert_template_def wp_simps Let_def split: fault.splits)
qed

text \<open>An approved template is final.  While other sessions leave an approved version alone too, no
  approval changes it: approving the same template, version and locale again never returns
  success, and approving anything else leaves it as it is.\<close>

theorem approved_template_is_final:
  assumes "db_stable E (\<lambda>d. template_at i v l d = Some t)" and "template_at i v l (w_db w) = Some t"
  shows "wp (approve_template E parsed slug i' v' ch l' b actor)
     (\<lambda>_ w'. template_at i v l (w_db w') = Some t \<and> (i', v', l') \<noteq> (i, v, l))
     (\<lambda>_ w'. template_at i v l (w_db w') = Some t) w"
proof -
  let ?P = "\<lambda>w'. template_at i v l (w_db w') = Some t"
  have audit: "wp (map_err ApproveDatabase (approve_audit E actor ti i' v' ch l' out)) (\<lambda>_. ?P) (\<lambda>_. ?P) u" if "?P u" for ti out u
    unfolding approve_audit_def by (rule wp_map_errI, rule wp_audit_record_db) (use that in auto)
  have inner: "wp (approve_template_inner E ti i' v' ch l' b actor) (\<lambda>_ w'. ?P w' \<and> (i', v', l') \<noteq> (i, v, l)) (\<lambda>_. ?P) u"
    if "?P u" for ti u
    unfolding approve_template_inner_def wp_bindE [of "utc_now E"] wp_utc_now
    by (rule wp_bindI, rule wp_map_errI, rule insert_template_keeps [OF assms(1)])
      (use that in \<open>auto simp: wp_bindE wp_ret wp_throw intro!: wp_mono [OF audit]\<close>)
  have conn: "wp (map_err ApproveDatabase (connect_tenant_pool E parsed ti db)) (\<lambda>_. ?P) (\<lambda>_. ?P) u" if "?P u" for ti db u
    using that by (auto simp: connect_tenant_pool_def find_by_id_def wp_simps Let_def split: sum.splits option.splits)
  show ?thesis
    unfolding approve_template_def find_by_slug_def
    using assms(2)
    by (auto simp: wp_bindE wp_map_err wp_ctl_query Let_def wp_throw split: option.splits
        intro!: wp_mono [OF audit [unfolded wp_map_err]] wp_mono [OF inner] wp_mono [OF conn [unfolded wp_map_err]])
qed

definition greeting :: template_row where
  "greeting = \<lparr>te_template_id = ''hello'', te_version = 1, te_channel = ''sms'', te_locale = ''en'',
     te_body = ''Hi {{name}}'', te_approved_by = ''ops'', te_approved_at = 0\<rparr>"

theorem approved_template_is_final_witness:
  "wp (approve_template (quiet_env 5) (Inr ()) ''acme'' ''hello'' 1 ''sms'' ''en'' ''other'' ''ops'')
     (\<lambda>_ w'. template_at ''hello'' 1 ''en'' (w_db w') = Some greeting
        \<and> (''hello'', 1 :: int, ''en'') \<noteq> (''hello'', 1, ''en''))
     (\<lambda>_ w'. template_at ''hello'' 1 ''en'' (w_db w') = Some greeting)
     \<lparr>w_db = empty_db\<lparr>t_template := [greeting]\<rparr>, w_ctl = empty_ctl, w_tick = 0\<rparr>"
  by (rule approved_template_is_final)
    (simp_all add: quiet_stable template_at_def greeting_def template_key_def)

end
