(* ===== verification/Ingest.thy ===== *)
theory Ingest
  imports Customer Template Outbox
begin

text \<open>
  The ingest API (\<open>ingest/handler.rs\<close>, \<open>repo.rs\<close>, \<open>model.rs\<close>) and the sweep of its idempotency
  table (\<open>idempotency_sweep.rs\<close>): a request is validated, answered from the idempotency table
  if its key is known, refused while a switch covers it, and otherwise resolved, rendered,
  encrypted and written to the ledger and the queue in one transaction.

  The tenant's context is the record \<open>ingest_context\<close>; its kill-switch cache is the argument
  \<open>switches\<close>, the set it holds when the handler reads it, and its key cache is the world's.
\<close>

section \<open>Requests, errors and replies\<close>

abbreviation (input) TRANSACTIONAL :: string where "TRANSACTIONAL \<equiv> ''transactional''"
abbreviation (input) MARKETING :: string where "MARKETING \<equiv> ''marketing''"
abbreviation (input) AUTH :: string where "AUTH \<equiv> ''auth''"

record create_comms_request =
  rq_customer_id :: "uuid option"
  rq_external_id :: "string option"
  rq_external_id_system :: "string option"
  rq_destination :: string
  rq_channel :: string
  rq_class :: string
  rq_template_id :: string
  rq_template_version :: int
  rq_locale :: "string option"
  rq_campaign_id :: "string option"
  rq_scheduled_for :: "timestamp option"
  rq_expires_at :: "timestamp option"
  rq_variables :: "string \<Rightarrow> string option"

datatype ingest_error =
    MissingPeerCertificate
  | UnknownProducer
  | ProducerDisabled
  | TenantNotActive
  | KillSwitchEngaged string
  | TenantNotConfigured
  | MissingIdempotencyKey
  | InvalidClass string
  | InvalidChannel string
  | CampaignIdOnTransactional
  | InvalidResolutionInput
  | ScheduleHorizonExceeded int
  | TemplateNotFound
  | CommsRequestNotFound
  | AlreadySent
  | IngestRender render_error
  | IngestDatabase sqlx_error
  | IngestEncryption encryption_error
  | IngestVault keystore_error

primrec ingest_of_resolve :: "resolve_error \<Rightarrow> ingest_error" where
  "ingest_of_resolve (ResolveDatabase e) = IngestDatabase e"
| "ingest_of_resolve (ResolveVault e) = IngestVault e"
| "ingest_of_resolve (ResolveEncryption e) = IngestEncryption e"

primrec ingest_of_dek :: "dek_error \<Rightarrow> ingest_error" where
  "ingest_of_dek (DekDatabase e) = IngestDatabase e"
| "ingest_of_dek (DekVault e) = IngestVault e"
| "ingest_of_dek DekPanic = IngestDatabase (Panic ''get_or_create_dek'')"

fun ingest_status :: "ingest_error \<Rightarrow> nat" where
  "ingest_status UnknownProducer = 403"
| "ingest_status ProducerDisabled = 403"
| "ingest_status TenantNotActive = 403"
| "ingest_status (KillSwitchEngaged _) = 503"
| "ingest_status MissingIdempotencyKey = 400"
| "ingest_status (InvalidClass _) = 422"
| "ingest_status (InvalidChannel _) = 422"
| "ingest_status CampaignIdOnTransactional = 422"
| "ingest_status InvalidResolutionInput = 422"
| "ingest_status (ScheduleHorizonExceeded _) = 422"
| "ingest_status TemplateNotFound = 404"
| "ingest_status CommsRequestNotFound = 404"
| "ingest_status AlreadySent = 409"
| "ingest_status TenantNotConfigured = 424"
| "ingest_status _ = 500"

section \<open>Validation\<close>

definition validate_channel :: "string \<Rightarrow> ingest_error + unit" where
  "validate_channel v = (if v = ''sms'' \<or> v = ''email'' \<or> v = ''whatsapp'' then Inr () else Inl (InvalidChannel v))"

definition validate_class :: "string \<Rightarrow> string option \<Rightarrow> ingest_error + unit" where
  "validate_class v campaign_id =
     (if v = TRANSACTIONAL \<and> campaign_id \<noteq> None then Inl CampaignIdOnTransactional
      else if v = TRANSACTIONAL \<or> v = MARKETING then Inr ()
      else Inl (InvalidClass v))"

definition build_resolution_input :: "create_comms_request \<Rightarrow> ingest_error + resolution_input" where
  "build_resolution_input body =
     (case (rq_customer_id body, rq_external_id body, rq_external_id_system body) of
        (Some i, None, None) \<Rightarrow> Inr (Explicit i)
      | (None, Some external_id, Some system) \<Rightarrow> Inr (External system external_id)
      | (None, None, None) \<Rightarrow> Inr AddressOnly
      | _ \<Rightarrow> Inl InvalidResolutionInput)"

definition validate_schedule :: "env \<Rightarrow> timestamp option \<Rightarrow> int \<Rightarrow> ('z world_scheme, ingest_error, unit) io" where
  "validate_schedule E scheduled_for horizon_days =
     (case scheduled_for of
        None \<Rightarrow> ret ()
      | Some at \<Rightarrow> bindE (utc_now E) (\<lambda>now.
          if now + days horizon_days < at then throw (ScheduleHorizonExceeded horizon_days) else ret ()))"

section \<open>The ledger and queue write\<close>

abbreviation (input) IDEMPOTENCY_TTL_DAYS :: int where "IDEMPOTENCY_TTL_DAYS \<equiv> 30"

definition idempotency_key :: "idempotency_row \<Rightarrow> uuid \<times> string" where
  "idempotency_key r = (ik_producer_id r, ik_key r)"

definition reply :: "uuid \<Rightarrow> string \<Rightarrow> tenant_db \<Rightarrow> uuid option" where
  "reply producer_id key d =
     map_option ik_comms_request_id (find_row (\<lambda>r. idempotency_key r = (producer_id, key)) (t_idempotency d))"

definition find_idempotent_reply :: "env \<Rightarrow> uuid \<Rightarrow> string \<Rightarrow> ('z world_scheme, sqlx_error, uuid option) io" where
  "find_idempotent_reply E producer_id key = query E (\<lambda>_. reply producer_id key)"

datatype insert_outcome = Created | Replayed uuid

text \<open>The three inserts of the transaction; a taken key leaves the database alone.\<close>

definition claim_and_insert :: "idempotency_row \<Rightarrow> comms_request_row \<Rightarrow> outbox_row \<Rightarrow> tenant_db
    \<Rightarrow> sqlx_error + bool \<times> tenant_db" where
  "claim_and_insert ik cr ob d =
     (if reply (ik_producer_id ik) (ik_key ik) d \<noteq> None then Inr (False, d)
      else case ins_pk ''comms_request_pkey'' request_key cr (t_comms_request d) of
        Inl e \<Rightarrow> Inl e
      | Inr requests \<Rightarrow>
         (case ins_pk ''outbox_pkey'' ob_comms_request_id ob (t_outbox d) of
            Inl e \<Rightarrow> Inl e
          | Inr queue \<Rightarrow> Inr (True, d\<lparr>t_idempotency := t_idempotency d @ [ik], t_comms_request := requests,
               t_outbox := queue\<rparr>)))"

definition insert_transactional :: "env \<Rightarrow> string \<Rightarrow> uuid \<Rightarrow> uuid \<Rightarrow> uuid \<Rightarrow> string \<Rightarrow> string \<Rightarrow> int \<Rightarrow> string \<Rightarrow> int
    \<Rightarrow> string option \<Rightarrow> bytes \<Rightarrow> bytes \<Rightarrow> bytes \<Rightarrow> uuid \<Rightarrow> uuid \<Rightarrow> timestamp option \<Rightarrow> timestamp option
    \<Rightarrow> ('z world_scheme, sqlx_error, insert_outcome) io" where
  "insert_transactional E key i tenant_id customer_id channel cls priority template_id template_version campaign_id
       dst_hmac destination_ciphertext payload_ciphertext producer_id address_id scheduled_for expires_at =
     bindE (utc_now E) (\<lambda>now.
     let ik = \<lparr>ik_producer_id = producer_id, ik_key = key, ik_comms_request_id = i,
           ik_expires_at = now + days IDEMPOTENCY_TTL_DAYS\<rparr>;
         cr = \<lparr>cr_tenant_id = tenant_id, cr_id = i, cr_created_at = now, cr_customer_id = customer_id,
           cr_channel = channel, cr_class = cls, cr_template_id = template_id, cr_template_version = template_version,
           cr_campaign_id = campaign_id, cr_destination_hmac = dst_hmac,
           cr_destination_ciphertext = destination_ciphertext, cr_payload_ciphertext = Some payload_ciphertext,
           cr_producer_id = producer_id, cr_scheduled_for = scheduled_for, cr_expires_at = expires_at,
           cr_final_status = None, cr_finalized_at = None\<rparr>;
         ob = \<lparr>ob_comms_request_id = i, ob_created_at = now, ob_channel = channel, ob_class = cls,
           ob_priority = priority, ob_customer_id = customer_id, ob_address_id = address_id,
           ob_producer_id = producer_id, ob_campaign_id = campaign_id,
           ob_next_attempt_at = (case scheduled_for of None \<Rightarrow> now | Some at \<Rightarrow> at), ob_expires_at = expires_at,
           ob_cancelled_at = None, ob_attempts = 0, ob_leased_until = None\<rparr>
     in bindE (stmt E (\<lambda>_. claim_and_insert ik cr ob)) (\<lambda>claimed.
        if claimed then ret Created
        else bindE (bindE (find_idempotent_reply E producer_id key) (expect_row ''row after lost claim''))
               (\<lambda>existing. ret (Replayed existing))))"

datatype cancel_outcome = Cancelled | CancelAlreadySent | CancelNotFound

text \<open>The queue row is marked if it is still there; a row that left the queue is judged by its
  ledger entry.\<close>

definition mark_cancelled :: "timestamp \<Rightarrow> uuid \<Rightarrow> uuid \<Rightarrow> tenant_db \<Rightarrow> bool \<times> tenant_db" where
  "mark_cancelled now i producer_id d =
    (let hit = \<lambda>r. ob_comms_request_id r = i \<and> ob_producer_id r = producer_id in
     (\<exists>r \<in> set (t_outbox d). hit r,
      d\<lparr>t_outbox := upd_where hit (\<lambda>r. r\<lparr>ob_cancelled_at :=
          (case ob_cancelled_at r of None \<Rightarrow> Some now | Some t \<Rightarrow> Some t)\<rparr>) (t_outbox d)\<rparr>))"

definition cancel :: "env \<Rightarrow> uuid \<Rightarrow> uuid \<Rightarrow> ('z world_scheme, sqlx_error, cancel_outcome) io" where
  "cancel E i producer_id =
     bindE (stmt E (\<lambda>n d. Inr (mark_cancelled (e_clock E n) i producer_id d))) (\<lambda>matched.
     if matched then ret Cancelled
     else bindE (query E (\<lambda>_ d. find_row (\<lambda>r. cr_id r = i \<and> cr_producer_id r = producer_id) (t_comms_request d))) (\<lambda>found.
       ret (case (case found of None \<Rightarrow> None | Some r \<Rightarrow> cr_final_status r) of
              Some s \<Rightarrow> if s = ''cancelled'' then Cancelled else CancelAlreadySent
            | None \<Rightarrow> CancelNotFound)))"

section \<open>The handlers\<close>

record 'c ingest_context =
  ic_tenant :: tenant_row
  ic_config :: tenant_config
  ic_pepper :: bytes
  ic_lru :: "'c lru"
  ic_keystore :: keystore
  ic_crypto :: crypto
  ic_uuid :: uuid_parser

abbreviation ic_mount :: "'c ingest_context \<Rightarrow> string" where
  "ic_mount cx \<equiv> tn_vault_mount (ic_tenant cx)"

text \<open>\<open>ok_or_else\<close> on the header: absent, unreadable and empty keys are all missing.\<close>

definition header_key :: "string option \<Rightarrow> ingest_error + string" where
  "header_key header = (case header of None \<Rightarrow> Inl MissingIdempotencyKey
     | Some v \<Rightarrow> if v = [] then Inl MissingIdempotencyKey else Inr v)"

text \<open>The first half of \<open>create_comms\<close>: everything that can refuse a request without touching a
  database.\<close>

definition validate_request :: "env \<Rightarrow> 'c ingest_context \<Rightarrow> string option \<Rightarrow> create_comms_request
    \<Rightarrow> ('z world_scheme, ingest_error, string \<times> resolution_input) io" where
  "validate_request E cx header body =
     bindE (of_result (header_key header)) (\<lambda>key.
     thenE (of_result (validate_channel (rq_channel body)))
     (thenE (of_result (validate_class (rq_class body) (rq_campaign_id body)))
     (bindE (of_result (build_resolution_input body)) (\<lambda>input.
      thenE (validate_schedule E (rq_scheduled_for body) (tc_schedule_horizon_days (ic_config cx)))
        (ret (key, input))))))"

text \<open>The second half, for a new key that no switch covers.\<close>

definition accept_request :: "env \<Rightarrow> 'c ingest_context \<Rightarrow> uuid \<Rightarrow> create_comms_request \<Rightarrow> string \<Rightarrow> resolution_input
    \<Rightarrow> (('c, 'z) key_world_scheme, ingest_error, nat \<times> uuid) io" where
  "accept_request E cx producer_id body key input =
     bindE (map_err ingest_of_resolve (resolve (ic_lru cx) E (ic_keystore cx) (ic_crypto cx) (ic_mount cx) (ic_pepper cx)
        input (rq_destination body) (rq_channel body)
        (tc_default_locale (ic_config cx)) (tc_default_timezone (ic_config cx)))) (\<lambda>resolved.
     let locale = (case rq_locale body of Some l \<Rightarrow> l | None \<Rightarrow>
           (case re_locale resolved of Some l \<Rightarrow> l | None \<Rightarrow> tc_default_locale (ic_config cx))) in
     bindE (bindE (map_err IngestDatabase (find_template E (rq_template_id body) (rq_template_version body) locale))
        (\<lambda>found. of_result (ok_or TemplateNotFound found))) (\<lambda>template.
     bindE (of_result (map_sum IngestRender id (render (te_body template) (rq_variables body)))) (\<lambda>rendered_body.
     bindE (map_err ingest_of_dek (get_or_create_dek (ic_lru cx) E (ic_keystore cx) (ic_mount cx) (re_customer_id resolved))) (\<lambda>dek.
     bindE (new_uuid E) (\<lambda>i.
     let aad = cy_uuid_bytes (ic_crypto cx) i in
     bindE (map_err IngestEncryption (encrypt (ic_crypto cx) E dek aad (as_bytes (rq_destination body)))) (\<lambda>destination_ciphertext.
     bindE (map_err IngestEncryption (encrypt (ic_crypto cx) E dek aad (as_bytes rendered_body))) (\<lambda>payload_ciphertext.
     bindE (map_err IngestDatabase (insert_transactional E key i (tn_id (ic_tenant cx)) (re_customer_id resolved)
        (rq_channel body) (rq_class body) (if rq_class body = MARKETING then 2 else 1)
        (rq_template_id body) (rq_template_version body) (rq_campaign_id body)
        (destination_hmac (ic_crypto cx) (ic_pepper cx) (rq_destination body))
        destination_ciphertext payload_ciphertext producer_id (re_address_id resolved)
        (rq_scheduled_for body) (rq_expires_at body))) (\<lambda>outcome.
     ret (case outcome of Created \<Rightarrow> (201, i) | Replayed existing \<Rightarrow> (200, existing))))))))))"

definition create_comms :: "env \<Rightarrow> 'c ingest_context \<Rightarrow> active_set \<Rightarrow> uuid \<Rightarrow> string option \<Rightarrow> create_comms_request
    \<Rightarrow> (('c, 'z) key_world_scheme, ingest_error, nat \<times> uuid) io" where
  "create_comms E cx switches producer_id header body =
     bindE (validate_request E cx header body) (\<lambda>(key, input).
     bindE (map_err IngestDatabase (find_idempotent_reply E producer_id key)) (\<lambda>known.
     case known of
       Some existing \<Rightarrow> ret (200, existing)
     | None \<Rightarrow>
        (case blocking_scope (ic_uuid cx) switches (rq_channel body) producer_id (rq_campaign_id body) of
           Some scope \<Rightarrow> throw (KillSwitchEngaged scope)
         | None \<Rightarrow> accept_request E cx producer_id body key input)))"

definition cancel_comms :: "env \<Rightarrow> uuid \<Rightarrow> uuid \<Rightarrow> ('z world_scheme, ingest_error, nat) io" where
  "cancel_comms E producer_id i =
     bindE (map_err IngestDatabase (cancel E i producer_id)) (\<lambda>outcome.
     case outcome of
       Cancelled \<Rightarrow> ret 204
     | CancelAlreadySent \<Rightarrow> throw AlreadySent
     | CancelNotFound \<Rightarrow> throw CommsRequestNotFound)"

section \<open>The sweep\<close>

datatype sweep_error = SweepDatabase sqlx_error | SweepUnknownTenant string

definition sweep :: "env \<Rightarrow> timestamp \<Rightarrow> ('z world_scheme, sweep_error, nat) io" where
  "sweep E as_of = map_err SweepDatabase (stmt E (\<lambda>_ d.
     Inr (length (filter (\<lambda>r. ik_expires_at r \<le> as_of) (t_idempotency d)),
          d\<lparr>t_idempotency := del_where (\<lambda>r. ik_expires_at r \<le> as_of) (t_idempotency d)\<rparr>)))"

definition run_sweep_for_tenant :: "env \<Rightarrow> sqlx_error + unit \<Rightarrow> string \<Rightarrow> timestamp
    \<Rightarrow> ('z world_scheme, sweep_error, nat) io" where
  "run_sweep_for_tenant E parsed tenant_slug as_of =
     bindE (bindE (map_err SweepDatabase (find_by_slug E tenant_slug))
       (\<lambda>found. of_result (ok_or (SweepUnknownTenant tenant_slug) found))) (\<lambda>tenant.
     thenE (map_err SweepDatabase (connect_tenant_pool E parsed (tn_id tenant) (tn_database_name tenant)))
       (sweep E as_of))"


section \<open>The transaction\<close>

lemma reply_Some_iff: "reply p k d \<noteq> None \<longleftrightarrow> (p, k) \<in> idempotency_key ` set (t_idempotency d)"
  by (force simp: reply_def find_row_None image_iff)

lemma find_request_append:
  "find_request c i d = None \<Longrightarrow> cr_created_at cr = c \<Longrightarrow> cr_id cr = i \<Longrightarrow>
   find_request c i (d\<lparr>t_comms_request := t_comms_request d @ [cr]\<rparr>) = Some cr"
  by (simp add: find_request_def find_row_append)

text \<open>What the transaction does when it commits, and that it keeps the queue invariant.\<close>

lemma claim_and_insert_effect:
  assumes ok: "queue_ok d" and c: "claim_and_insert ik cr ob d = Inr (b, d')"
    and k: "request_key cr = outbox_key ob" "cr_final_status cr = None"
  shows "queue_ok d'"
    and "b \<Longrightarrow> reply (ik_producer_id ik) (ik_key ik) d' = Some (ik_comms_request_id ik)
       \<and> find_request (ob_created_at ob) (ob_comms_request_id ob) d' = Some cr
       \<and> find_outbox (ob_comms_request_id ob) d' = Some ob"
    and "\<not> b \<Longrightarrow> d' = d \<and> reply (ik_producer_id ik) (ik_key ik) d \<noteq> None"
    and "b \<Longrightarrow> d' = d\<lparr>t_idempotency := t_idempotency d @ [ik], t_comms_request := t_comms_request d @ [cr], t_outbox := t_outbox d @ [ob]\<rparr>"
proof -
  have no: "\<not> b \<Longrightarrow> d' = d \<and> reply (ik_producer_id ik) (ik_key ik) d \<noteq> None"
    using c by (auto simp: claim_and_insert_def ins_pk_def split: if_splits)
  then show "\<not> b \<Longrightarrow> d' = d \<and> reply (ik_producer_id ik) (ik_key ik) d \<noteq> None" .
  have yes: "reply (ik_producer_id ik) (ik_key ik) d = None" "request_key cr \<notin> request_key ` set (t_comms_request d)"
      "ob_comms_request_id ob \<notin> ob_comms_request_id ` set (t_outbox d)"
      "d' = d\<lparr>t_idempotency := t_idempotency d @ [ik], t_comms_request := t_comms_request d @ [cr], t_outbox := t_outbox d @ [ob]\<rparr>"
    if b using c that by (auto simp: claim_and_insert_def ins_pk_def split: if_splits)
  then show "b \<Longrightarrow> d' = d\<lparr>t_idempotency := t_idempotency d @ [ik], t_comms_request := t_comms_request d @ [cr], t_outbox := t_outbox d @ [ob]\<rparr>"
    by blast
  show "queue_ok d'"
  proof (cases b)
    case True
    from yes [OF this] ok k show ?thesis by (auto simp: queue_ok_def)
  qed (use no ok in simp)
  show "reply (ik_producer_id ik) (ik_key ik) d' = Some (ik_comms_request_id ik)
       \<and> find_request (ob_created_at ob) (ob_comms_request_id ob) d' = Some cr
       \<and> find_outbox (ob_comms_request_id ob) d' = Some ob" if b
  proof -
    note y = yes [OF that]
    have "find_row (\<lambda>r. idempotency_key r = (ik_producer_id ik, ik_key ik)) (t_idempotency d) = None"
      using y(1) by (simp add: reply_def)
    moreover have "find_request (ob_created_at ob) (ob_comms_request_id ob) d = None"
      using y(2) k(1) by (force simp: find_request_def find_row_None request_key_def outbox_key_def image_iff)
    moreover have "find_outbox (ob_comms_request_id ob) d = None"
      using y(3) by (force simp: find_outbox_def find_row_None image_iff)
    moreover have "cr_created_at cr = ob_created_at ob" "cr_id cr = ob_comms_request_id ob"
      using k(1) by (simp_all add: request_key_def outbox_key_def)
    ultimately show ?thesis
      unfolding y(4) by (simp add: reply_def idempotency_key_def find_request_def find_outbox_def find_row_append)
  qed
qed

section \<open>The state of a request in progress\<close>

text \<open>A template version's text never changes once it is in the table: approval sets its flag and new
  texts are new versions.\<close>

definition template_text :: "string \<Rightarrow> int \<Rightarrow> string \<Rightarrow> tenant_db \<Rightarrow> bool" where
  "template_text i v txt d \<longleftrightarrow> (\<exists>t \<in> set (t_template d). te_template_id t = i \<and> te_version t = v \<and> te_body t = txt)"

definition texts_extend :: "tenant_db \<Rightarrow> tenant_db \<Rightarrow> bool" where
  "texts_extend d d' \<longleftrightarrow> (\<forall>i v txt. template_text i v txt d \<longrightarrow> template_text i v txt d')"

definition texts_grow :: "env \<Rightarrow> bool" where
  "texts_grow E \<longleftrightarrow> (\<forall>n d. texts_extend d (e_interfere E n d))"

definition onward :: "tenant_db \<Rightarrow> tenant_db \<Rightarrow> bool" where
  "onward d d' \<longleftrightarrow> tables_extend d d' \<and> keys_extend d d' \<and> texts_extend d d'"

lemma onward_refl [simp]: "onward d d"
  by (simp add: onward_def texts_extend_def)

lemma onward_trans: "onward d d' \<Longrightarrow> onward d' d'' \<Longrightarrow> onward d d''"
  by (auto simp: onward_def texts_extend_def intro: tables_extend_trans keys_extend_trans)

definition ing_inv :: "'c lru \<Rightarrow> (string \<Rightarrow> string \<Rightarrow> bytes) \<Rightarrow> string \<Rightarrow> tenant_db \<Rightarrow> ('c, 'z) key_world_scheme \<Rightarrow> bool" where
  "ing_inv L plain mount d0 w \<longleftrightarrow> cust_inv L plain mount d0 w \<and> queue_ok (w_db w)"

lemma ing_inv_tick [simp]: "ing_inv L plain mount d0 (w\<lparr>w_tick := n\<rparr>) = ing_inv L plain mount d0 w"
  by (simp add: ing_inv_def cust_inv_tick)

lemma wp_ing_stmt:
  assumes E: "projection_grows E" "keys_grow E" "texts_grow E" "db_stable E queue_ok" and I: "ing_inv L plain mount d0 w"
    and body: "\<And>d. d = e_interfere E (w_tick w) (w_db w) \<Longrightarrow> customers_ok d \<Longrightarrow> queue_ok d \<Longrightarrow> onward (w_db w) d \<Longrightarrow>
       (case f (w_tick w) d of Inl e \<Rightarrow> R' e
        | Inr (a, d') \<Rightarrow> customers_ok d' \<and> queue_ok d' \<and> onward d d' \<and> Post a d')"
    and io: "R' Io"
  shows "wp (stmt E f) (\<lambda>a w'. ing_inv L plain mount d0 w' \<and> onward (w_db w) (w_db w') \<and> Post a (w_db w'))
     (\<lambda>e w'. R' e \<and> ing_inv L plain mount d0 w') w"
proof -
  let ?d = "e_interfere E (w_tick w) (w_db w)"
  have d: "customers_ok ?d" "queue_ok ?d" "onward (w_db w) ?d"
    using E I by (auto simp: projection_grows_def keys_grow_def texts_grow_def ing_inv_def cust_inv_def stableD onward_def)
  have step: "ing_inv L plain mount d0 (w\<lparr>w_tick := n, w_db := d'\<rparr>)" if "customers_ok d'" "queue_ok d'" "onward ?d d'" for n d'
    using I cust_inv_step [of L plain mount d0 w d' n] onward_trans [OF d(3) that(3)] that by (simp add: ing_inv_def onward_def)
  show ?thesis
    using body [OF refl d] step [OF d(1,2)] step d(3) io
    by (auto simp: wp_simps Let_def split: sum.splits fault.splits intro: onward_trans)
qed

lemma wp_ing_query:
  assumes E: "projection_grows E" "keys_grow E" "texts_grow E" "db_stable E queue_ok" and I: "ing_inv L plain mount d0 w"
  shows "wp (query E f) (\<lambda>a w'. ing_inv L plain mount d0 w' \<and> onward (w_db w) (w_db w') \<and> a = f (w_tick w) (w_db w'))
     (\<lambda>e w'. e = Io \<and> ing_inv L plain mount d0 w') w"
  unfolding query_def by (rule wp_ing_stmt [OF assms]) simp_all

section \<open>Validation touches nothing\<close>

definition refusal :: "ingest_error \<Rightarrow> bool" where
  "refusal e \<longleftrightarrow> e = MissingIdempotencyKey \<or> (\<exists>c. e = InvalidChannel c) \<or> e = CampaignIdOnTransactional
     \<or> (\<exists>c. e = InvalidClass c) \<or> e = InvalidResolutionInput \<or> (\<exists>n. e = ScheduleHorizonExceeded n)"

lemma validate_request_wp:
  "wp (validate_request E cx header body)
     (\<lambda>r w'. (\<exists>n. w' = w\<lparr>w_tick := n\<rparr>) \<and> header = Some (fst r) \<and> fst r \<noteq> [] \<and> validate_channel (rq_channel body) = Inr ()
        \<and> validate_class (rq_class body) (rq_campaign_id body) = Inr () \<and> build_resolution_input body = Inr (snd r))
     (\<lambda>e w'. (\<exists>n. w' = w\<lparr>w_tick := n\<rparr>) \<and> refusal e) w"
proof -
  have same: "\<exists>n. w = w\<lparr>w_tick := n\<rparr>" by (rule exI [of _ "w_tick w"]) simp
  have e: "header_key header = Inl x \<Longrightarrow> refusal x" "validate_channel c = Inl x \<Longrightarrow> refusal x"
      "validate_class cl ci = Inl x \<Longrightarrow> refusal x" "build_resolution_input body = Inl x \<Longrightarrow> refusal x"
      "refusal (ScheduleHorizonExceeded m)" for x c cl ci m
    by (auto simp: header_key_def validate_channel_def validate_class_def build_resolution_input_def refusal_def
        split: option.splits if_splits)
  have h: "header_key header = Inr key \<Longrightarrow> header = Some key \<and> key \<noteq> []" for key
    by (auto simp: header_key_def split: option.splits if_splits)
  show ?thesis
    unfolding validate_request_def validate_schedule_def
    using same h by (auto simp: wp_simps e split: sum.splits option.splits if_splits)
qed

lemma valid_channel_kind: "validate_channel c = Inr () \<Longrightarrow> \<exists>k. kind_for_channel c = Some k"
  by (auto simp: validate_channel_def kind_for_channel_def split: if_splits)


section \<open>Acceptance\<close>

lemma insert_transactional_wp:
  fixes w :: "('c, 'z) key_world_scheme"
  assumes E: "projection_grows E" "keys_grow E" "texts_grow E" "db_stable E queue_ok" "db_stable E (\<lambda>d. reply p key d \<noteq> None)"
    and I: "ing_inv L plain mount d0 w"
  shows "wp (insert_transactional E key i tid c ch cl pri tmpl ver camp h dct pct p aid sched ex)
     (\<lambda>out w'. ing_inv L plain mount d0 w' \<and> onward (w_db w) (w_db w')
        \<and> (case out of
             Created \<Rightarrow> reply p key (w_db w') = Some i \<and> (\<exists>ob cr. find_outbox i (w_db w') = Some ob
               \<and> find_request (ob_created_at ob) i (w_db w') = Some cr
               \<and> ob_channel ob = ch \<and> ob_class ob = cl \<and> ob_priority ob = pri \<and> ob_customer_id ob = c
               \<and> ob_address_id ob = aid \<and> ob_producer_id ob = p \<and> ob_campaign_id ob = camp
               \<and> ob_next_attempt_at ob = (case sched of None \<Rightarrow> ob_created_at ob | Some at \<Rightarrow> at) \<and> ob_expires_at ob = ex
               \<and> ob_cancelled_at ob = None \<and> ob_attempts ob = 0 \<and> ob_leased_until ob = None
               \<and> cr_customer_id cr = c \<and> cr_final_status cr = None \<and> cr_destination_hmac cr = h
               \<and> cr_destination_ciphertext cr = dct \<and> cr_payload_ciphertext cr = Some pct)
           | Replayed j \<Rightarrow> reply p key (w_db w') = Some j))
     (\<lambda>e w'. (\<forall>m. e \<noteq> Panic m) \<and> ing_inv L plain mount d0 w') w"
proof -
  let ?now = "e_clock E (w_tick w)" and ?w = "w\<lparr>w_tick := Suc (w_tick w)\<rparr>"
  define ik where "ik = \<lparr>ik_producer_id = p, ik_key = key, ik_comms_request_id = i, ik_expires_at = ?now + days IDEMPOTENCY_TTL_DAYS\<rparr>"
  define cr where "cr = \<lparr>cr_tenant_id = tid, cr_id = i, cr_created_at = ?now, cr_customer_id = c,
           cr_channel = ch, cr_class = cl, cr_template_id = tmpl, cr_template_version = ver,
           cr_campaign_id = camp, cr_destination_hmac = h,
           cr_destination_ciphertext = dct, cr_payload_ciphertext = Some pct,
           cr_producer_id = p, cr_scheduled_for = sched, cr_expires_at = ex,
           cr_final_status = None, cr_finalized_at = None\<rparr>"
  define ob where "ob = \<lparr>ob_comms_request_id = i, ob_created_at = ?now, ob_channel = ch, ob_class = cl,
           ob_priority = pri, ob_customer_id = c, ob_address_id = aid,
           ob_producer_id = p, ob_campaign_id = camp,
           ob_next_attempt_at = (case sched of None \<Rightarrow> ?now | Some at \<Rightarrow> at), ob_expires_at = ex,
           ob_cancelled_at = None, ob_attempts = 0, ob_leased_until = None\<rparr>"
  have keys: "request_key cr = outbox_key ob" "cr_final_status cr = None"
    by (simp_all add: cr_def ob_def request_key_def outbox_key_def)
  let ?Q = "\<lambda>out (w' :: ('c, 'z) key_world_scheme). ing_inv L plain mount d0 w' \<and> onward (w_db w) (w_db w')
      \<and> (case out of Created \<Rightarrow> reply p key (w_db w') = Some i \<and> find_outbox i (w_db w') = Some ob
            \<and> find_request ?now i (w_db w') = Some cr
         | Replayed j \<Rightarrow> reply p key (w_db w') = Some j)"
  let ?R = "\<lambda>e (w' :: ('c, 'z) key_world_scheme). (\<forall>m. e \<noteq> Panic m) \<and> ing_inv L plain mount d0 w'"
  have tx: "wp (stmt E (\<lambda>_. claim_and_insert ik cr ob)) (\<lambda>b w'. ing_inv L plain mount d0 w' \<and> onward (w_db ?w) (w_db w')
      \<and> (if b then reply p key (w_db w') = Some i \<and> find_outbox i (w_db w') = Some ob \<and> find_request ?now i (w_db w') = Some cr
         else reply p key (w_db w') \<noteq> None)) ?R ?w"
  proof (rule wp_ing_stmt [OF E(1-4)])
    fix d assume d: "customers_ok d" "queue_ok d"
    show "case claim_and_insert ik cr ob d of Inl e \<Rightarrow> \<forall>m. e \<noteq> Panic m
        | Inr (b, d') \<Rightarrow> customers_ok d' \<and> queue_ok d' \<and> onward d d'
           \<and> (if b then reply p key d' = Some i \<and> find_outbox i d' = Some ob \<and> find_request ?now i d' = Some cr
              else reply p key d' \<noteq> None)"
    proof (cases "claim_and_insert ik cr ob d")
      case (Inl e)
      then show ?thesis by (auto simp: claim_and_insert_def ins_pk_def split: if_splits)
    next
      case (Inr bd)
      obtain b d' where bd: "bd = (b, d')" by (cases bd)
      note eff = claim_and_insert_effect [OF d(2) Inr [unfolded bd] keys]
      have same: "t_customer d' = t_customer d" "t_customer_external_id d' = t_customer_external_id d"
          "t_customer_address d' = t_customer_address d" "t_customer_dek d' = t_customer_dek d"
          "t_template d' = t_template d"
        using eff(3,4) by (cases b; simp)+
      then have "customers_ok d'" "onward d d'"
        using d(1) by (simp_all add: customers_ok_def customer_at_def onward_def tables_extend_def keys_extend_def find_dek_row_def
            texts_extend_def template_text_def)
      with eff Inr bd show ?thesis by (auto simp: ik_def ob_def)
    qed
  qed (use I in auto)
  have lost: "wp (bindE (bindE (find_idempotent_reply E p key) (expect_row ''row after lost claim'')) (\<lambda>existing. ret (Replayed existing))) ?Q ?R v"
    if v: "ing_inv L plain mount d0 v" "onward (w_db w) (w_db v)" "reply p key (w_db v) \<noteq> None" for v :: "('c, 'z) key_world_scheme"
  proof -
    let ?d = "e_interfere E (w_tick v) (w_db v)"
    have "wp (query E (\<lambda>_. reply p key)) (\<lambda>_ w'. reply p key (w_db w') \<noteq> None) (\<lambda>_ _. True) v"
      using stableD [OF E(5) v(3)] by (simp add: wp_query Let_def)
    note q = wp_conj [OF wp_ing_query [OF E(1-4) v(1)] this]
    have "wp (bindE (find_idempotent_reply E p key) (expect_row ''row after lost claim''))
        (\<lambda>j w'. ing_inv L plain mount d0 w' \<and> onward (w_db v) (w_db w') \<and> reply p key (w_db w') = Some j) ?R v"
      unfolding find_idempotent_reply_def expect_row_def
      by (rule wp_bindI [OF wp_mono [OF q]], assumption) (auto simp: wp_of_result)
    then show ?thesis
      by (rule wp_bindI) (use v(2) in \<open>auto simp: wp_ret intro: onward_trans\<close>)
  qed
  have "wp (insert_transactional E key i tid c ch cl pri tmpl ver camp h dct pct p aid sched ex) ?Q ?R w"
    unfolding insert_transactional_def wp_bindE [of "utc_now E"] wp_utc_now Let_def ik_def [symmetric] cr_def [symmetric] ob_def [symmetric]
    by (rule wp_bindI [OF tx]) (use lost in \<open>auto simp: wp_ret split: if_splits\<close>)
  then show ?thesis
    by (rule wp_mono) (auto simp: ob_def cr_def cong: option.case_cong split: insert_outcome.splits)
qed


definition rendering :: "create_comms_request \<Rightarrow> string \<Rightarrow> tenant_db \<Rightarrow> bool" where
  "rendering body msg d \<longleftrightarrow> (\<exists>txt. template_text (rq_template_id body) (rq_template_version body) txt d
     \<and> render txt (rq_variables body) = Inr msg)"

lemma rendering_onward: "rendering body msg d \<Longrightarrow> onward d d' \<Longrightarrow> rendering body msg d'"
  by (auto simp: rendering_def onward_def texts_extend_def)

text \<open>A message as it stands in the database: a queue row and an open ledger row for it, as the
  request asked; the address it goes to holds the destination; and the two ciphertexts open,
  under the customer's key with the request id as associated data, to the destination and the
  rendered text.\<close>

definition sealed_for :: "(string \<Rightarrow> string \<Rightarrow> bytes) \<Rightarrow> 'c ingest_context \<Rightarrow> uuid \<Rightarrow> uuid \<Rightarrow> string \<Rightarrow> bytes \<Rightarrow> tenant_db \<Rightarrow> bool" where
  "sealed_for plain cx customer_id i msg blob d \<longleftrightarrow> (\<exists>k. find_dek_row customer_id d = Some k
     \<and> decrypt (ic_crypto cx) (plain (ic_mount cx) (dk_wrapped_dek k)) (cy_uuid_bytes (ic_crypto cx) i) blob = Inr (as_bytes msg))"

definition accepted :: "(string \<Rightarrow> string \<Rightarrow> bytes) \<Rightarrow> 'c ingest_context \<Rightarrow> uuid \<Rightarrow> create_comms_request \<Rightarrow> string \<Rightarrow> uuid
    \<Rightarrow> tenant_db \<Rightarrow> bool" where
  "accepted plain cx producer_id body msg i d \<longleftrightarrow>
    (let h = destination_hmac (ic_crypto cx) (ic_pepper cx) (rq_destination body) in
     \<exists>ob cr kind pct.
        find_outbox i d = Some ob \<and> find_request (ob_created_at ob) i d = Some cr \<and> cr_final_status cr = None
      \<and> ob_channel ob = rq_channel body \<and> ob_class ob = rq_class body \<and> ob_producer_id ob = producer_id
      \<and> ob_campaign_id ob = rq_campaign_id body \<and> ob_expires_at ob = rq_expires_at body
      \<and> ob_priority ob = (if rq_class body = MARKETING then 2 else 1)
      \<and> ob_next_attempt_at ob = (case rq_scheduled_for body of None \<Rightarrow> ob_created_at ob | Some at \<Rightarrow> at)
      \<and> ob_cancelled_at ob = None \<and> ob_attempts ob = 0 \<and> ob_leased_until ob = None
      \<and> cr_customer_id cr = ob_customer_id ob \<and> cr_destination_hmac cr = h \<and> kind_for_channel (rq_channel body) = Some kind
      \<and> located kind h \<lparr>re_customer_id = ob_customer_id ob, re_address_id = ob_address_id ob, re_locale = None\<rparr> d
      \<and> sealed_for plain cx (ob_customer_id ob) i (rq_destination body) (cr_destination_ciphertext cr) d
      \<and> cr_payload_ciphertext cr = Some pct \<and> sealed_for plain cx (ob_customer_id ob) i msg pct d)"

text \<open>What the theorems on ingest assume: the third-party parts obey their laws; other sessions add to
  the projection and the keys, keep the queue invariant, and do not remove or change this
  producer's idempotency entries while a request runs.\<close>

definition ingest_setting :: "'c ingest_context \<Rightarrow> env \<Rightarrow> (string \<Rightarrow> string \<Rightarrow> bytes) \<Rightarrow> uuid \<Rightarrow> bool" where
  "ingest_setting cx E plain producer_id \<longleftrightarrow> resolution_setting (ic_lru cx) E (ic_keystore cx) plain
     \<and> aead_lawful (ic_crypto cx) \<and> texts_grow E \<and> db_stable E queue_ok
     \<and> (\<forall>key i. db_stable E (\<lambda>d. reply producer_id key d = Some i))"

lemma ignores_queue_ok: "ignores_projection queue_ok"
  by (simp add: ignores_projection_def queue_ok_def)

lemma located_locale: "located k h r d \<Longrightarrow> located k h (r\<lparr>re_locale := l\<rparr>) d"
  by (simp add: located_def)

lemma ing_dek_step:
  fixes w :: "('c, 'z) key_world_scheme"
  assumes S: "resolution_setting L E K plain" and t: "texts_grow E" and q: "db_stable E queue_ok" and I: "ing_inv L plain mount d0 w"
  shows "wp (map_err ingest_of_dek (get_or_create_dek L E K mount c))
     (\<lambda>p w'. ing_inv L plain mount d0 w' \<and> onward (w_db w) (w_db w') \<and> holds_key plain mount c p w')
     (\<lambda>e w'. (\<forall>m. e \<noteq> IngestDatabase (Panic m)) \<and> ing_inv L plain mount d0 w') w"
proof -
  let ?P = "\<lambda>d. queue_ok d \<and> texts_extend (w_db w) d"
  have st: "db_stable E ?P" using q t by (auto simp: db_stable_def texts_grow_def texts_extend_def)
  have ig: "ignores_projection ?P"
    by (simp add: ignores_projection_def queue_ok_def texts_extend_def template_text_def)
  have "keeps (db_inv ?P) (get_or_create_dek L E K mount c :: (('c, 'z) key_world_scheme, dek_error, bytes) io)"
    by (rule keeps_get_or_create_dek [OF st]) (use ignores_writes(3) [OF ig] in auto)
  then have "wp (get_or_create_dek L E K mount c) (\<lambda>_. db_inv ?P) (\<lambda>_. db_inv ?P) w"
    using I by (intro keeps_wp) (simp_all add: db_inv_def ing_inv_def texts_extend_def)
  note both = wp_conj [OF dek_step_key [OF S conjunct1 [OF I [unfolded ing_inv_def]], of c] this]
  show ?thesis
    by (rule wp_map_errI, rule wp_mono [OF both]) (auto simp: ing_inv_def db_inv_def onward_def)
qed

lemma ing_resolve_step:
  fixes w :: "('c, 'z) key_world_scheme"
  assumes S: "resolution_setting L E K plain" and q: "db_stable E queue_ok" and I: "ing_inv L plain mount d0 w"
    and U: "uuids_keyless E (w_db w)" and k: "kind_for_channel ch = Some kind"
  shows "wp (map_err ingest_of_resolve (resolve L E K C mount pepper input dst ch l tz))
     (\<lambda>r w'. ing_inv L plain mount d0 w' \<and> located kind (destination_hmac C pepper dst) r (w_db w'))
     (\<lambda>e w'. (\<forall>m. e \<noteq> IngestDatabase (Panic m)) \<and> ing_inv L plain mount d0 w') w"
proof -
  have "wp (resolve L E K C mount pepper input dst ch l tz) (\<lambda>_. db_inv queue_ok) (\<lambda>_. db_inv queue_ok) w"
    using I by (intro keeps_wp keeps_resolve [OF q ignores_queue_ok]) (simp add: db_inv_def ing_inv_def)
  moreover have w: "customers_ok (w_db w)" "tables_extend d0 (w_db w)" "keys_extend d0 (w_db w)" "coherent L plain mount (w_keys w) (w_db w)"
    using I by (simp_all add: ing_inv_def cust_inv_def dek_inv_def)
  note res = resolve_inv [OF S U w(1,4) k, of C pepper input dst l tz]
  ultimately have both: "wp (resolve L E K C mount pepper input dst ch l tz)
      (\<lambda>r w'. (cust_inv L plain mount (w_db w) w' \<and> located kind (destination_hmac C pepper dst) r (w_db w')) \<and> db_inv queue_ok w')
      (\<lambda>e w'. (not_panic e \<and> cust_inv L plain mount (w_db w) w') \<and> db_inv queue_ok w') w"
    using wp_conj [OF res] by blast
  have chain: "cust_inv L plain mount d0 w'" if "cust_inv L plain mount (w_db w) w'" for w' :: "('c, 'z) key_world_scheme"
    using that w(2,3) by (auto simp: cust_inv_def dek_inv_def intro: tables_extend_trans keys_extend_trans)
  have err: "ingest_of_resolve e \<noteq> IngestDatabase (Panic m)" if "not_panic e" for e m
    using that by (cases e) (auto simp: not_panic_def)
  show ?thesis
    by (rule wp_map_errI, rule wp_mono [OF both]) (use chain err in \<open>auto simp: ing_inv_def db_inv_def\<close>)
qed

lemma accept_request_wp:
  fixes w :: "('c, 'z) key_world_scheme"
  assumes S: "ingest_setting cx E plain p" and I: "ing_inv (ic_lru cx) plain (ic_mount cx) d0 w"
    and U: "uuids_keyless E (w_db w)" and k: "kind_for_channel (rq_channel body) = Some kind"
  shows "wp (accept_request E cx p body key input)
     (\<lambda>r w'. ing_inv (ic_lru cx) plain (ic_mount cx) d0 w' \<and> reply p key (w_db w') = Some (snd r)
        \<and> (fst r = (201 :: nat) \<and> (\<exists>msg. rendering body msg (w_db w') \<and> accepted plain cx p body msg (snd r) (w_db w')) \<or> fst r = 200))
     (\<lambda>e w'. (\<forall>m. e \<noteq> IngestDatabase (Panic m)) \<and> ing_inv (ic_lru cx) plain (ic_mount cx) d0 w') w"
proof -
  let ?L = "ic_lru cx" and ?mount = "ic_mount cx" and ?C = "ic_crypto cx"
  let ?h = "destination_hmac ?C (ic_pepper cx) (rq_destination body)"
  have E: "projection_grows E" "keys_grow E" "texts_grow E" "db_stable E queue_ok" "db_stable E (\<lambda>d. reply p key d \<noteq> None)"
    and R: "resolution_setting ?L E (ic_keystore cx) plain" and A: "aead_lawful ?C"
    using S by (auto simp: ingest_setting_def resolution_setting_def db_stable_def)
  let ?I = "\<lambda>v :: ('c, 'z) key_world_scheme. ing_inv ?L plain ?mount d0 v"
  let ?Q = "\<lambda>r w'. ?I w' \<and> reply p key (w_db w') = Some (snd r)
        \<and> (fst r = (201 :: nat) \<and> (\<exists>msg. rendering body msg (w_db w') \<and> accepted plain cx p body msg (snd r) (w_db w')) \<or> fst r = 200)"
  let ?X = "\<lambda>e w'. (\<forall>m. e \<noteq> IngestDatabase (Panic m)) \<and> ?I w'"
  let ?F = "\<lambda>r v. ?I v \<and> located kind ?h r (w_db v)"
  let ?put = "\<lambda>r i dct pct. bindE (map_err IngestDatabase (insert_transactional E key i (tn_id (ic_tenant cx)) (re_customer_id r)
        (rq_channel body) (rq_class body) (if rq_class body = MARKETING then 2 else 1)
        (rq_template_id body) (rq_template_version body) (rq_campaign_id body) ?h dct pct p (re_address_id r)
        (rq_scheduled_for body) (rq_expires_at body))) (\<lambda>outcome. ret (case outcome of Created \<Rightarrow> (201 :: nat, i) | Replayed existing \<Rightarrow> (200, existing)))"
  have put: "wp (?put r i dct pct) ?Q ?X v"
    if f: "?F r v" "find_dek_row (re_customer_id r) (w_db v) = Some dk" "rendering body msg (w_db v)"
      "decrypt ?C (plain ?mount (dk_wrapped_dek dk)) (cy_uuid_bytes ?C i) dct = Inr (as_bytes (rq_destination body))"
      "decrypt ?C (plain ?mount (dk_wrapped_dek dk)) (cy_uuid_bytes ?C i) pct = Inr (as_bytes msg)"
    for r i dct pct dk msg and v :: "('c, 'z) key_world_scheme"
  proof (rule wp_bindI [OF wp_map_errI [OF wp_mono [OF insert_transactional_wp [OF E conjunct1 [OF f(1)]]]]], assumption, goal_cases)
    case (2 out u)
    then have u: "?I u" and on: "onward (w_db v) (w_db u)" by blast+
    have dk: "find_dek_row (re_customer_id r) (w_db u) = Some dk" using on f(2) by (simp add: onward_def keys_extend_def)
    have loc: "located kind ?h r (w_db u)" using on f(1) by (auto simp: onward_def intro: located_extend)
    show ?case
    proof (cases out)
      case Created
      with 2 obtain ob cr where q: "reply p key (w_db u) = Some i" "find_outbox i (w_db u) = Some ob"
          "find_request (ob_created_at ob) i (w_db u) = Some cr" "cr_final_status cr = None" "ob_channel ob = rq_channel body"
          "ob_class ob = rq_class body" "ob_priority ob = (if rq_class body = MARKETING then 2 else 1)"
          "ob_customer_id ob = re_customer_id r" "ob_address_id ob = re_address_id r" "ob_producer_id ob = p"
          "ob_campaign_id ob = rq_campaign_id body" "ob_expires_at ob = rq_expires_at body"
          "ob_next_attempt_at ob = (case rq_scheduled_for body of None \<Rightarrow> ob_created_at ob | Some at \<Rightarrow> at)"
          "ob_cancelled_at ob = None" "ob_attempts ob = 0" "ob_leased_until ob = None"
          "cr_customer_id cr = re_customer_id r" "cr_destination_hmac cr = ?h" "cr_destination_ciphertext cr = dct" "cr_payload_ciphertext cr = Some pct"
        by auto
      have "located kind ?h \<lparr>re_customer_id = ob_customer_id ob, re_address_id = ob_address_id ob, re_locale = None\<rparr> (w_db u)"
        "sealed_for plain cx (ob_customer_id ob) i (rq_destination body) (cr_destination_ciphertext cr) (w_db u)"
        "sealed_for plain cx (ob_customer_id ob) i msg pct (w_db u)"
        using loc dk f(4,5) by (simp_all add: q located_def sealed_for_def)
      moreover have "cr_customer_id cr = ob_customer_id ob" by (simp add: q)
      ultimately have "accepted plain cx p body msg i (w_db u)" using q k unfolding accepted_def Let_def by blast
      with Created q(1) u rendering_onward [OF f(3) on] show ?thesis by (auto simp: wp_ret)
    next
      case (Replayed j)
      with 2 u show ?thesis by (auto simp: wp_ret)
    qed
  qed auto
  let ?seal = "\<lambda>r dek msg. bindE (new_uuid E) (\<lambda>i. let aad = cy_uuid_bytes ?C i in
      bindE (map_err IngestEncryption (encrypt ?C E dek aad (as_bytes (rq_destination body)))) (\<lambda>dct.
      bindE (map_err IngestEncryption (encrypt ?C E dek aad (as_bytes msg))) (\<lambda>pct. ?put r i dct pct)))"
  have seal: "wp (?seal r dek msg) ?Q ?X v"
    if f: "?F r v" "holds_key plain ?mount (re_customer_id r) dek v" "rendering body msg (w_db v)"
    for r dek msg and v :: "('c, 'z) key_world_scheme"
  proof -
    obtain dk where dk: "find_dek_row (re_customer_id r) (w_db v) = Some dk" "plain ?mount (dk_wrapped_dek dk) = dek"
      using f(2) by (auto simp: holds_key_def)
    let ?i = "e_new_uuid E (w_tick v)" and ?v = "v\<lparr>w_tick := Suc (w_tick v)\<rparr>"
    let ?aad = "cy_uuid_bytes ?C ?i"
    have second: "wp (bindE (map_err IngestEncryption (encrypt ?C E dek ?aad (as_bytes msg))) (\<lambda>pct. ?put r ?i dct pct)) ?Q ?X u"
      if u: "\<exists>n. u = ?v\<lparr>w_tick := n\<rparr>" and d: "decrypt ?C dek ?aad dct = Inr (as_bytes (rq_destination body))" for dct u
    proof (rule wp_bindI [OF wp_map_errI [OF wp_mono [OF encrypt_spec [OF A]]]], assumption, goal_cases)
      case (2 pct x)
      with u f(1) dk(1) have "?F r x" "find_dek_row (re_customer_id r) (w_db x) = Some dk" "rendering body msg (w_db x)" using f(3) by auto
      from 2 d have "decrypt ?C (plain ?mount (dk_wrapped_dek dk)) ?aad dct = Inr (as_bytes (rq_destination body))"
        "decrypt ?C (plain ?mount (dk_wrapped_dek dk)) ?aad pct = Inr (as_bytes msg)" by (simp_all add: dk(2))
      with \<open>?F r x\<close> \<open>find_dek_row (re_customer_id r) (w_db x) = Some dk\<close> \<open>rendering body msg (w_db x)\<close> show ?case by (intro put)
    qed (use u f(1) in auto)
    show ?thesis
      unfolding Let_def wp_bindE [of "new_uuid E"] wp_new_uuid
    proof (rule wp_bindI [OF wp_map_errI [OF wp_mono [OF encrypt_spec [OF A]]]], assumption, goal_cases)
      case (2 dct u)
      then show ?case by (intro second) blast+
    qed (use f(1) in auto)
  qed
  have dek: "wp (bindE (map_err ingest_of_dek (get_or_create_dek ?L E (ic_keystore cx) ?mount (re_customer_id r))) (\<lambda>dek. ?seal r dek msg)) ?Q ?X v"
    if f: "?F r v" "rendering body msg (w_db v)" for r msg and v :: "('c, 'z) key_world_scheme"
  proof (rule wp_bindI [OF wp_mono [OF ing_dek_step [OF R E(3,4) conjunct1 [OF f(1)]]]], assumption, goal_cases)
    case (2 dek u)
    with f(1) have "?F r u" by (auto simp: onward_def dest: located_extend)
    moreover from 2 f(2) have "rendering body msg (w_db u)" by (blast intro: rendering_onward)
    ultimately show ?case using 2 by (intro seal) blast+
  qed
  have tmpl: "wp (bindE (bindE (map_err IngestDatabase (find_template E (rq_template_id body) (rq_template_version body) loc))
        (\<lambda>found. of_result (ok_or TemplateNotFound found))) (\<lambda>template.
      bindE (of_result (map_sum IngestRender id (render (te_body template) (rq_variables body)))) (\<lambda>msg.
      bindE (map_err ingest_of_dek (get_or_create_dek ?L E (ic_keystore cx) ?mount (re_customer_id r))) (\<lambda>dek. ?seal r dek msg)))) ?Q ?X v"
    if f: "?F r v" for r loc and v :: "('c, 'z) key_world_scheme"
  proof (rule wp_bindI)
    show "wp (bindE (map_err IngestDatabase (find_template E (rq_template_id body) (rq_template_version body) loc))
        (\<lambda>found. of_result (ok_or TemplateNotFound found)))
        (\<lambda>t u. ?F r u \<and> template_text (rq_template_id body) (rq_template_version body) (te_body t) (w_db u)) ?X v"
      unfolding find_template_def
      by (rule wp_bindI [OF wp_map_errI [OF wp_mono [OF wp_ing_query [OF E(1-4) conjunct1 [OF f]]]]], assumption)
        (use f in \<open>auto simp: wp_of_result ok_or_def template_at_def template_key_def template_text_def onward_def
           split: option.splits dest!: find_row_SomeD dest: located_extend\<close>)
    fix t and u :: "('c, 'z) key_world_scheme"
    assume t: "?F r u \<and> template_text (rq_template_id body) (rq_template_version body) (te_body t) (w_db u)"
    show "wp (bindE (of_result (map_sum IngestRender id (render (te_body t) (rq_variables body)))) (\<lambda>msg.
      bindE (map_err ingest_of_dek (get_or_create_dek ?L E (ic_keystore cx) ?mount (re_customer_id r))) (\<lambda>dek. ?seal r dek msg))) ?Q ?X u"
    proof (cases "render (te_body t) (rq_variables body)")
      case (Inl e)
      with t show ?thesis by (simp add: wp_bindE [of "of_result _"] wp_of_result)
    next
      case (Inr msg)
      with t have "rendering body msg (w_db u)" by (auto simp: rendering_def)
      from dek [OF conjunct1 [OF t] this] show ?thesis
        unfolding Inr by (simp add: wp_bindE [of "of_result _"] wp_of_result split del: if_split)
    qed
  qed
  show ?thesis
    unfolding accept_request_def
    by (rule wp_bindI [OF ing_resolve_step [OF R E(4) I U k]]) (subst Let_def, rule tmpl)
qed

section \<open>What a request can end with\<close>

lemma create_comms_wp:
  fixes w :: "('c, 'z) key_world_scheme"
  assumes S: "ingest_setting cx E plain p" and I: "ing_inv (ic_lru cx) plain (ic_mount cx) d0 w"
    and U: "uuids_keyless E (w_db w)"
  shows "wp (create_comms E cx switches p header body)
     (\<lambda>r w'. ing_inv (ic_lru cx) plain (ic_mount cx) d0 w' \<and> (\<exists>key. header = Some key \<and> reply p key (w_db w') = Some (snd r))
        \<and> (fst r = 201 \<and> blocking_scope (ic_uuid cx) switches (rq_channel body) p (rq_campaign_id body) = None
             \<and> (\<exists>msg. rendering body msg (w_db w') \<and> accepted plain cx p body msg (snd r) (w_db w')) \<or> fst r = 200))
     (\<lambda>e w'. (\<forall>m. e \<noteq> IngestDatabase (Panic m)) \<and> ing_inv (ic_lru cx) plain (ic_mount cx) d0 w') w"
proof -
  let ?I = "ing_inv (ic_lru cx) plain (ic_mount cx) d0 :: ('c, 'z) key_world_scheme \<Rightarrow> bool"
  let ?scope = "blocking_scope (ic_uuid cx) switches (rq_channel body) p (rq_campaign_id body)"
  let ?go = "\<lambda>key input known. case known of Some existing \<Rightarrow> ret (200, existing)
     | None \<Rightarrow> (case ?scope of Some scope \<Rightarrow> throw (KillSwitchEngaged scope) | None \<Rightarrow> accept_request E cx p body key input)"
  let ?Q = "\<lambda>r w'. ?I w' \<and> (\<exists>key. header = Some key \<and> reply p key (w_db w') = Some (snd r))
     \<and> (fst r = (201 :: nat) \<and> ?scope = None
          \<and> (\<exists>msg. rendering body msg (w_db w') \<and> accepted plain cx p body msg (snd r) (w_db w')) \<or> fst r = 200)"
  let ?X = "\<lambda>e w'. (\<forall>m. e \<noteq> IngestDatabase (Panic m)) \<and> ?I w'"
  have E: "projection_grows E" "keys_grow E" "texts_grow E" "db_stable E queue_ok"
    using S by (simp_all add: ingest_setting_def resolution_setting_def)
  have val: "wp (validate_request E cx header body)
      (\<lambda>r v. (\<exists>n. v = w\<lparr>w_tick := n\<rparr>) \<and> header = Some (fst r) \<and> (\<exists>kind. kind_for_channel (rq_channel body) = Some kind))
      ?X w"
    by (rule wp_mono [OF validate_request_wp]) (use I valid_channel_kind in \<open>auto simp: refusal_def\<close>)
  have known: "wp (map_err IngestDatabase (find_idempotent_reply E p key))
      (\<lambda>r v'. ?I v' \<and> r = reply p key (w_db v') \<and> uuids_keyless E (w_db v')) ?X v"
    if "\<exists>n. v = w\<lparr>w_tick := n\<rparr>" for key v
  proof -
    have v: "?I v" "uuids_keyless E (w_db v)" using that I U by auto
    have "db_stable E (uuids_keyless E)"
      using S by (auto simp: ingest_setting_def resolution_setting_def db_stable_def uuids_keyless_def)
    from stableD [OF this v(2)] have "wp (query E (\<lambda>_. reply p key)) (\<lambda>_ v'. uuids_keyless E (w_db v')) (\<lambda>_ _. True) v"
      by (simp add: wp_query Let_def)
    note q = wp_conj [OF wp_ing_query [OF E v(1)] this]
    show ?thesis
      unfolding find_idempotent_reply_def by (rule wp_map_errI, rule wp_mono [OF q]) auto
  qed
  show ?thesis
    unfolding create_comms_def
  proof (rule wp_bindI [OF val], unfold split_paired_all prod.case)
    fix key and input :: resolution_input and v :: "('c, 'z) key_world_scheme"
    assume "(\<exists>n. v = w\<lparr>w_tick := n\<rparr>) \<and> header = Some (fst (key, input)) \<and> (\<exists>kind. kind_for_channel (rq_channel body) = Some kind)"
    then obtain kind where v: "\<exists>n. v = w\<lparr>w_tick := n\<rparr>" and h: "header = Some key"
      and k: "kind_for_channel (rq_channel body) = Some kind" by auto
    show "wp (bindE (map_err IngestDatabase (find_idempotent_reply E p key)) (?go key input)) ?Q ?X v"
    proof (rule wp_bindI [OF known [OF v]])
      fix r and u :: "('c, 'z) key_world_scheme"
      assume u: "?I u \<and> r = reply p key (w_db u) \<and> uuids_keyless E (w_db u)"
      show "wp (?go key input r) ?Q ?X u"
      proof (cases "r = None \<and> ?scope = None")
        case True
        have "wp (accept_request E cx p body key input) (\<lambda>r w'. ?I w' \<and> reply p key (w_db w') = Some (snd r)
               \<and> (fst r = 201 \<and> (\<exists>msg. rendering body msg (w_db w') \<and> accepted plain cx p body msg (snd r) (w_db w')) \<or> fst r = 200)) ?X u"
          using u by (intro accept_request_wp [OF S _ _ k]) auto
        then have "wp (accept_request E cx p body key input) ?Q ?X u"
          by (rule wp_mono) (use True h in auto)
        with True show ?thesis by simp
      qed (use u h in \<open>auto simp: wp_ret wp_throw split: option.splits\<close>)
    qed
  qed
qed

text \<open>A handler that has at most read the database.\<close>

definition only_read :: "env \<Rightarrow> ('c, 'z) key_world_scheme \<Rightarrow> ('c, 'z) key_world_scheme \<Rightarrow> bool" where
  "only_read E w w' \<longleftrightarrow> w_keys w' = w_keys w \<and> w_ctl w' = w_ctl w
     \<and> (w_db w' = w_db w \<or> (\<exists>n. w_db w' = e_interfere E n (w_db w)))"

lemma only_read_tick [simp]: "only_read E w (w\<lparr>w_tick := n\<rparr>)" "only_read E (w\<lparr>w_tick := n\<rparr>) = only_read E w"
  by (auto simp: only_read_def fun_eq_iff)

lemma look_up_reply_wp:
  fixes w :: "('c, 'z) key_world_scheme"
  shows "wp (map_err IngestDatabase (find_idempotent_reply E p key))
     (\<lambda>r w'. only_read E w w' \<and> r = reply p key (w_db w') \<and> (\<exists>n. w_db w' = e_interfere E n (w_db w)))
     (\<lambda>e w'. e = IngestDatabase Io \<and> only_read E w w') w"
  by (auto simp: find_idempotent_reply_def wp_map_err wp_query Let_def only_read_def)

lemma known_key_replies:
  fixes w :: "('c, 'z) key_world_scheme"
  assumes "db_stable E (\<lambda>d. reply p key d = Some i)" and "reply p key (w_db w) = Some i"
  shows "wp (create_comms E cx switches p (Some key) body)
     (\<lambda>r w'. r = (200, i) \<and> only_read E w w') (\<lambda>e w'. (refusal e \<or> e = IngestDatabase Io) \<and> only_read E w w') w"
proof -
  have val: "wp (validate_request E cx (Some key) body) (\<lambda>r v. fst r = key \<and> (\<exists>n. v = w\<lparr>w_tick := n\<rparr>))
      (\<lambda>e w'. (refusal e \<or> e = IngestDatabase Io) \<and> only_read E w w') w"
    by (rule wp_mono [OF validate_request_wp]) auto
  show ?thesis
    unfolding create_comms_def
  proof (rule wp_bindI [OF val], unfold split_paired_all prod.case)
    fix k and input :: resolution_input and v :: "('c, 'z) key_world_scheme"
    assume "fst (k, input) = key \<and> (\<exists>n. v = w\<lparr>w_tick := n\<rparr>)"
    then obtain n where [simp]: "k = key" and v: "v = w\<lparr>w_tick := n\<rparr>" by auto
    have "wp (map_err IngestDatabase (find_idempotent_reply E p k)) (\<lambda>r w'. r = Some i \<and> only_read E w w')
        (\<lambda>e w'. (refusal e \<or> e = IngestDatabase Io) \<and> only_read E w w') v"
      by (rule wp_mono [OF look_up_reply_wp]) (use stableD [OF assms] assms(2) v in \<open>auto simp: only_read_def\<close>)
    then show "wp (bindE (map_err IngestDatabase (find_idempotent_reply E p k)) (\<lambda>known. case known of
        Some existing \<Rightarrow> ret (200, existing)
      | None \<Rightarrow> (case blocking_scope (ic_uuid cx) switches (rq_channel body) p (rq_campaign_id body) of
          None \<Rightarrow> accept_request E cx p body k input | Some scope \<Rightarrow> throw (KillSwitchEngaged scope))))
       (\<lambda>r w'. r = (200, i) \<and> only_read E w w') (\<lambda>e w'. (refusal e \<or> e = IngestDatabase Io) \<and> only_read E w w') v"
      by (rule wp_bindI) (auto simp: wp_ret)
  qed
qed

lemma fails_accept_request: "fails_with (\<lambda>e. ingest_status e = 404 \<or> ingest_status e = 500) (accept_request E cx p body key input)"
proof -
  have r: "ingest_status (ingest_of_resolve e) = 500" "ingest_status (ingest_of_dek e') = 500" for e e'
    by (cases e; cases e'; simp)+
  show ?thesis
    unfolding accept_request_def Let_def
    by (intro fails_bindE fails_ret fails_clock fails_map_err_any fails_of_result)
      (auto simp: r ok_or_def split: option.splits sum.splits)
qed


lemma refuses_or_accepts_wp:
  fixes w :: "('c, 'z) key_world_scheme"
  shows "wp (create_comms E cx switches p header body)
     (\<lambda>r w'. fst r = 200 \<or> blocking_scope (ic_uuid cx) switches (rq_channel body) p (rq_campaign_id body) = None)
     (\<lambda>e w'. ingest_status e = 404 \<or> ingest_status e = 500 \<or> only_read E w w') w"
proof -
  let ?scope = "blocking_scope (ic_uuid cx) switches (rq_channel body) p (rq_campaign_id body)"
  let ?go = "\<lambda>key input known. case known of Some existing \<Rightarrow> ret (200, existing)
     | None \<Rightarrow> (case ?scope of Some scope \<Rightarrow> throw (KillSwitchEngaged scope) | None \<Rightarrow> accept_request E cx p body key input)"
  let ?Q = "\<lambda>r w'. fst r = 200 \<or> ?scope = None" and ?X = "\<lambda>e w'. ingest_status e = 404 \<or> ingest_status e = 500 \<or> only_read E w w'"
  have accept: "wp (accept_request E cx p body key input) (\<lambda>_ _. True) ?X u" for key input and u :: "('c, 'z) key_world_scheme"
    by (rule wp_mono [OF fails_wp [OF fails_accept_request]]) auto
  have go: "wp (?go key input known) ?Q ?X u" if "only_read E w u" for key input known and u :: "('c, 'z) key_world_scheme"
    using that wp_mono [OF accept] by (auto simp: wp_ret wp_throw split: option.splits)
  have read: "wp (bindE (map_err IngestDatabase (find_idempotent_reply E p key)) (?go key input)) ?Q ?X (w\<lparr>w_tick := n\<rparr>)" for key input n
    by (rule wp_bindI [OF wp_mono [OF look_up_reply_wp]], assumption) (auto intro!: go)
  have val: "wp (validate_request E cx header body) (\<lambda>_ v. \<exists>n. v = w\<lparr>w_tick := n\<rparr>) ?X w"
    by (rule wp_mono [OF validate_request_wp]) auto
  show ?thesis
    unfolding create_comms_def by (rule wp_bindI [OF val]) (auto intro: read)
qed

section \<open>Cancellation\<close>

lemma mark_cancelled_queue_ok:
  assumes "queue_ok d"
  shows "queue_ok (snd (mark_cancelled now i p d))"
  unfolding mark_cancelled_def upd_where_def Let_def snd_conv
  by (rule queue_ok_map_outbox [OF assms]) (simp add: outbox_key_def)

lemma mark_cancelled_marks:
  "fst (mark_cancelled now i p d) \<Longrightarrow> \<exists>ob \<in> set (t_outbox (snd (mark_cancelled now i p d))).
     ob_comms_request_id ob = i \<and> ob_producer_id ob = p \<and> ob_cancelled_at ob \<noteq> None"
proof -
  let ?f = "\<lambda>r. r\<lparr>ob_cancelled_at := (case ob_cancelled_at r of None \<Rightarrow> Some now | Some t \<Rightarrow> Some t)\<rparr>"
  assume "fst (mark_cancelled now i p d)"
  then obtain r where r: "r \<in> set (t_outbox d)" "ob_comms_request_id r = i" "ob_producer_id r = p"
    by (auto simp: mark_cancelled_def Let_def)
  then have "?f r \<in> set (t_outbox (snd (mark_cancelled now i p d)))"
    by (auto simp: mark_cancelled_def upd_where_def Let_def image_iff)
  with r(2,3) show ?thesis by (intro bexI [of _ "?f r"]) (auto split: option.splits)
qed

lemma mark_cancelled_others:
  "r \<in> set (t_outbox d) \<Longrightarrow> ob_producer_id r \<noteq> p \<Longrightarrow> r \<in> set (t_outbox (snd (mark_cancelled now i p d)))"
  by (force simp: mark_cancelled_def upd_where_def Let_def image_iff)

lemma mark_cancelled_ledger [simp]: "t_comms_request (snd (mark_cancelled now i p d)) = t_comms_request d"
  by (simp add: mark_cancelled_def Let_def)

lemma cancel_wp:
  fixes w :: "'z world_scheme"
  shows "wp (cancel_comms E p i)
     (\<lambda>s w'. s = 204 \<and> ((\<exists>ob \<in> set (t_outbox (w_db w')). ob_comms_request_id ob = i \<and> ob_producer_id ob = p \<and> ob_cancelled_at ob \<noteq> None)
        \<or> (\<exists>cr \<in> set (t_comms_request (w_db w')). cr_id cr = i \<and> cr_producer_id cr = p \<and> cr_final_status cr = Some ''cancelled'')))
     (\<lambda>e w'. (e = AlreadySent \<and> (\<exists>cr \<in> set (t_comms_request (w_db w')). cr_id cr = i \<and> cr_producer_id cr = p
            \<and> cr_final_status cr \<noteq> None \<and> cr_final_status cr \<noteq> Some ''cancelled''))
        \<or> (e = CommsRequestNotFound \<and> (\<forall>ob \<in> set (t_outbox (e_interfere E (w_tick w) (w_db w))). ob_comms_request_id ob = i \<longrightarrow> ob_producer_id ob \<noteq> p))
        \<or> e = IngestDatabase Io) w"
proof -
  define d1 where "d1 = e_interfere E (w_tick w) (w_db w)"
  obtain b d2 where m: "mark_cancelled (e_clock E (w_tick w)) i p d1 = (b, d2)" by (cases "mark_cancelled (e_clock E (w_tick w)) i p d1")
  have hit: "b \<longleftrightarrow> (\<exists>ob \<in> set (t_outbox d1). ob_comms_request_id ob = i \<and> ob_producer_id ob = p)"
    using m by (auto simp: mark_cancelled_def Let_def)
  have "b \<Longrightarrow> \<exists>ob \<in> set (t_outbox d2). ob_comms_request_id ob = i \<and> ob_producer_id ob = p \<and> ob_cancelled_at ob \<noteq> None"
    using mark_cancelled_marks [of "e_clock E (w_tick w)" i p d1] m by simp
  with hit show ?thesis
    unfolding cancel_comms_def cancel_def
    by (cases b) (auto simp: wp_simps Let_def d1_def [symmetric] m wp_case_option split: option.splits fault.splits if_splits
        dest!: find_row_SomeD)
qed


lemma keeps_cancel_comms:
  assumes "db_stable E P" and "\<And>now d. P d \<Longrightarrow> P (snd (mark_cancelled now i p d))"
  shows "keeps (db_inv P) (cancel_comms E p i)"
proof -
  have "P d'" if "P d" "mark_cancelled now i p d = (b, d')" for now d b d'
    using assms(2) [OF that(1), of now] that(2) by simp
  then show ?thesis
    unfolding cancel_comms_def cancel_def using assms(1)
    by (intro keeps_intros keeps_stmt) (auto intro!: keeps_intros split: cancel_outcome.splits)
qed

section \<open>Properties\<close>


definition sample_ingest :: "(uuid \<times> cache_entry) list ingest_context" where
  "sample_ingest = \<lparr>ic_tenant = \<lparr>tn_id = 1, tn_slug = ''acme'', tn_region = ''eu'', tn_database_name = ''acme'',
       tn_vault_mount = ''mount'', tn_webhook_token = ''t'', tn_status = ''active'', tn_created_at = 0,
       tn_vault_role_id = None, tn_vault_pepper_wrapped = None, tn_auth_enabled = False\<rparr>,
     ic_config = \<lparr>tc_retention_years = 7, tc_default_timezone = ''UTC'', tc_default_locale = ''en'', tc_schedule_horizon_days = 30,
       tc_quota_day_boundary_tz = ''UTC'', tc_verification_mode = ''off'', tc_kill_switch_release_rate = 10, tc_reconcile_attempts_cap = 5\<rparr>,
     ic_pepper = [9], ic_lru = list_lru, ic_keystore = sample_keystore, ic_crypto = framed_crypto, ic_uuid = \<lambda>_. None\<rparr>"

definition sample_body :: create_comms_request where
  "sample_body = \<lparr>rq_customer_id = None, rq_external_id = None, rq_external_id_system = None, rq_destination = ''+421'',
     rq_channel = ''sms'', rq_class = ''transactional'', rq_template_id = ''hello'', rq_template_version = 1, rq_locale = None,
     rq_campaign_id = None, rq_scheduled_for = None, rq_expires_at = None,
     rq_variables = (\<lambda>v. if v = ''name'' then Some ''Ada'' else None)\<rparr>"

definition ingest_world :: "(uuid \<times> cache_entry) list key_world" where
  "ingest_world = cold_world\<lparr>w_db := empty_db\<lparr>t_template := [\<lparr>te_template_id = ''hello'', te_version = 1, te_channel = ''sms'',
     te_locale = ''en'', te_body = ''Hi {{name}}'', te_approved_by = ''ops'', te_approved_at = 0\<rparr>]\<rparr>\<rparr>"

lemma sample_ingest_setting [simp]: "ingest_setting sample_ingest (quiet_env 0) (\<lambda>_ _. replicate 32 7) p"
  by (simp add: ingest_setting_def sample_ingest_def quiet_resolution_setting texts_grow_def texts_extend_def quiet_stable)

lemma ingest_world_ok [simp]:
  "customers_ok (w_db ingest_world)" "uuids_keyless E (w_db ingest_world)" "queue_ok (w_db ingest_world)"
  "coherent (ic_lru sample_ingest) plain mount (w_keys ingest_world) (w_db ingest_world)"
  by (simp_all add: ingest_world_def cold_world_def customers_ok_def uuids_keyless_def coherent_def empty_db_def list_lru_def
      find_dek_row_def queue_ok_def sample_ingest_def)

lemma sample_request_accepted:
  "map_sum id fst (fst (create_comms (quiet_env 0) sample_ingest new_cache 3 (Some ''k1'') sample_body ingest_world)) = Inr 201"
  by code_simp





text \<open>C35: A refusal writes nothing.  When ingest answers a client error other than a missing template, or
  that a switch is engaged, it has read the idempotency table at most once and written to no
  database and to no cache.  And while a switch covers a request, nothing but the replay of an
  earlier answer is given to it.\<close>

theorem refusal_writes_nothing:
  fixes w :: "('c, 'z) key_world_scheme"
  shows "wp (create_comms E cx switches p header body)
     (\<lambda>r w'. blocking_scope (ic_uuid cx) switches (rq_channel body) p (rq_campaign_id body) \<noteq> None \<longrightarrow> fst r = 200)
     (\<lambda>e w'. ingest_status e \<in> {400, 403, 409, 422, 424, 503} \<longrightarrow> only_read E w w') w"
  by (rule wp_mono [OF refuses_or_accepts_wp]) auto

definition blocked_cache :: active_set where
  "blocked_cache = new_cache\<lparr>as_platform_ids := [5]\<rparr>"

theorem refusal_writes_nothing_witness:
  "\<exists>s w'. create_comms (quiet_env 0) sample_ingest blocked_cache 3 (Some ''k1'') sample_body ingest_world = (Inl (KillSwitchEngaged s), w')
     \<and> only_read (quiet_env 0) ingest_world w'"
proof -
  have "(case fst (create_comms (quiet_env 0) sample_ingest blocked_cache 3 (Some ''k1'') sample_body ingest_world) of
      Inl (KillSwitchEngaged s) \<Rightarrow> True | _ \<Rightarrow> False)" by code_simp
  then obtain s w' where "create_comms (quiet_env 0) sample_ingest blocked_cache 3 (Some ''k1'') sample_body ingest_world = (Inl (KillSwitchEngaged s), w')"
    by (cases "create_comms (quiet_env 0) sample_ingest blocked_cache 3 (Some ''k1'') sample_body ingest_world")
      (auto split: sum.splits ingest_error.splits)
  with refusal_writes_nothing [of "quiet_env 0" sample_ingest blocked_cache 3 "Some ''k1''" sample_body ingest_world]
  show ?thesis by (auto simp: wp_def)
qed



end
