(* ===== verification/AdminPanel.thy ===== *)
theory AdminPanel
  imports QueryApi Producer Ingest
begin

text \<open>
  The admin panel of \<open>query_api/admin.rs\<close>: the quota dashboard, the kill-switch console, the scheduled
  queue (with \<open>outbox_query/repo.rs\<close>) and the producer registry.  Its forms call the operations of
  the theories \<open>KillSwitch\<close>, \<open>Ingest\<close>, \<open>Producer\<close> and \<open>QuotaConfig\<close> below their command-line wrappers, and
  repeat the checks those wrappers make.

  The sparkline of the dashboard is drawn with floating-point coordinates; the model keeps the
  series it is drawn from.
\<close>

section \<open>Texts and numbers\<close>

fun show_digits :: "nat \<Rightarrow> string" where
  "show_digits n = (if n < 10 then [char_of (48 + n)] else show_digits (n div 10) @ [char_of (48 + n mod 10)])"

declare show_digits.simps [simp del]

definition show_int :: "int \<Rightarrow> string" where
  "show_int v = (if v < 0 then CHR ''-'' # show_digits (nat (- v)) else show_digits (nat v))"

definition digit_value :: "char \<Rightarrow> nat option" where
  "digit_value c = (if 48 \<le> (of_char c :: nat) \<and> (of_char c :: nat) \<le> 57 then Some (of_char c - 48) else None)"

fun parse_digits :: "nat \<Rightarrow> string \<Rightarrow> nat option" where
  "parse_digits acc [] = Some acc"
| "parse_digits acc (c # cs) = (case digit_value c of None \<Rightarrow> None | Some v \<Rightarrow> parse_digits (10 * acc + v) cs)"

text \<open>\<open>str::parse::<i32>\<close>: an optional sign, at least one digit, a value in range.\<close>

definition parse_i32 :: "string \<Rightarrow> int option" where
  "parse_i32 s =
    (let (negative, ds) = (case s of [] \<Rightarrow> (False, []) | c # cs \<Rightarrow>
           if c = CHR ''-'' then (True, cs) else if c = CHR ''+'' then (False, cs) else (False, s)) in
     if ds = [] then None
     else case parse_digits 0 ds of
       None \<Rightarrow> None
     | Some n \<Rightarrow> (let v = (if negative then - int n else int n) in if - (2 ^ 31) \<le> v \<and> v < 2 ^ 31 then Some v else None))"

definition nonempty :: "string option \<Rightarrow> string option" where
  "nonempty s = (case s of Some t \<Rightarrow> if t = [] then None else Some t | None \<Rightarrow> None)"

definition database_or_rejected :: "(sqlx_error \<Rightarrow> string) \<Rightarrow> sqlx_error \<Rightarrow> 'p response" where
  "database_or_rejected text err = (case err of Configuration _ \<Rightarrow> Text 400 (text err) | _ \<Rightarrow> database_error err)"

definition producer_name_map :: "producer_row list \<Rightarrow> (uuid \<times> string) list" where
  "producer_name_map producers = rev (map (\<lambda>p. (pr_id p, pr_name p)) producers)"

definition producer_name :: "(uuid \<Rightarrow> string) \<Rightarrow> (uuid \<times> string) list \<Rightarrow> uuid \<Rightarrow> string" where
  "producer_name show_uuid names i = (case map_of names i of Some n \<Rightarrow> n | None \<Rightarrow> show_uuid i)"

definition format_limit :: "int \<Rightarrow> int option \<Rightarrow> string" where
  "format_limit v limit = (case limit of
       Some l \<Rightarrow> show_int v @ '' / '' @ show_int l
     | None \<Rightarrow> show_int v @ '' (no limit)'')"

definition format_optional_limit :: "int option \<Rightarrow> string" where
  "format_optional_limit limit = (case limit of Some l \<Rightarrow> show_int l | None \<Rightarrow> ''no limit'')"

definition parse_form_datetime :: "'k api_parts \<Rightarrow> string \<Rightarrow> timestamp option" where
  "parse_form_datetime A v = (case ap_rfc3339 A v of Some dt \<Rightarrow> Some dt | None \<Rightarrow> ap_naive A v)"

section \<open>Pages\<close>

record quota_row =
  qr_producer_name :: string
  qr_channel :: string
  qr_class :: string
  qr_minute_display :: string
  qr_day_display :: string
  qr_blocked_24h :: int
  qr_sparkline :: "int list"

record quota_template =
  qp_actor :: string
  qp_role :: string
  qp_tenant_slug :: string
  qp_rows :: "quota_row list"

record kill_switches_template =
  kt_actor :: string
  kt_role :: string
  kt_tenant_slug :: string
  kt_active :: "kill_switch list"
  kt_platform_suspended_since :: "timestamp list"

record outbox_queue_filter =
  of_producer_id :: "uuid option"
  of_campaign_id :: "string option"
  of_due_before :: "timestamp option"
  of_due_after :: "timestamp option"

record outbox_queue_row =
  oq_comms_request_id :: uuid
  oq_created_at :: timestamp
  oq_channel :: string
  oq_class :: string
  oq_producer_id :: uuid
  oq_campaign_id :: "string option"
  oq_next_attempt_at :: timestamp
  oq_expires_at :: "timestamp option"

record scheduled_template =
  st_actor :: string
  st_role :: string
  st_tenant_slug :: string
  st_filter_producer_id :: string
  st_filter_campaign_id :: string
  st_rows :: "outbox_queue_row list"

record quota_display_row =
  qd_producer_name :: string
  qd_channel :: string
  qd_class :: string
  qd_per_minute_display :: string
  qd_per_day_display :: string
  qd_enforcement :: string

record override_display_row =
  od_producer_name :: string
  od_channel :: string
  od_class :: string
  od_per_day :: int
  od_valid_from :: timestamp
  od_valid_to :: timestamp
  od_approved_by :: string
  od_reason :: string

record producers_template =
  pt_actor :: string
  pt_role :: string
  pt_tenant_slug :: string
  pt_producers :: "producer_row list"
  pt_quotas :: "quota_display_row list"
  pt_overrides :: "override_display_row list"

datatype admin_page =
    QuotaHtml quota_template
  | KillSwitchesHtml kill_switches_template
  | BlastRadiusHtml "(string \<times> nat) list"
  | ScheduledHtml scheduled_template
  | ProducersHtml producers_template

section \<open>Quota dashboard\<close>

definition usage_matches :: "producer_quota_row \<Rightarrow> usage_row \<Rightarrow> bool" where
  "usage_matches q u \<longleftrightarrow> us_producer_id u = pq_producer_id q \<and> us_channel u = pq_channel q \<and> us_class u = pq_class q"

definition sent_at :: "string \<Rightarrow> producer_quota_row \<Rightarrow> usage_row list \<Rightarrow> int" where
  "sent_at granularity q current =
     (case find_row (\<lambda>u. us_granularity u = granularity) (filter (usage_matches q) current) of Some u \<Rightarrow> us_sent u | None \<Rightarrow> 0)"

definition dashboard_row :: "(uuid \<Rightarrow> string) \<Rightarrow> (uuid \<times> string) list \<Rightarrow> usage_row list \<Rightarrow> usage_row list \<Rightarrow> producer_quota_row \<Rightarrow> quota_row" where
  "dashboard_row show_uuid names current history q =
    (let key_history = filter (usage_matches q) history in
     \<lparr>qr_producer_name = producer_name show_uuid names (pq_producer_id q), qr_channel = pq_channel q, qr_class = pq_class q,
      qr_minute_display = format_limit (sent_at ''minute'' q current) (pq_per_minute q),
      qr_day_display = format_limit (sent_at ''day'' q current) (pq_per_day q),
      qr_blocked_24h = sum_list (map us_blocked key_history), qr_sparkline = map us_sent key_history\<rparr>)"

definition ui_quota_dashboard :: "env \<Rightarrow> ('k :: linorder) api_parts \<Rightarrow> identity \<Rightarrow> string \<Rightarrow> ('z world_scheme, 'e, admin_page response) io" where
  "ui_quota_dashboard E A identity tenant_slug = with_role identity [COMMS_OPS]
     (on_ok (list_quota_rows E (ap_collate A)) (\<lambda>quotas.
      on_ok (list_producer_rows E (ap_collate A)) (\<lambda>producers.
      on_ok (current_windows E (ap_zone A)) (\<lambda>(minute_start, day_start).
      on_ok (load_current_usage E minute_start day_start) (\<lambda>current.
      bindE (utc_now E) (\<lambda>now.
      on_ok (load_usage_history E (now - days 1)) (\<lambda>history.
        ret (Page (QuotaHtml \<lparr>qp_actor = id_actor identity, qp_role = id_role identity, qp_tenant_slug = tenant_slug,
          qp_rows = map (dashboard_row (ap_show_uuid A) (producer_name_map producers) current history) quotas\<rparr>)))))))))"

section \<open>Kill-switch console\<close>

definition kill_switches_page :: "env \<Rightarrow> uuid \<Rightarrow> identity \<Rightarrow> string \<Rightarrow> ('z world_scheme, 'e, admin_page response) io" where
  "kill_switches_page E tenant_id identity tenant_slug =
     on_ok (list_active_for_tenant E tenant_id) (\<lambda>platform.
     on_ok (list_active E) (\<lambda>active.
       ret (Page (KillSwitchesHtml \<lparr>kt_actor = id_actor identity, kt_role = id_role identity, kt_tenant_slug = tenant_slug,
         kt_active = active, kt_platform_suspended_since = map pk_engaged_at platform\<rparr>))))"

definition ui_kill_switches :: "env \<Rightarrow> identity \<Rightarrow> request_tenant \<Rightarrow> string \<Rightarrow> ('z world_scheme, 'e, admin_page response) io" where
  "ui_kill_switches E identity tenant tenant_slug = with_role identity [COMMS_OPS]
     (kill_switches_page E (rt_tenant_id tenant) identity tenant_slug)"

definition ui_blast_radius :: "env \<Rightarrow> 'k api_parts \<Rightarrow> identity \<Rightarrow> string \<Rightarrow> string option \<Rightarrow> ('z world_scheme, 'e, admin_page response) io" where
  "ui_blast_radius E A identity scope scope_key = with_role identity [COMMS_OPS]
     (on_ok (blast_radius E (ap_uuid A) scope (nonempty scope_key)) (\<lambda>rows. ret (Page (BlastRadiusHtml rows))))"

record engage_form =
  ef_scope :: string
  ef_scope_key :: "string option"
  ef_on_queued :: string
  ef_reason :: string

definition engage_kill_switch :: "env \<Rightarrow> 'k api_parts \<Rightarrow> identity \<Rightarrow> request_tenant \<Rightarrow> string \<Rightarrow> engage_form
    \<Rightarrow> ('z world_scheme, 'e, admin_page response) io" where
  "engage_kill_switch E A identity tenant tenant_slug form = with_role identity [COMMS_OPS]
     (bindE (attempt (engage E (rt_tenant_id tenant) (ef_scope form) (nonempty (ef_scope_key form)) (ef_on_queued form)
          (ef_reason form) (id_actor identity))) (\<lambda>result. case result of
        Inr _ \<Rightarrow> kill_switches_page E (rt_tenant_id tenant) identity tenant_slug
      | Inl AlreadyEngaged \<Rightarrow> ret (Status 409)
      | Inl (CE_Database err) \<Rightarrow> ret (database_or_rejected (ap_error_text A) err)))"

text \<open>The branch the source marks unreachable panics, which the server turns into a 500.\<close>

definition release_kill_switch :: "env \<Rightarrow> 'k api_parts \<Rightarrow> identity \<Rightarrow> request_tenant \<Rightarrow> string \<Rightarrow> uuid
    \<Rightarrow> ('z world_scheme, 'e, admin_page response) io" where
  "release_kill_switch E A identity tenant tenant_slug i = with_role identity [COMMS_OPS]
     (bindE (attempt (release E (rt_tenant_id tenant) i (id_actor identity))) (\<lambda>result. case result of
        Inr _ \<Rightarrow> kill_switches_page E (rt_tenant_id tenant) identity tenant_slug
      | Inl (CE_Database err) \<Rightarrow> ret (database_or_rejected (ap_error_text A) err)
      | Inl AlreadyEngaged \<Rightarrow> ret (Status 500)))"

section \<open>Scheduled queue\<close>

definition queue_columns :: "outbox_row \<Rightarrow> outbox_queue_row" where
  "queue_columns r =
     \<lparr>oq_comms_request_id = ob_comms_request_id r, oq_created_at = ob_created_at r, oq_channel = ob_channel r, oq_class = ob_class r,
      oq_producer_id = ob_producer_id r, oq_campaign_id = ob_campaign_id r, oq_next_attempt_at = ob_next_attempt_at r,
      oq_expires_at = ob_expires_at r\<rparr>"

definition queue_filter_matches :: "outbox_queue_filter \<Rightarrow> outbox_row \<Rightarrow> bool" where
  "queue_filter_matches f r \<longleftrightarrow> ob_cancelled_at r = None
   \<and> unless_given (of_producer_id f) (\<lambda>v. ob_producer_id r = v)
   \<and> unless_given (of_campaign_id f) (\<lambda>v. ob_campaign_id r = Some v)
   \<and> unless_given (of_due_before f) (\<lambda>v. ob_next_attempt_at r \<le> v)
   \<and> unless_given (of_due_after f) (\<lambda>v. ob_next_attempt_at r \<ge> v)"

definition list_queue :: "env \<Rightarrow> outbox_queue_filter \<Rightarrow> nat \<Rightarrow> ('z world_scheme, sqlx_error, outbox_queue_row list) io" where
  "list_queue E f limit = query E (\<lambda>_ d. map queue_columns (top_by ob_next_attempt_at limit (filter (queue_filter_matches f) (t_outbox d))))"

abbreviation SCHEDULED_LIMIT :: nat where "SCHEDULED_LIMIT \<equiv> 200"

record scheduled_query =
  sq_producer_id :: "uuid option"
  sq_campaign_id :: "string option"

text \<open>A value that is neither empty nor a UUID fails the extraction of the query.\<close>

definition empty_uuid_as_none :: "uuid_parser \<Rightarrow> string option \<Rightarrow> uuid option option" where
  "empty_uuid_as_none pu opt = (case nonempty opt of
       None \<Rightarrow> Some None
     | Some s \<Rightarrow> (case pu s of Some i \<Rightarrow> Some (Some i) | None \<Rightarrow> None))"

definition queue_filter_of :: "scheduled_query \<Rightarrow> outbox_queue_filter" where
  "queue_filter_of q = \<lparr>of_producer_id = sq_producer_id q, of_campaign_id = nonempty (sq_campaign_id q),
     of_due_before = None, of_due_after = None\<rparr>"

definition default_queue_filter :: outbox_queue_filter where
  "default_queue_filter = \<lparr>of_producer_id = None, of_campaign_id = None, of_due_before = None, of_due_after = None\<rparr>"

definition scheduled_page :: "env \<Rightarrow> 'k api_parts \<Rightarrow> identity \<Rightarrow> string \<Rightarrow> outbox_queue_filter \<Rightarrow> ('z world_scheme, 'e, admin_page response) io" where
  "scheduled_page E A identity tenant_slug f =
     on_ok (list_queue E f SCHEDULED_LIMIT) (\<lambda>rows.
       ret (Page (ScheduledHtml \<lparr>st_actor = id_actor identity, st_role = id_role identity, st_tenant_slug = tenant_slug,
         st_filter_producer_id = (case of_producer_id f of Some i \<Rightarrow> ap_show_uuid A i | None \<Rightarrow> []),
         st_filter_campaign_id = (case of_campaign_id f of Some c \<Rightarrow> c | None \<Rightarrow> []), st_rows = rows\<rparr>)))"

definition ui_scheduled_queue :: "env \<Rightarrow> 'k api_parts \<Rightarrow> identity \<Rightarrow> string \<Rightarrow> scheduled_query \<Rightarrow> ('z world_scheme, 'e, admin_page response) io" where
  "ui_scheduled_queue E A identity tenant_slug q = with_role identity [COMMS_OPS]
     (scheduled_page E A identity tenant_slug (queue_filter_of q))"

definition cancel_scheduled :: "env \<Rightarrow> 'k api_parts \<Rightarrow> identity \<Rightarrow> string \<Rightarrow> uuid \<Rightarrow> uuid \<Rightarrow> ('z world_scheme, 'e, admin_page response) io" where
  "cancel_scheduled E A identity tenant_slug i producer_id = with_role identity [COMMS_OPS]
     (on_ok (cancel E i producer_id) (\<lambda>_. scheduled_page E A identity tenant_slug default_queue_filter))"

section \<open>Producer registry\<close>

definition quota_display :: "(uuid \<Rightarrow> string) \<Rightarrow> (uuid \<times> string) list \<Rightarrow> producer_quota_row \<Rightarrow> quota_display_row" where
  "quota_display show_uuid names q =
     \<lparr>qd_producer_name = producer_name show_uuid names (pq_producer_id q), qd_channel = pq_channel q, qd_class = pq_class q,
      qd_per_minute_display = format_optional_limit (pq_per_minute q), qd_per_day_display = format_optional_limit (pq_per_day q),
      qd_enforcement = pq_enforcement q\<rparr>"

definition override_display :: "(uuid \<Rightarrow> string) \<Rightarrow> (uuid \<times> string) list \<Rightarrow> producer_quota_override_row \<Rightarrow> override_display_row" where
  "override_display show_uuid names o' =
     \<lparr>od_producer_name = producer_name show_uuid names (po_producer_id o'), od_channel = po_channel o', od_class = po_class o',
      od_per_day = po_per_day o', od_valid_from = po_valid_from o', od_valid_to = po_valid_to o', od_approved_by = po_approved_by o',
      od_reason = po_reason o'\<rparr>"

definition producers_page :: "env \<Rightarrow> ('k :: linorder) api_parts \<Rightarrow> identity \<Rightarrow> string \<Rightarrow> ('z world_scheme, 'e, admin_page response) io" where
  "producers_page E A identity tenant_slug =
     on_ok (list_producer_rows E (ap_collate A)) (\<lambda>producers.
     let names = producer_name_map producers in
     on_ok (list_quota_rows E (ap_collate A)) (\<lambda>quotas.
     on_ok (list_override_rows E) (\<lambda>overrides.
       ret (Page (ProducersHtml \<lparr>pt_actor = id_actor identity, pt_role = id_role identity, pt_tenant_slug = tenant_slug,
         pt_producers = producers, pt_quotas = map (quota_display (ap_show_uuid A) names) quotas,
         pt_overrides = map (override_display (ap_show_uuid A) names) overrides\<rparr>)))))"

definition ui_producer_registry :: "env \<Rightarrow> ('k :: linorder) api_parts \<Rightarrow> identity \<Rightarrow> string \<Rightarrow> ('z world_scheme, 'e, admin_page response) io" where
  "ui_producer_registry E A identity tenant_slug = with_role identity [ADMIN] (producers_page E A identity tenant_slug)"

text \<open>The end of the forms: the page again, or what the command's error says.\<close>

definition then_producers_page :: "env \<Rightarrow> ('k :: linorder) api_parts \<Rightarrow> identity \<Rightarrow> string \<Rightarrow> ('z world_scheme, sqlx_error, 'a) io
    \<Rightarrow> ('z world_scheme, 'e, admin_page response) io" where
  "then_producers_page E A identity tenant_slug m =
     bindE (attempt m) (\<lambda>result. case result of
       Inr _ \<Rightarrow> producers_page E A identity tenant_slug
     | Inl err \<Rightarrow> ret (database_or_rejected (ap_error_text A) err))"

record register_producer_form =
  rf_name :: string
  rf_cert_subject :: string
  rf_owner_team :: string
  rf_contact :: string

definition admin_register_producer :: "env \<Rightarrow> ('k :: linorder) api_parts \<Rightarrow> identity \<Rightarrow> request_tenant \<Rightarrow> string \<Rightarrow> register_producer_form
    \<Rightarrow> ('z world_scheme, 'e, admin_page response) io" where
  "admin_register_producer E A identity tenant tenant_slug form = with_role identity [ADMIN]
     (then_producers_page E A identity tenant_slug (register_producer_inner E (rt_tenant_id tenant)
        (rf_name form) (rf_cert_subject form) (rf_owner_team form) (rf_contact form) (id_actor identity)))"

definition admin_disable_producer :: "env \<Rightarrow> ('k :: linorder) api_parts \<Rightarrow> identity \<Rightarrow> request_tenant \<Rightarrow> string \<Rightarrow> uuid
    \<Rightarrow> ('z world_scheme, 'e, admin_page response) io" where
  "admin_disable_producer E A identity tenant tenant_slug i = with_role identity [ADMIN]
     (on_ok (find_producer_by_id E i) (\<lambda>found. case found of
        None \<Rightarrow> ret (Status 404)
      | Some producer \<Rightarrow> then_producers_page E A identity tenant_slug
          (disable_producer_inner E (rt_tenant_id tenant) (pr_name producer) (id_actor identity))))"

record set_quota_form =
  sf_channel :: string
  sf_class :: string
  sf_per_minute :: "string option"
  sf_per_day :: "string option"
  sf_enforcement :: string

text \<open>A limit field: absent or empty is no limit, anything else must be a number.\<close>

definition form_limit :: "string option \<Rightarrow> int option option" where
  "form_limit field = (case nonempty field of
       None \<Rightarrow> Some None
     | Some s \<Rightarrow> (case parse_i32 s of Some v \<Rightarrow> Some (Some v) | None \<Rightarrow> None))"

definition admin_set_producer_quota :: "env \<Rightarrow> ('k :: linorder) api_parts \<Rightarrow> identity \<Rightarrow> request_tenant \<Rightarrow> string \<Rightarrow> uuid \<Rightarrow> set_quota_form
    \<Rightarrow> ('z world_scheme, 'e, admin_page response) io" where
  "admin_set_producer_quota E A identity tenant tenant_slug i form = with_role identity [ADMIN]
     (case form_limit (sf_per_minute form) of
        None \<Rightarrow> ret (Status 400)
      | Some per_minute \<Rightarrow>
     (case form_limit (sf_per_day form) of
        None \<Rightarrow> ret (Status 400)
      | Some per_day \<Rightarrow>
         let illegal = (sf_class form = AUTH \<or> (sf_class form = TRANSACTIONAL \<and> sf_enforcement form = HARD)) in
         if illegal then
           thenE (attempt (audit_record E (id_actor identity) ''producer_quota.set'' (Some (rt_tenant_id tenant))
             [(''producer_id'', JUuid i), (''channel'', JStr (sf_channel form)), (''class'', JStr (sf_class form)),
              (''per_minute'', json_limit per_minute), (''per_day'', json_limit per_day),
              (''enforcement'', JStr (sf_enforcement form)), (''outcome'', JStr ''rejected'')])) (ret (Status 400))
         else then_producers_page E A identity tenant_slug (set_producer_quota_inner E (rt_tenant_id tenant) (id_actor identity)
           \<lparr>pq_producer_id = i, pq_channel = sf_channel form, pq_class = sf_class form, pq_per_minute = per_minute,
            pq_per_day = per_day, pq_enforcement = sf_enforcement form\<rparr>)))"

record add_override_form =
  af_channel :: string
  af_class :: string
  af_per_day :: int
  af_valid_from :: string
  af_valid_to :: string
  af_approved_by :: string
  af_reason :: string

text \<open>The panel's copy of the command's three checks.\<close>

definition admin_override_rejection :: "string \<Rightarrow> int \<Rightarrow> timestamp \<Rightarrow> timestamp \<Rightarrow> string option" where
  "admin_override_rejection class_value per_day valid_from valid_to =
     (if class_value = AUTH then Some ''producer_quota_override cannot be configured for class auth''
      else if valid_to \<le> valid_from then Some ''producer_quota_override valid_to must be after valid_from''
      else if per_day \<le> 0 then Some ''producer_quota_override per_day must be positive''
      else None)"

definition add_quota_override :: "env \<Rightarrow> ('k :: linorder) api_parts \<Rightarrow> identity \<Rightarrow> request_tenant \<Rightarrow> string \<Rightarrow> uuid \<Rightarrow> add_override_form
    \<Rightarrow> ('z world_scheme, 'e, admin_page response) io" where
  "add_quota_override E A identity tenant tenant_slug i form = with_role identity [ADMIN]
     (case (parse_form_datetime A (af_valid_from form), parse_form_datetime A (af_valid_to form)) of
        (Some valid_from, Some valid_to) \<Rightarrow>
         let audit = (\<lambda>outcome. attempt (audit_record E (id_actor identity) ''producer_quota_override.add'' (Some (rt_tenant_id tenant))
               [(''producer_id'', JUuid i), (''channel'', JStr (af_channel form)), (''class'', JStr (af_class form)),
                (''per_day'', JInt (af_per_day form)), (''valid_from'', JTime valid_from), (''valid_to'', JTime valid_to),
                (''approved_by'', JStr (af_approved_by form)), (''outcome'', JStr outcome)])) in
         (case admin_override_rejection (af_class form) (af_per_day form) valid_from valid_to of
            Some reason \<Rightarrow> thenE (audit ''rejected'') (ret (Text 400 reason))
          | None \<Rightarrow>
             bindE (new_uuid E) (\<lambda>override_id.
             on_ok (insert_override E \<lparr>po_id = override_id, po_producer_id = i, po_channel = af_channel form, po_class = af_class form,
                 po_per_day = af_per_day form, po_valid_from = valid_from, po_valid_to = valid_to, po_approved_by = af_approved_by form,
                 po_reason = af_reason form\<rparr>) (\<lambda>_.
             thenE (audit ''created'') (producers_page E A identity tenant_slug))))
      | _ \<Rightarrow> ret (Status 400))"

section \<open>The panel's routes\<close>

datatype admin_route =
    UiQuotaDashboard
  | UiKillSwitches
  | UiBlastRadius string "string option"
  | EngageKillSwitch engage_form
  | ReleaseKillSwitch uuid
  | UiScheduledQueue scheduled_query
  | CancelScheduled uuid uuid
  | UiProducerRegistry
  | RegisterProducer register_producer_form
  | DisableProducer uuid
  | SetProducerQuota uuid set_quota_form
  | AddQuotaOverride uuid add_override_form

primrec admin_handler :: "env \<Rightarrow> ('k :: linorder) api_parts \<Rightarrow> string \<Rightarrow> admin_route \<Rightarrow> identity \<Rightarrow> request_tenant
    \<Rightarrow> ('z world_scheme, 'e, admin_page response) io" where
  "admin_handler E A slug UiQuotaDashboard identity tenant = ui_quota_dashboard E A identity slug"
| "admin_handler E A slug UiKillSwitches identity tenant = ui_kill_switches E identity tenant slug"
| "admin_handler E A slug (UiBlastRadius scope key) identity tenant = ui_blast_radius E A identity scope key"
| "admin_handler E A slug (EngageKillSwitch form) identity tenant = engage_kill_switch E A identity tenant slug form"
| "admin_handler E A slug (ReleaseKillSwitch i) identity tenant = release_kill_switch E A identity tenant slug i"
| "admin_handler E A slug (UiScheduledQueue q) identity tenant = ui_scheduled_queue E A identity slug q"
| "admin_handler E A slug (CancelScheduled i p) identity tenant = cancel_scheduled E A identity slug i p"
| "admin_handler E A slug UiProducerRegistry identity tenant = ui_producer_registry E A identity slug"
| "admin_handler E A slug (RegisterProducer form) identity tenant = admin_register_producer E A identity tenant slug form"
| "admin_handler E A slug (DisableProducer i) identity tenant = admin_disable_producer E A identity tenant slug i"
| "admin_handler E A slug (SetProducerQuota i form) identity tenant = admin_set_producer_quota E A identity tenant slug i form"
| "admin_handler E A slug (AddQuotaOverride i form) identity tenant = add_quota_override E A identity tenant slug i form"

section \<open>Roles of the panel\<close>

primrec admin_allowed :: "admin_route \<Rightarrow> string list" where
  "admin_allowed UiQuotaDashboard = [COMMS_OPS]"
| "admin_allowed UiKillSwitches = [COMMS_OPS]"
| "admin_allowed (UiBlastRadius scope key) = [COMMS_OPS]"
| "admin_allowed (EngageKillSwitch form) = [COMMS_OPS]"
| "admin_allowed (ReleaseKillSwitch i) = [COMMS_OPS]"
| "admin_allowed (UiScheduledQueue q) = [COMMS_OPS]"
| "admin_allowed (CancelScheduled i p) = [COMMS_OPS]"
| "admin_allowed UiProducerRegistry = [ADMIN]"
| "admin_allowed (RegisterProducer form) = [ADMIN]"
| "admin_allowed (DisableProducer i) = [ADMIN]"
| "admin_allowed (SetProducerQuota i form) = [ADMIN]"
| "admin_allowed (AddQuotaOverride i form) = [ADMIN]"

lemmas admin_handler_defs = admin_handler.simps ui_quota_dashboard_def ui_kill_switches_def ui_blast_radius_def engage_kill_switch_def
  release_kill_switch_def ui_scheduled_queue_def cancel_scheduled_def ui_producer_registry_def admin_register_producer_def
  admin_disable_producer_def admin_set_producer_quota_def add_quota_override_def

lemmas admin_page_defs = kill_switches_page_def scheduled_page_def producers_page_def then_producers_page_def Let_def

lemma fails_case_configure_error [fails_intros]:
  "(\<And>e. fails_with P (f e)) \<Longrightarrow> fails_with P g \<Longrightarrow> fails_with P (case x of CE_Database e \<Rightarrow> f e | AlreadyEngaged \<Rightarrow> g)"
  by (cases x) simp_all

lemma keeps_case_configure_error [keeps_intros]:
  "(\<And>e. keeps P (f e)) \<Longrightarrow> keeps P g \<Longrightarrow> keeps P (case x of CE_Database e \<Rightarrow> f e | AlreadyEngaged \<Rightarrow> g)"
  by (cases x) simp_all

interpretation panel: guarded_routes admin_allowed admin_handler
proof
  show "fails_with (\<lambda>_. False) (admin_handler E A slug r identity tenant)" for E and A :: "('k :: linorder) api_parts" and slug r identity tenant
    by (cases r; simp only: admin_handler_defs admin_page_defs; intro fails_intros)
  show "wp (admin_handler E A slug r identity tenant)
      (\<lambda>resp w'. turned_away resp \<and> (quiet E \<longrightarrow> w_db w' = w_db w \<and> w_ctl w' = w_ctl w)) (\<lambda>_ _. False) w"
    if "id_role identity \<notin> set (admin_allowed r)" for E and A :: "('k :: linorder) api_parts" and slug r identity tenant w
    using that by (cases r) (simp_all add: admin_handler_defs wp_simps)
qed

text \<open>C6: A role never reaches another role's routes.  When everybody the provider lets in has a role that a
  route does not allow, the answer is a refusal without data, and, alone with the databases, the
  request has changed nothing but the access audit; this holds for the reading routes and for the
  admin panel.  Every request of the panel is answered.\<close>

theorem role_reaches_only_its_routes:
  fixes w :: "'z pool_world_scheme" and A :: "('k :: linorder) api_parts"
  assumes "\<And>t i. ap_auth A t = Inr i \<Longrightarrow> id_role i = role"
  shows "(role \<notin> set (read_allowed r) \<longrightarrow> wp (served E A req (read_handler E A r))
       (\<lambda>resp w'. turned_away resp \<and> (quiet E \<longrightarrow> only_access_logged w w')) (\<lambda>_ _. False) w)
   \<and> (role \<notin> set (admin_allowed a) \<longrightarrow> wp (served E A req (admin_handler E A (ar_slug req) a))
       (\<lambda>resp w'. turned_away resp \<and> (quiet E \<longrightarrow> only_access_logged w w')) (\<lambda>_ _. False) w)
   \<and> wp (served E A req (admin_handler E A (ar_slug req) a)) (\<lambda>_ _. True) (\<lambda>_ _. False) w"
  using reading.served_refuses [of A r E req w] panel.served_refuses [of A a E req w] panel.served_answers [of E A req a w] assms
  by auto

section \<open>What the panel keeps\<close>

text \<open>
  An invariant of the tenant database that every statement behind the panel keeps: the switch and
  queue statements, whatever is written to the producers, the overrides and the access audit, and a
  legal quota.
\<close>

locale panel_invariant =
  fixes I :: "tenant_db \<Rightarrow> bool"
  assumes engage: "I d \<Longrightarrow> insert_switch s d = Inr (u, d') \<Longrightarrow> I d'"
    and release: "I d \<Longrightarrow> I (snd (release_switch i actor now d))"
    and cancel: "I d \<Longrightarrow> I (snd (mark_cancelled now i p d))"
    and producers: "I d \<Longrightarrow> I (d\<lparr>t_producer := prs\<rparr>)"
    and quota: "I d \<Longrightarrow> \<not> illegal_quota (pq_class input) (pq_enforcement input) \<Longrightarrow> I (put_quota input d)"
    and override: "I d \<Longrightarrow> I (d\<lparr>t_producer_quota_override := os\<rparr>)"
    and access: "I d \<Longrightarrow> I (d\<lparr>t_access_audit := t\<rparr>)"
begin

lemma keeps_writes:
  assumes "db_stable E I"
  shows "keeps (db_inv I) (engage E tenant scope key oq reason actor)" "keeps (db_inv I) (release E tenant i actor)"
    "keeps (db_inv I) (cancel E i p)" "keeps (db_inv I) (insert_producer E i name cert team contact)" "keeps (db_inv I) (set_enabled E i b)"
    "keeps (db_inv I) (insert_override E r)" "keeps (db_inv I) (record_access E x now)"
proof -
  have release': "I d'" if "I d" "release_switch i actor now d = (b, d')" for i actor now d b d'
    using local.release [OF that(1), of i actor now] that(2) by simp
  have cancel': "I d'" if "I d" "mark_cancelled now i p d = (b, d')" for i p now d b d'
    using local.cancel [OF that(1), of now i p] that(2) by simp
  show "keeps (db_inv I) (engage E tenant scope key oq reason actor)"
    unfolding engage_def audit_engage_def
    by (intro keeps_intros keeps_stmt assms) (erule (1) local.engage)
  show "keeps (db_inv I) (release E tenant i actor)"
    unfolding release_def Let_def by (intro keeps_intros keeps_stmt assms) (auto dest: release')
  show "keeps (db_inv I) (cancel E i p)"
    unfolding cancel_def by (intro keeps_intros keeps_stmt assms) (auto dest: cancel')
  show "keeps (db_inv I) (insert_producer E i name cert team contact)"
    unfolding insert_producer_def
    by (intro keeps_intros keeps_stmt assms) (auto simp: add_producer_def intro: producers split: if_splits)
  show "keeps (db_inv I) (set_enabled E i b)"
    unfolding set_enabled_def by (intro keeps_intros assms producers)
  show "keeps (db_inv I) (insert_override E r)"
    unfolding insert_override_def
    by (intro keeps_stmt assms) (auto simp: ins_pk_def intro: override split: if_splits)
  show "keeps (db_inv I) (record_access E x now)"
    unfolding record_access_def
    by (intro keeps_intros keeps_stmt assms) (auto simp: ins_pk_def intro: access split: if_splits)
qed

lemma keeps_commands:
  assumes "db_stable E I"
  shows "keeps (db_inv I) (register_producer_inner E t name cert team contact actor)" "keeps (db_inv I) (disable_producer_inner E t name actor)"
    "\<not> illegal_quota (pq_class input) (pq_enforcement input) \<Longrightarrow> keeps (db_inv I) (set_producer_quota_inner E t actor input)"
proof -
  have certs: "keeps (db_inv I) (upsert_producer_cert E a b c)" "keeps (db_inv I) (find_producer_cert E a)" "keeps (db_inv I) (set_cert_enabled E a e)"
    for a b c e
    unfolding upsert_producer_cert_def find_producer_cert_def set_cert_enabled_def by (intro keeps_intros)+
  show "keeps (db_inv I) (register_producer_inner E t name cert team contact actor)"
    unfolding register_producer_inner_def classify_registration_def register_audit_def
    by (intro keeps_intros keeps_writes certs assms)
  show "keeps (db_inv I) (disable_producer_inner E t name actor)"
    unfolding disable_producer_inner_def find_by_name_def register_audit_def
    by (intro keeps_intros keeps_writes certs assms)
  assume legal: "\<not> illegal_quota (pq_class input) (pq_enforcement input)"
  have "keeps (db_inv I) (upsert_quota E input)"
    unfolding upsert_quota_def using legal by (intro keeps_stmt assms) (auto intro: quota split: if_splits)
  then show "keeps (db_inv I) (set_producer_quota_inner E t actor input)"
    unfolding set_producer_quota_inner_def load_one_quota_def audit_set_def by (intro keeps_intros assms)
qed

lemma keeps_handler:
  assumes "db_stable E I"
  shows "keeps (db_inv I) (admin_handler E A slug r identity tenant)"
proof -
  note reads = list_quota_rows_def list_producer_rows_def current_windows_def load_tenant_config_def load_current_usage_def
    load_usage_history_def list_active_for_tenant_def list_active_def blast_radius_def list_queue_def list_override_rows_def find_producer_by_id_def
  note rules = keeps_intros keeps_writes keeps_commands assms
  show ?thesis
    by (cases r; simp only: admin_handler_defs admin_page_defs reads; intro rules; simp add: illegal_quota_def)
qed

lemma keeps_served:
  assumes "db_stable E I"
  shows "keeps (db_inv I) (served E A req (admin_handler E A (ar_slug req) r))"
proof -
  have pools: "keeps (db_inv I) (modifyE (\<lambda>w. w\<lparr>w_pools := f w\<rparr>))" for f
    by (auto intro!: wp_keeps simp: db_inv_def wp_simps)
  have connect: "keeps (db_inv I) (connect_with_expected_database E n x)" for n x
    by (rule wp_keeps) (auto simp: db_inv_def wp_simps Let_def)
  show ?thesis
    unfolding served_def access_audit_mw_def log_access_def authed_user_def tenant_from_request_def find_by_slug_def get_or_open_def
      connect_tenant_pool_def find_by_id_def Let_def
    by (intro keeps_intros keeps_handler keeps_writes pools connect assms)
qed

end

interpretation panel_switches: panel_invariant switches_ok
proof
  show "switches_ok d'" if "switches_ok d" "insert_switch s d = Inr (u, d')" for d s u d' using that by (rule insert_switch_ok)
qed (auto simp: release_switch_ok, auto simp: switches_ok_def mark_cancelled_def put_quota_def Let_def)

interpretation panel_quotas: panel_invariant quotas_legal
proof
  show "quotas_legal (put_quota input d)" if "quotas_legal d" "\<not> illegal_quota (pq_class input) (pq_enforcement input)" for d input
    using that by (rule quotas_legal_put)
qed (auto simp: quotas_legal_def insert_switch_def release_switch_def mark_cancelled_def Let_def split: if_splits)

interpretation panel_queue: panel_invariant queue_ok
proof
  show "queue_ok (snd (mark_cancelled now i p d))" if "queue_ok d" for now i p d using that by (rule mark_cancelled_queue_ok)
qed (auto simp: queue_ok_def insert_switch_def release_switch_def put_quota_def split: if_splits)

text \<open>C17: Nothing an operator does in the panel breaks the tenant's data.  Whatever form is sent by whatever
  role, and whatever fails on the way, afterwards no two live switches have the same scope, no
  quota limits authentication or limits transactional messages hard, and the queue still matches
  the ledger.\<close>

theorem panel_keeps_invariants:
  fixes w :: "'z pool_world_scheme"
  assumes "db_stable E switches_ok" and "db_stable E quotas_legal" and "db_stable E queue_ok"
    and "switches_ok (w_db w)" and "quotas_legal (w_db w)" and "queue_ok (w_db w)"
  shows "let after = w_db (snd (served E A req (admin_handler E A (ar_slug req) route) w)) in
    switches_ok after \<and> quotas_legal after \<and> queue_ok after"
  unfolding Let_def
  by (intro conjI keeps_dbD [OF panel_switches.keeps_served] keeps_dbD [OF panel_quotas.keeps_served]
      keeps_dbD [OF panel_queue.keeps_served] assms)

section \<open>The panel and the command line\<close>

text \<open>What both make of a quota: the table afterwards and the outcome on record.\<close>

definition quota_effect :: "producer_quota_input \<Rightarrow> tenant_db \<Rightarrow> tenant_db \<times> string" where
  "quota_effect input d =
     (if illegal_quota (pq_class input) (pq_enforcement input) then (d, ''rejected'')
      else let outcome = setting_outcome (quota_matches input) (quota_at (pq_producer_id input) (pq_channel input) (pq_class input) d) in
        (if outcome \<noteq> ''idempotent'' then put_quota input d else d, outcome))"

definition quota_applied :: "producer_quota_input \<Rightarrow> 'z world_scheme \<Rightarrow> 'z world_scheme \<Rightarrow> bool" where
  "quota_applied input w w' \<longleftrightarrow> w_db w' = fst (quota_effect input (w_db w))
     \<and> audit_log w' = audit_log w @ [(''producer_quota.set'', Some (JStr (snd (quota_effect input (w_db w)))))]"

definition audit_ids_fresh :: "env \<Rightarrow> 'z world_scheme \<Rightarrow> bool" where
  "audit_ids_fresh E w \<longleftrightarrow> (\<forall>n. e_new_uuid E n \<notin> pa_id ` set (c_platform_audit (w_ctl w)))"

lemma audit_record_appends:
  assumes "quiet E" and "audit_ids_fresh E w"
  shows "wp (audit_record E actor action t row) (\<lambda>_ w'. w_db w' = w_db w \<and> audit_log w' = audit_log w @ [(action, map_of row ''outcome'')])
     (\<lambda>_ _. False) w"
  using assms by (auto simp: audit_record_def record_tx_def ins_pk_def wp_simps Let_def audit_log_def audit_ids_fresh_def)

lemma set_quota_inner_applies:
  assumes "quiet E" and "audit_ids_fresh E w" and "producer_exists (pq_producer_id input) (w_db w)"
    and "\<not> illegal_quota (pq_class input) (pq_enforcement input)"
  shows "wp (set_producer_quota_inner E t actor input) (\<lambda>_. quota_applied input w) (\<lambda>_ _. False) w"
proof -
  let ?out = "setting_outcome (quota_matches input) (quota_at (pq_producer_id input) (pq_channel input) (pq_class input) (w_db w))"
  have audit: "wp (audit_set E actor t input out) (\<lambda>_. quota_applied input w) (\<lambda>_ _. False) v"
    if "out = ?out" "w_db v = fst (quota_effect input (w_db w))" "w_ctl v = w_ctl w" for out v
    using that assms(2,4) unfolding audit_set_def
    by (intro wp_mono [OF audit_record_appends [OF assms(1)]])
      (auto simp: audit_ids_fresh_def audit_log_def quota_applied_def quota_effect_def Let_def)
  show ?thesis
    using assms
    by (auto simp: set_producer_quota_inner_def configure_row_def load_one_quota_def upsert_quota_def wp_simps Let_def
        quota_effect_def intro!: wp_mono [OF audit])
qed

lemma tick_irrelevant [simp]:
  "quota_applied input (w\<lparr>w_tick := n\<rparr>) v = quota_applied input w v" "audit_ids_fresh E (w\<lparr>w_tick := n\<rparr>) = audit_ids_fresh E w"
  by (simp_all add: quota_applied_def audit_log_def audit_ids_fresh_def)

lemma quota_applied_cong: "w_db v = w_db v' \<Longrightarrow> w_ctl v = w_ctl v' \<Longrightarrow> quota_applied input w v = quota_applied input w v'"
  by (simp add: quota_applied_def audit_log_def)

lemma producers_page_shows:
  assumes "quiet E"
  shows "wp (producers_page E A identity slug) (\<lambda>resp w'. (\<exists>page. resp = Page page) \<and> w_db w' = w_db w \<and> w_ctl w' = w_ctl w) (\<lambda>_ _. False) w"
  using assms by (simp add: producers_page_def list_producer_rows_def list_quota_rows_def list_override_rows_def wp_simps Let_def)

lemma rejected_quota_applied:
  assumes "quiet E" and "audit_ids_fresh E w" and "illegal_quota (pq_class input) (pq_enforcement input)"
    and "map_of row ''outcome'' = Some (JStr ''rejected'')"
  shows "wp (audit_record E actor ''producer_quota.set'' t row) (\<lambda>_. quota_applied input w) (\<lambda>_ _. False) w"
  using assms(3,4)
  by (intro wp_mono [OF audit_record_appends [OF assms(1,2)]]) (auto simp: quota_applied_def quota_effect_def)


section \<open>A concrete panel\<close>

definition panel_world :: pool_world where
  "panel_world = reader_world\<lparr>w_db := bounced_db\<lparr>t_producer := [\<lparr>pr_id = 5, pr_name = ''shop'', pr_cert_subject = ''CN=shop'',
     pr_owner_team = ''sales'', pr_contact = ''shop'', pr_enabled = True, pr_created_at = 0\<rparr>]\<rparr>\<rparr>"

definition soft_quota_form :: set_quota_form where
  "soft_quota_form = \<lparr>sf_channel = ''sms'', sf_class = ''transactional'', sf_per_minute = Some ''100'', sf_per_day = None, sf_enforcement = ''soft''\<rparr>"

definition engage_all_form :: engage_form where
  "engage_all_form = \<lparr>ef_scope = ''global'', ef_scope_key = Some '''', ef_on_queued = ''hold'', ef_reason = ''drill''\<rparr>"

theorem role_reaches_only_its_routes_witness:
  "fst (served (quiet_env 0) (sample_api ''bob'' COMMS_OPS) timeline_request
       (admin_handler (quiet_env 0) (sample_api ''bob'' COMMS_OPS) ''acme'' UiProducerRegistry) panel_world
     :: (unit + admin_page response) \<times> pool_world) = Inr (Status 403)
   \<and> only_access_logged panel_world (snd (served (quiet_env 0) (sample_api ''bob'' COMMS_OPS) timeline_request
       (admin_handler (quiet_env 0) (sample_api ''bob'' COMMS_OPS) ''acme'' UiProducerRegistry) panel_world
     :: (unit + admin_page response) \<times> pool_world))"
proof -
  let ?m = "served (quiet_env 0) (sample_api ''bob'' COMMS_OPS) timeline_request
       (admin_handler (quiet_env 0) (sample_api ''bob'' COMMS_OPS) ''acme'' UiProducerRegistry)
     :: (pool_world, unit, admin_page response) io"
  have slug: "ar_slug timeline_request = ''acme''" by (simp add: timeline_request_def)
  have "wp ?m (\<lambda>resp w'. turned_away resp \<and> (quiet (quiet_env 0) \<longrightarrow> only_access_logged panel_world w')) (\<lambda>_ _. False) panel_world"
    using role_reaches_only_its_routes [where w = panel_world and a = UiProducerRegistry and req = timeline_request and E = "quiet_env 0"
        and A = "sample_api ''bob'' COMMS_OPS" and role = COMMS_OPS, unfolded slug, THEN conjunct2, THEN conjunct1] sample_api_auth
    by simp
  moreover have "fst (?m panel_world) = Inr (Status 403)" by code_simp
  ultimately show ?thesis by (auto simp: wp_def split: prod.splits sum.splits)
qed

lemma panel_world_ok: "switches_ok (w_db panel_world)" "quotas_legal (w_db panel_world)" "queue_ok (w_db panel_world)"
  using bounced_world_ok(1)
  by (simp_all add: panel_world_def bounced_world_def bounced_db_def empty_db_def switches_ok_def quotas_legal_def ledger_ok_def queue_ok_def)

theorem panel_keeps_invariants_witness:
  "let after = snd (served (quiet_env 0) (sample_api ''bob'' COMMS_OPS) timeline_request
       (admin_handler (quiet_env 0) (sample_api ''bob'' COMMS_OPS) ''acme'' (EngageKillSwitch engage_all_form)) panel_world
       :: (unit + admin_page response) \<times> pool_world) in
   length (t_kill_switch (w_db after)) = 1 \<and> switches_ok (w_db after) \<and> quotas_legal (w_db after) \<and> queue_ok (w_db after)"
proof -
  let ?after = "snd (served (quiet_env 0) (sample_api ''bob'' COMMS_OPS) timeline_request
       (admin_handler (quiet_env 0) (sample_api ''bob'' COMMS_OPS) ''acme'' (EngageKillSwitch engage_all_form)) panel_world
       :: (unit + admin_page response) \<times> pool_world)"
  have slug: "ar_slug timeline_request = ''acme''" by (simp add: timeline_request_def)
  have "switches_ok (w_db ?after) \<and> quotas_legal (w_db ?after) \<and> queue_ok (w_db ?after)"
    by (rule panel_keeps_invariants [unfolded Let_def, where req = timeline_request, unfolded slug]) (simp_all add: quiet_stable panel_world_ok)
  moreover have "length (t_kill_switch (w_db ?after)) = 1" by code_simp
  ultimately show ?thesis by (simp only: Let_def simp_thms)
qed


section \<open>Numbers\<close>

lemma parse_digits_append: "parse_digits acc (xs @ [c]) = (case parse_digits acc xs of None \<Rightarrow> None | Some n \<Rightarrow> map_option (\<lambda>v. 10 * n + v) (digit_value c))"
  by (induction acc xs rule: parse_digits.induct) (auto split: option.splits)

lemma digit_value_char: "n < 10 \<Longrightarrow> digit_value (char_of (48 + n)) = Some n"
  by (simp add: digit_value_def)

lemma parse_show_digits: "parse_digits 0 (show_digits n) = Some n"
proof (induction n rule: show_digits.induct)
  case (1 n)
  then show ?case by (subst show_digits.simps) (auto simp: digit_value_char parse_digits_append)
qed

lemma show_digits_head: "\<exists>c cs. show_digits n = c # cs \<and> digit_value c \<noteq> None"
proof (induction n rule: show_digits.induct)
  case (1 n)
  then show ?case by (subst show_digits.simps) (auto simp: digit_value_char)
qed

text \<open>A limit the panel shows can be typed back into its form.\<close>

lemma form_limit_format:
  assumes "- (2 ^ 31) \<le> v" and "v < 2 ^ 31"
  shows "form_limit (Some (format_optional_limit (Some v))) = Some (Some v)"
proof -
  obtain c cs where c: "show_digits (nat \<bar>v\<bar>) = c # cs" "digit_value c \<noteq> None" using show_digits_head by blast
  then have "c \<noteq> CHR ''-''" "c \<noteq> CHR ''+''" by (auto simp: digit_value_def)
  then have "parse_i32 (show_int v) = Some v"
    using assms c(1) parse_show_digits [of "nat \<bar>v\<bar>"]
    by (cases "v < 0") (auto simp: parse_i32_def show_int_def Let_def)
  moreover have "show_int v \<noteq> []" using c(1) by (cases "v < 0") (auto simp: show_int_def)
  ultimately show ?thesis by (simp add: form_limit_def nonempty_def format_optional_limit_def)
qed

end
