(* ===== verification/Registry.thy ===== *)
theory Registry
  imports Ingest Producer Settings
begin

text \<open>
  How a request reaches its tenant: the per-process registry of open tenants
  (\<open>tenant/registry.rs\<close>) with its idle eviction, and the extraction of the caller's identity from the
  client certificate (\<open>ingest/identity.rs\<close>).

  A pool is the name of the database it is connected to.  The background poll of a tenant's kill
  switches is a task; the process state holds the tenants whose task is running.
\<close>

section \<open>State\<close>

record 'c tenant_context =
  tx_tenant :: tenant_row
  tx_pool :: string
  tx_config :: tenant_config
  tx_pepper :: bytes
  tx_dek_cache :: "'c key_cache"
  tx_kill_switches :: active_set

record 'c registry_entry =
  re_context :: "'c tenant_context"
  re_last_access :: int

record 'c registry_world = world +
  w_contexts :: "(uuid \<times> 'c registry_entry) list"
  w_pollers :: "uuid list"

datatype registry_error =
    RegistryUnknownTenant uuid
  | NotConfigured uuid
  | RegistryDatabase sqlx_error
  | RegistryVault keystore_error

primrec registry_of_pepper :: "vault_error \<Rightarrow> registry_error" where
  "registry_of_pepper (VaultDatabase e) = RegistryDatabase e"
| "registry_of_pepper (VaultStore e) = RegistryVault e"

section \<open>Operations\<close>

definition touch :: "env \<Rightarrow> uuid \<Rightarrow> (('c, 'z) registry_world_scheme, 'e, unit) io" where
  "touch E tenant_id = bindE (instant_now E) (\<lambda>now. modifyE (\<lambda>w. w\<lparr>w_contexts :=
     map (\<lambda>(i, e). (i, if i = tenant_id then e\<lparr>re_last_access := now\<rparr> else e)) (w_contexts w)\<rparr>))"

text \<open>The part of \<open>get_or_open\<close> that runs under the write lock after both lookups missed.  \<open>fresh\<close> is a new
  key cache.\<close>

definition open_tenant :: "env \<Rightarrow> keystore \<Rightarrow> 'c key_cache \<Rightarrow> sqlx_error + unit \<Rightarrow> uuid
    \<Rightarrow> (('c, 'z) registry_world_scheme, registry_error, 'c tenant_context) io" where
  "open_tenant E K fresh parsed tenant_id =
     bindE (map_err RegistryDatabase (find_by_id E tenant_id)) (\<lambda>found.
     bindE (of_result (ok_or (RegistryUnknownTenant tenant_id) found)) (\<lambda>tenant.
     thenE (map_err RegistryDatabase (connect_tenant_pool E parsed tenant_id (tn_database_name tenant)))
     (bindE (map_err RegistryDatabase (load_tenant_config E)) (\<lambda>loaded.
      bindE (of_result (ok_or (NotConfigured tenant_id) loaded)) (\<lambda>config.
      bindE (map_err registry_of_pepper (ensure_tenant_pepper E K tenant)) (\<lambda>pepper.
      let context = \<lparr>tx_tenant = tenant, tx_pool = tn_database_name tenant, tx_config = config, tx_pepper = pepper,
            tx_dek_cache = fresh, tx_kill_switches = new_cache\<rparr> in
      thenE (modifyE (\<lambda>w. w\<lparr>w_pollers := tenant_id # w_pollers w\<rparr>))
      (bindE (instant_now E) (\<lambda>now.
       thenE (modifyE (\<lambda>w. w\<lparr>w_contexts := (tenant_id, \<lparr>re_context = context, re_last_access = now\<rparr>) # w_contexts w\<rparr>))
         (ret context)))))))))"

definition get_or_open_context :: "env \<Rightarrow> keystore \<Rightarrow> 'c key_cache \<Rightarrow> sqlx_error + unit \<Rightarrow> uuid
    \<Rightarrow> (('c, 'z) registry_world_scheme, registry_error, 'c tenant_context) io" where
  "get_or_open_context E K fresh parsed tenant_id =
     bindE (gets (\<lambda>w. map_of (w_contexts w) tenant_id)) (\<lambda>entry.
     case entry of
       Some e \<Rightarrow> thenE (touch E tenant_id) (ret (re_context e))
     | None \<Rightarrow> open_tenant E K fresh parsed tenant_id)"

text \<open>\<open>elapsed\<close> saturates at zero; every entry is compared with its own reading of the clock.\<close>

fun expired_entries :: "env \<Rightarrow> int \<Rightarrow> (uuid \<times> 'c registry_entry) list \<Rightarrow> ('z world_scheme, 'e, uuid list) io" where
  "expired_entries E idle_ttl [] = ret []"
| "expired_entries E idle_ttl ((i, e) # rest) =
     bindE (instant_now E) (\<lambda>now.
     bindE (expired_entries E idle_ttl rest) (\<lambda>ids.
       ret (if max 0 (now - re_last_access e) \<ge> idle_ttl then i # ids else ids)))"

text \<open>The removed entries' poll loops are cancelled and awaited.\<close>

definition evict_idle :: "env \<Rightarrow> int \<Rightarrow> (('c, 'z) registry_world_scheme, 'e, unit) io" where
  "evict_idle E idle_ttl =
     bindE (gets w_contexts) (\<lambda>contexts.
     bindE (expired_entries E idle_ttl contexts) (\<lambda>expired.
     thenE (modifyE (\<lambda>w. w\<lparr>w_contexts := filter (\<lambda>(i, e). i \<notin> set expired) (w_contexts w)\<rparr>))
       (modifyE (\<lambda>w. w\<lparr>w_pollers := filter (\<lambda>i. i \<notin> set expired) (w_pollers w)\<rparr>))))"

section \<open>The caller\<close>

record 'c producer_context =
  px_producer_id :: uuid
  px_tenant :: "'c tenant_context"

primrec ingest_of_resolution :: "resolution_error \<Rightarrow> ingest_error" where
  "ingest_of_resolution UnknownCert = UnknownProducer"
| "ingest_of_resolution (Disabled t p) = ProducerDisabled"
| "ingest_of_resolution (ResolutionTenantNotActive t p) = TenantNotActive"
| "ingest_of_resolution (ResolutionDatabase e) = IngestDatabase e"

primrec ingest_of_registry :: "registry_error \<Rightarrow> ingest_error" where
  "ingest_of_registry (RegistryUnknownTenant t) = UnknownProducer"
| "ingest_of_registry (NotConfigured t) = TenantNotConfigured"
| "ingest_of_registry (RegistryDatabase e) = IngestDatabase e"
| "ingest_of_registry (RegistryVault e) = IngestVault e"

text \<open>\<open>peer\<close> is the subject the TLS layer attached to the request.\<close>

definition producer_from_request :: "env \<Rightarrow> keystore \<Rightarrow> 'c key_cache \<Rightarrow> sqlx_error + unit \<Rightarrow> string option
    \<Rightarrow> (('c, 'z) registry_world_scheme, ingest_error, 'c producer_context) io" where
  "producer_from_request E K fresh parsed peer =
     bindE (of_result (ok_or MissingPeerCertificate peer)) (\<lambda>subject.
     bindE (map_err ingest_of_resolution (resolve_producer E subject)) (\<lambda>identity.
     bindE (map_err ingest_of_registry (get_or_open_context E K fresh parsed (ri_tenant_id identity))) (\<lambda>tenant.
       ret \<lparr>px_producer_id = ri_producer_id identity, px_tenant = tenant\<rparr>)))"

section \<open>The registry\<close>

text \<open>The control database names a tenant's database once and for all: \<open>name\<close> gives it.\<close>

definition names_ok :: "(uuid \<Rightarrow> string) \<Rightarrow> control_db \<Rightarrow> bool" where
  "names_ok name c \<longleftrightarrow> (\<forall>t \<in> set (c_tenant c). tn_database_name t = name (tn_id t))"

text \<open>One context per tenant, opened for that tenant and connected to its database, and exactly one poll
  task per context.\<close>

definition context_ok :: "(uuid \<Rightarrow> string) \<Rightarrow> uuid \<Rightarrow> 'c tenant_context \<Rightarrow> bool" where
  "context_ok name i cx \<longleftrightarrow> tn_id (tx_tenant cx) = i \<and> tx_pool cx = name i"

definition registry_ok :: "(uuid \<Rightarrow> string) \<Rightarrow> ('c, 'z) registry_world_scheme \<Rightarrow> bool" where
  "registry_ok name w \<longleftrightarrow> distinct (map fst (w_contexts w)) \<and> distinct (w_pollers w) \<and> set (w_pollers w) = fst ` set (w_contexts w)
     \<and> (\<forall>(i, e) \<in> set (w_contexts w). context_ok name i (re_context e))"

text \<open>What a request's database and Vault calls leave alone.\<close>

definition open_set :: "('c, 'z) registry_world_scheme \<Rightarrow> (uuid \<times> 'c registry_entry) list \<times> uuid list" where
  "open_set w = (w_contexts w, w_pollers w)"

definition calm :: "(uuid \<Rightarrow> string) \<Rightarrow> (uuid \<times> 'c registry_entry) list \<times> uuid list \<Rightarrow> ('c, 'z) registry_world_scheme \<Rightarrow> bool" where
  "calm name x w \<longleftrightarrow> open_set w = x \<and> names_ok name (w_ctl w)"

lemma registry_ok_open_set: "open_set w = open_set w' \<Longrightarrow> registry_ok name w = registry_ok name w'"
  by (simp add: registry_ok_def open_set_def)

lemma calm_prims [keeps_intros]:
  assumes "ctl_stable E (names_ok name)"
  shows "keeps (calm name x) (ctl_query E f)" "keeps (calm name x) (query E g)" "keeps (calm name x) (instant_now E)"
    "keeps (calm name x) (connect_with_expected_database E a b)" "keeps (calm name x) (record_vault_pepper_wrapped E i wr)"
proof -
  have st: "names_ok name c \<Longrightarrow> names_ok name (e_ctl_interfere E n c)" for n c using assms by (simp add: ctl_stable_def)
  have pepper: "names_ok name (c\<lparr>c_tenant := upd_where P (\<lambda>t. t\<lparr>tn_vault_pepper_wrapped := p\<rparr>) (c_tenant c)\<rparr>)" if "names_ok name c" for c P p
    using that by (auto simp: names_ok_def upd_where_def)
  note simps = calm_def open_set_def wp_simps Let_def record_vault_pepper_wrapped_def
  show "keeps (calm name x) (ctl_query E f)" "keeps (calm name x) (query E g)" "keeps (calm name x) (instant_now E)"
    "keeps (calm name x) (connect_with_expected_database E a b)" "keeps (calm name x) (record_vault_pepper_wrapped E i wr)"
    by (rule wp_keeps; auto simp: simps st pepper split: sum.splits fault.splits)+
qed

lemma calm_vault [keeps_intros]: "keeps (calm name x) (create_dek K m)" "keeps (calm name x) (unwrap_dek K m y)"
  by (rule wp_keeps; auto simp: calm_def open_set_def wp_simps split: sum.splits)+

lemma calm_calls [keeps_intros]:
  assumes "ctl_stable E (names_ok name)"
  shows "keeps (calm name x) (find_by_id E i)" "keeps (calm name x) (connect_tenant_pool E parsed i n)"
    "keeps (calm name x) (load_tenant_config E)" "keeps (calm name x) (ensure_tenant_pepper E K t)"
    "keeps (calm name x) (resolve_producer E s)"
  unfolding find_by_id_def connect_tenant_pool_def load_tenant_config_def ensure_tenant_pepper_def resolve_producer_def find_producer_cert_def
  by (intro keeps_intros assms)+

lemma find_by_id_named:
  assumes "ctl_stable E (names_ok name)" and "calm name x w"
  shows "wp (find_by_id E i) (\<lambda>found w'. calm name x w' \<and> (\<forall>t. found = Some t \<longrightarrow> tn_id t = i \<and> tn_database_name t = name i)) (\<lambda>_. calm name x) w"
  using assms
  by (auto simp: find_by_id_def wp_simps Let_def calm_def open_set_def ctl_stable_def find_tenant_def names_ok_def dest!: find_row_SomeD)

lemma bind_Inr: "bindE (of_result (Inr a)) f = f a"
  by (simp add: bindE_def of_result_def)

text \<open>Opening adds one entry and starts one task, or changes nothing.\<close>

lemma open_tenant_wp:
  fixes w :: "('c, 'z) registry_world_scheme"
  assumes E: "ctl_stable E (names_ok name)" and "calm name x w"
  shows "wp (open_tenant E K fresh parsed i)
     (\<lambda>cx w'. context_ok name i cx \<and> (\<exists>n. open_set w' = ((i, \<lparr>re_context = cx, re_last_access = n\<rparr>) # fst x, i # snd x)))
     (\<lambda>_. calm name x) w"
proof -
  let ?Q = "\<lambda>cx (w' :: ('c, 'z) registry_world_scheme). context_ok name i cx
      \<and> (\<exists>n. open_set w' = ((i, \<lparr>re_context = cx, re_last_access = n\<rparr>) # fst x, i # snd x))"
  have calm: "wp m (\<lambda>_. calm name x) (\<lambda>_. calm name x) v" if "keeps (calm name x) m" "calm name x v" for m :: "(_, 'e, 'a) io" and v
    using keeps_wp [OF that] .
  have fin: "wp (let context = \<lparr>tx_tenant = t, tx_pool = tn_database_name t, tx_config = config, tx_pepper = pepper,
            tx_dek_cache = fresh, tx_kill_switches = new_cache\<rparr> in
      thenE (modifyE (\<lambda>w. w\<lparr>w_pollers := i # w_pollers w\<rparr>))
      (bindE (instant_now E) (\<lambda>now.
       thenE (modifyE (\<lambda>w. w\<lparr>w_contexts := (i, \<lparr>re_context = context, re_last_access = now\<rparr>) # w_contexts w\<rparr>))
         (ret context)))) ?Q (\<lambda>_. calm name x) v"
    if "calm name x v" "tn_id t = i" "tn_database_name t = name i" for t config pepper and v :: "('c, 'z) registry_world_scheme"
    using that by (auto simp: wp_simps Let_def calm_def open_set_def context_ok_def)
  have step: "wp (bindE m f) ?Q (\<lambda>_. calm name x) v" if "keeps (calm name x) m" "calm name x v"
      "\<And>a v. calm name x v \<Longrightarrow> wp (f a) ?Q (\<lambda>_. calm name x) v" for m :: "(_, _, 'a) io" and f v
    by (rule wp_bindI [OF keeps_wp [OF that(1,2)]]) (rule that(3))
  show ?thesis
    unfolding open_tenant_def
  proof (rule wp_bindI, rule wp_map_errI, rule find_by_id_named [OF E assms(2)], goal_cases)
    case (1 found v)
    then show ?case
    proof (cases found)
      case (Some t)
      with 1 have t: "tn_id t = i" "tn_database_name t = name i" "calm name x v" by auto
      show ?thesis
        unfolding Some ok_or_simps bind_Inr
        by (rule step, intro keeps_intros E, rule t(3), rule step, intro keeps_intros E, assumption,
            rule step, intro keeps_intros, assumption, rule step, intro keeps_intros E, assumption, rule fin [OF _ t(1,2)])
    qed (simp add: wp_simps)
  qed
qed

lemma touch_wp:
  "wp (touch E i) (\<lambda>_ w'. \<exists>n. open_set w' = (map (\<lambda>(j, e). (j, if j = i then e\<lparr>re_last_access := n\<rparr> else e)) (w_contexts w), w_pollers w)) R w"
  by (auto simp: touch_def wp_simps open_set_def)

lemma registry_ok_touched:
  assumes "registry_ok name w" and "open_set w' = (map (\<lambda>(j, e). (j, if j = i then e\<lparr>re_last_access := n\<rparr> else e)) (w_contexts w), w_pollers w)"
  shows "registry_ok name w'"
proof -
  have keys: "map fst (w_contexts w') = map fst (w_contexts w)" using assms(2) by (auto simp: open_set_def)
  then have "fst ` set (w_contexts w') = fst ` set (w_contexts w)" by (metis list.set_map)
  moreover have "w_pollers w' = w_pollers w" using assms(2) by (simp add: open_set_def)
  moreover have "\<forall>(j, e) \<in> set (w_contexts w'). context_ok name j (re_context e)"
    using assms by (auto simp: registry_ok_def open_set_def split: if_splits)
  ultimately show ?thesis using assms(1) keys by (simp add: registry_ok_def)
qed

lemma get_or_open_context_wp:
  fixes w :: "('c, 'z) registry_world_scheme"
  assumes E: "ctl_stable E (names_ok name)" and "registry_ok name w" and "names_ok name (w_ctl w)"
  shows "wp (get_or_open_context E K fresh parsed i) (\<lambda>cx w'. context_ok name i cx \<and> registry_ok name w') (\<lambda>_ w'. registry_ok name w') w"
proof (cases "map_of (w_contexts w) i")
  case (Some e)
  then have "(i, e) \<in> set (w_contexts w)" by (rule map_of_SomeD)
  then have "context_ok name i (re_context e)" using assms(2) by (auto simp: registry_ok_def)
  with Some show ?thesis
    unfolding get_or_open_context_def wp_bindE wp_gets Some option.case
    by (intro wp_mono [OF touch_wp]) (auto simp: wp_ret intro: registry_ok_touched [OF assms(2)])
next
  case None
  then have new: "i \<notin> fst ` set (w_contexts w)" by (simp add: map_of_eq_None_iff)
  have "wp (open_tenant E K fresh parsed i) (\<lambda>cx w'. context_ok name i cx \<and> registry_ok name w') (\<lambda>_ w'. registry_ok name w') w"
  proof (rule wp_mono [OF open_tenant_wp [OF E, of "open_set w"]], goal_cases)
    case 1
    show ?case using assms(3) by (simp add: calm_def)
  next
    case (2 cx w')
    with new assms(2) show ?case by (auto simp: registry_ok_def open_set_def)
  next
    case (3 e w')
    then show ?case using assms(2) registry_ok_open_set [of w' w] by (simp add: calm_def)
  qed
  with None show ?thesis by (simp add: get_or_open_context_def wp_bindE wp_gets)
qed

section \<open>Eviction\<close>

lemma expired_entries_wp:
  "wp (expired_entries E ttl xs) (\<lambda>ids w'. (\<exists>n. w' = w\<lparr>w_tick := n\<rparr>)
      \<and> (\<forall>i \<in> set ids. \<exists>e n. (i, e) \<in> set xs \<and> max 0 (e_instant E n - re_last_access e) \<ge> ttl)
      \<and> (\<forall>(i, e) \<in> set xs. (\<forall>n. max 0 (e_instant E n - re_last_access e) \<ge> ttl) \<longrightarrow> i \<in> set ids)) R w"
proof (induction xs arbitrary: w)
  case Nil
  show ?case by (simp add: wp_ret) (rule exI [of _ "w_tick w"], simp)
next
  case (Cons x xs)
  obtain i e where x: "x = (i, e)" by force
  show ?case
    unfolding x expired_entries.simps wp_bindE wp_instant_now
    by (rule wp_mono [OF Cons.IH]) (auto simp: wp_ret, (meson)+)
qed

text \<open>Eviction drops entries with their tasks, and keeps the registry consistent.\<close>

lemma evict_idle_wp:
  fixes w :: "('c, 'z) registry_world_scheme"
  assumes "registry_ok name w"
  shows "wp (evict_idle E ttl) (\<lambda>_ w'. registry_ok name w'
      \<and> (\<forall>(i, e) \<in> set (w_contexts w). ((\<forall>n. max 0 (e_instant E n - re_last_access e) < ttl) \<longrightarrow> (i, e) \<in> set (w_contexts w') \<and> i \<in> set (w_pollers w'))
           \<and> ((\<forall>n. max 0 (e_instant E n - re_last_access e) \<ge> ttl) \<longrightarrow> i \<notin> fst ` set (w_contexts w') \<and> i \<notin> set (w_pollers w')))) R w"
proof -
  have "wp (expired_entries E ttl (w_contexts w)) (\<lambda>ids w'. (\<exists>n. w' = w\<lparr>w_tick := n\<rparr>)
      \<and> (\<forall>i \<in> set ids. \<exists>e n. (i, e) \<in> set (w_contexts w) \<and> max 0 (e_instant E n - re_last_access e) \<ge> ttl)
      \<and> (\<forall>(i, e) \<in> set (w_contexts w). (\<forall>n. max 0 (e_instant E n - re_last_access e) \<ge> ttl) \<longrightarrow> i \<in> set ids)) R w"
    by (rule expired_entries_wp)
  then show ?thesis
    unfolding evict_idle_def wp_bindE wp_gets
  proof (rule wp_mono, goal_cases)
    case (1 ids w')
    have d: "distinct (map fst (w_contexts w))" "distinct (w_pollers w)" "set (w_pollers w) = fst ` set (w_contexts w)"
        "\<forall>(i, e) \<in> set (w_contexts w). context_ok name i (re_context e)"
      using assms by (simp_all add: registry_ok_def)
    have once: "e = e'" if "(i, e) \<in> set (w_contexts w)" "(i, e') \<in> set (w_contexts w)" for i e e'
      using d(1) that by (meson eq_key_imp_eq_value)
    from 1 obtain n where w': "w' = w\<lparr>w_tick := n\<rparr>" and idle: "\<And>i. i \<in> set ids \<Longrightarrow> \<exists>e n. (i, e) \<in> set (w_contexts w) \<and> max 0 (e_instant E n - re_last_access e) \<ge> ttl"
        and all: "\<And>i e. (i, e) \<in> set (w_contexts w) \<Longrightarrow> (\<And>n. max 0 (e_instant E n - re_last_access e) \<ge> ttl) \<Longrightarrow> i \<in> set ids"
      by blast
    have young: "i \<notin> set ids" if "(i, e) \<in> set (w_contexts w)" "\<forall>n. max 0 (e_instant E n - re_last_access e) < ttl" for i e
      using idle [of i] once [OF that(1)] that(2) by (auto simp: not_less [symmetric])
    have "map fst (filter (\<lambda>(i, e). i \<notin> set ids) xs) = filter (\<lambda>i. i \<notin> set ids) (map fst xs)" for xs :: "(uuid \<times> 'c registry_entry) list"
      by (induction xs) auto
    then have "registry_ok name (w'\<lparr>w_contexts := filter (\<lambda>(i, e). i \<notin> set ids) (w_contexts w'), w_pollers := filter (\<lambda>i. i \<notin> set ids) (w_pollers w')\<rparr>)"
      using d by (force simp: registry_ok_def w')
    moreover have "i \<in> set (w_pollers w)" if "(i, e) \<in> set (w_contexts w)" for i e using d(3) that by force
    ultimately show ?case
      unfolding wp_modifyE using young all by (fastforce simp: wp_modifyE w')
  qed simp
qed

section \<open>Properties\<close>

text \<open>C13: A request reaches its own tenant and no other.  When the identity of a caller is established, the
  certificate it presented is registered, enabled and of an active tenant at that moment; the
  context it gets is that tenant's, connected to the database the control database names for it,
  whether it was cached or opened for this request; and the registry still holds one context and one
  poll task per open tenant, also when the request is refused.\<close>

theorem request_reaches_own_tenant:
  fixes w :: "('c, 'z) registry_world_scheme"
  assumes "ctl_stable E (names_ok name)" and "registry_ok name w" and "names_ok name (w_ctl w)"
  shows "wp (producer_from_request E K fresh parsed peer)
     (\<lambda>px w'. registry_ok name w' \<and> (\<exists>s cert. peer = Some s \<and> cert_at s (e_ctl_interfere E (w_tick w) (w_ctl w)) = Some cert
        \<and> pt_enabled cert \<and> pt_tenant_status cert = ''active'' \<and> px_producer_id px = pt_producer_id cert
        \<and> tn_id (tx_tenant (px_tenant px)) = pt_tenant_id cert \<and> tx_pool (px_tenant px) = name (pt_tenant_id cert)))
     (\<lambda>_. registry_ok name) w"
proof (cases peer)
  case (Some s)
  let ?c = "e_ctl_interfere E (w_tick w) (w_ctl w)"
  have c: "names_ok name ?c" using assms(1,3) by (simp add: ctl_stable_def)
  have r: "registry_ok name (w\<lparr>w_tick := n, w_ctl := c\<rparr>)" for n c using assms(2) by (simp add: registry_ok_def)
  have id: "wp (resolve_producer E s) (\<lambda>i v. registry_ok name v \<and> names_ok name (w_ctl v) \<and> (\<exists>cert. cert_at s ?c = Some cert \<and> pt_enabled cert
        \<and> pt_tenant_status cert = ''active'' \<and> ri_tenant_id i = pt_tenant_id cert \<and> ri_producer_id i = pt_producer_id cert)) (\<lambda>_. registry_ok name) w"
    using c r by (auto simp: resolve_producer_def find_producer_cert_def wp_simps Let_def split: option.splits)
  show ?thesis
    unfolding producer_from_request_def Some ok_or_simps bind_Inr
  proof (rule wp_bindI, rule wp_map_errI, rule id, elim conjE exE, goal_cases)
    case (1 i v cert)
    show ?case
      by (rule wp_bindI, rule wp_map_errI, rule get_or_open_context_wp [OF assms(1) 1(1,2)]) (use 1 in \<open>auto simp: wp_ret context_ok_def\<close>)
  qed
qed (use assms(2) in \<open>simp add: producer_from_request_def wp_simps\<close>)

text \<open>Eviction closes what is idle and nothing else.  A sweep keeps every context that has been used within
  the idle time, with its poll task running, removes every context idle for longer together with its
  task, and leaves one task per remaining context.\<close>

theorem eviction_spares_active_tenants:
  fixes w :: "('c, 'z) registry_world_scheme"
  assumes "registry_ok name w"
  shows "wp (evict_idle E ttl) (\<lambda>_ w'. registry_ok name w'
      \<and> (\<forall>(i, e) \<in> set (w_contexts w). ((\<forall>n. max 0 (e_instant E n - re_last_access e) < ttl) \<longrightarrow> (i, e) \<in> set (w_contexts w') \<and> i \<in> set (w_pollers w'))
           \<and> ((\<forall>n. max 0 (e_instant E n - re_last_access e) \<ge> ttl) \<longrightarrow> i \<notin> fst ` set (w_contexts w') \<and> i \<notin> set (w_pollers w')))) (\<lambda>_ _. False) w"
  by (rule evict_idle_wp [OF assms])

definition registry_start :: "(uuid \<times> cache_entry) list registry_world" where
  "registry_start = \<lparr>w_db = empty_db\<lparr>t_tenant_config := Some \<lparr>tc_retention_years = 7, tc_default_timezone = ''UTC'', tc_default_locale = ''en'',
       tc_schedule_horizon_days = 30, tc_quota_day_boundary_tz = ''UTC'', tc_verification_mode = ''enforce'', tc_kill_switch_release_rate = 10,
       tc_reconcile_attempts_cap = 5\<rparr>\<rparr>,
     w_ctl = empty_ctl\<lparr>c_tenant := [(sample_tenant 1 ''a'')\<lparr>tn_vault_pepper_wrapped := Some ''wrapped''\<rparr>],
       c_producer_cert := [\<lparr>pc_cert_subject = ''CN=shop'', pc_tenant_id = 1, pc_producer_id = 5, pc_enabled = True\<rparr>]\<rparr>,
     w_tick = 0, w_contexts = [], w_pollers = []\<rparr>"

lemma registry_start_ok: "registry_ok (\<lambda>_. ''a'') registry_start" "names_ok (\<lambda>_. ''a'') (w_ctl registry_start)"
  by (simp_all add: registry_start_def registry_ok_def names_ok_def sample_tenant_def)

definition first_request :: "(ingest_error + (uuid \<times> cache_entry) list producer_context) \<times> (uuid \<times> cache_entry) list registry_world" where
  "first_request = producer_from_request (quiet_env 0) sample_keystore \<lparr>kc_inner = [], kc_ttl = 3600\<rparr> (Inr ()) (Some ''CN=shop'') registry_start"

lemma first_request_runs:
  "map_sum id px_producer_id (fst first_request) = Inr 5" "map fst (w_contexts (snd first_request)) = [1]" "w_pollers (snd first_request) = [1]"
  by code_simp+

theorem request_reaches_own_tenant_witness:
  "\<exists>px. fst first_request = Inr px \<and> px_producer_id px = 5 \<and> tx_pool (px_tenant px) = ''a'' \<and> registry_ok (\<lambda>_. ''a'') (snd first_request)"
proof -
  obtain px where "fst first_request = Inr px" using first_request_runs(1) by auto
  then obtain w' where run: "first_request = (Inr px, w')" by (metis prod.collapse)
  have st: "ctl_stable (quiet_env 0) (names_ok (\<lambda>_. ''a''))" by (simp add: ctl_stable_def)
  from wp_Inr [OF request_reaches_own_tenant [OF st registry_start_ok] run [unfolded first_request_def]]
  show ?thesis using first_request_runs(1) by (auto simp: run)
qed

text \<open>Two open tenants, of which the first has not been used for longer than an hour.\<close>

definition idle_context :: "uuid \<Rightarrow> string \<Rightarrow> (uuid \<times> cache_entry) list tenant_context" where
  "idle_context i slug = \<lparr>tx_tenant = sample_tenant i slug, tx_pool = slug, tx_config = the (t_tenant_config (w_db registry_start)), tx_pepper = [],
     tx_dek_cache = \<lparr>kc_inner = [], kc_ttl = 3600\<rparr>, tx_kill_switches = new_cache\<rparr>"

definition idle_world :: "(uuid \<times> cache_entry) list registry_world" where
  "idle_world = registry_start\<lparr>w_contexts := [(1, \<lparr>re_context = idle_context 1 ''a'', re_last_access = 0\<rparr>),
     (2, \<lparr>re_context = idle_context 2 ''b'', re_last_access = 5000\<rparr>)], w_pollers := [2, 1]\<rparr>"

theorem eviction_spares_active_tenants_witness:
  "wp (evict_idle ((quiet_env 0)\<lparr>e_instant := \<lambda>_. 6000\<rparr>) 3600)
     (\<lambda>_ w'. 1 \<notin> fst ` set (w_contexts w') \<and> 1 \<notin> set (w_pollers w') \<and> 2 \<in> set (w_pollers w')) (\<lambda>_ _. False) idle_world"
proof -
  have "registry_ok (\<lambda>i. if i = 1 then ''a'' else ''b'') idle_world"
    by (simp add: registry_ok_def idle_world_def idle_context_def context_ok_def sample_tenant_def insert_commute)
  from eviction_spares_active_tenants [OF this, of "(quiet_env 0)\<lparr>e_instant := \<lambda>_. 6000\<rparr>" 3600]
  show ?thesis by (rule wp_mono) (simp_all add: idle_world_def)
qed

end
