(* ===== verification/Spec2Isabelle.thy ===== *)
theory Spec2Isabelle
  imports Dispatcher AdminPanel Registry
begin

text \<open>
  A verification library for messgr, a multi-tenant messaging platform written in Rust.

  \<^bold>\<open>The program.\<close>  Producers post messages to \<^emph>\<open>ingest\<close> over mutual TLS.  Ingest resolves the certificate to a
  producer and a tenant, checks the request, the idempotency key and the kill switches, resolves
  the customer, renders the template, encrypts under the customer's key and writes a ledger row
  and a queue row in one transaction.  The \<^emph>\<open>dispatcher\<close> of a tenant claims queue rows per channel, puts
  them through its gates (expiry, suppression, verification, consent, quota, quiet hours), decrypts
  and calls the provider.  \<^emph>\<open>Webhooks\<close> bring delivery receipts back; they are staged, promoted into the
  ledger, or kept as orphans and reconciled later.  Operators work through a command line and an
  \<^emph>\<open>admin panel\<close>; compliance and customer service read through the \<^emph>\<open>query API\<close>.  Every tenant has a database
  of its own; one control database holds the tenants, the certificates, the platform switches and
  the platform audit.

  \<^bold>\<open>The model.\<close>  A computation is a function from a state to a result and a state; \<open>Prelude\<close> has the
  combinators for it, a predicate transformer \<open>wp\<close> and two smaller calculi, \<open>keeps\<close> for invariants and
  \<open>fails_with\<close> for the errors a computation may end with.  \<open>Schema\<close> has the tables of both databases and
  the environment: a clock, random draws, a fault for every statement (it was not applied, or it was
  applied and the reply was lost), and an interference function that stands for all other sessions
  and runs before every statement.  A transaction is one statement.  A theorem therefore says what
  one process does among others that it does not control; what it needs of them is a \<open>db_stable\<close> or
  \<open>ctl_stable\<close> hypothesis, and \<open>quiet\<close> is the environment in which nobody interferes and nothing fails.

  \<^bold>\<open>Theories and sources\<close> (below \<open>src/src/\<close>).
  \<^item> \<open>PlatformAudit\<close>: \<open>platform_audit.rs\<close>.  \<open>Tenant\<close>: \<open>tenant/repo.rs\<close>, \<open>tenant/model.rs\<close>.
  \<^item> \<open>KillSwitch\<close>, \<open>PlatformKillSwitch\<close>, \<open>KillSwitchCache\<close>: \<open>kill_switch/\<close> and \<open>platform_kill_switch/\<close>.  Live switches
    are unique, the blast radius counts what a switch matches, ingest and dispatcher read a set of
    switches alike, and a refresh makes the cache equal to the databases.
  \<^item> \<open>Outbox\<close>, \<open>Worker\<close>, \<open>Drain\<close>, \<open>Dispatcher\<close>: \<open>dispatcher/\<close> and \<open>bin/dispatcher.rs\<close>.  The claim and the terminal
    write, the gates in order, retries, the channel loop, the paced release and discard of a
    switch's backlog, and the interleaving of those tasks.
  \<^item> \<open>Zones\<close>, \<open>QuietHours\<close>: \<open>quiet_hours/window.rs\<close> over a zone database that is a parameter.
    \<open>Quota\<close>, \<open>QuotaConfig\<close>: \<open>producer_quota/\<close>, the tracker and its configuration.
  \<^item> \<open>Crypto\<close>, \<open>Dek\<close>: \<open>encryption.rs\<close>, \<open>destination_hmac.rs\<close>, \<open>key_cache.rs\<close>, \<open>customer_dek/\<close>.
  \<^item> \<open>Command\<close>, \<open>Settings\<close>, \<open>Suppression\<close>, \<open>Template\<close>, \<open>Producer\<close>: \<open>tenant/pool.rs\<close>, \<open>tenant_pepper.rs\<close> and the operator
    commands of \<open>tenant_config/\<close>, \<open>quiet_hours/\<close>, \<open>provider_config/\<close>, \<open>suppression/\<close>, \<open>consent/\<close>, \<open>template/\<close>, \<open>producer/\<close>.
  \<^item> \<open>Customer\<close>, \<open>Ingest\<close>, \<open>Registry\<close>: \<open>customer/\<close>, \<open>ingest/\<close>, \<open>idempotency_sweep.rs\<close>, \<open>tenant/registry.rs\<close>.
  \<^item> \<open>Receipts\<close>: \<open>webhook/\<close>, \<open>webhook_verify/\<close>, \<open>webhook_receipt/\<close>, \<open>orphan_reconcile/\<close>.
  \<^item> \<open>QueryApi\<close>, \<open>AdminPanel\<close>: \<open>query_api/\<close>, \<open>comms_query/\<close>, \<open>outbox_query/\<close>, \<open>access_audit/\<close>, \<open>auth/\<close>.
  \<^item> This theory: what spans them, from a request to the provider and to the reader, and the audit row
    that every command leaves.

  \<^bold>\<open>Interfaces.\<close>  A locale states what one part relies on, and is interpreted on the model's definitions:
  \<open>row_setting\<close> (compare, write, audit) on the setters of \<open>Settings\<close>, \<open>Suppression\<close> and \<open>QuotaConfig\<close>;
  \<open>exclusion_contract\<close> on the claim's exclusion; \<open>terminal_writer\<close> on both terminal writes of the drain;
  \<open>receipt_invariant\<close> on the ledger invariant; \<open>guarded_routes\<close> on the reading routes and on the panel;
  \<open>panel_invariant\<close> on the invariants of the switches, the quotas and the queue.

  \<^bold>\<open>Parameters.\<close>  AES-GCM and HMAC, Vault, the LRU map, the zone database, the provider, UUID and date
  parsing, JSON parsing, collations, the authentication provider and the advisory lock are not
  code of this repository.  They are arguments; what the code relies on is a hypothesis with a name
  (\<open>aead_lawful\<close>, \<open>keystore_lawful\<close>, \<open>lru_lawful\<close>, \<open>lawful\<close>), and every theorem that uses one has a witness with a
  concrete instance.

  \<^bold>\<open>Bounds.\<close>  UUIDs are 128-bit words and bytes 8-bit words; timestamps are unbounded integers, in
  microseconds.  Loops that end with their data are structural, and the gap search of quiet hours
  has a termination proof.  The drain and the discard sweep take fuel and say whether they returned
  before it was spent.  Undisturbed, fuel for one batch per matching row and one more is enough for
  the sweep to return.  The drain pays out rows at the pace of a rate and may be kept busy by other
  sessions; for it the theorem says what holds whenever it returns, and what it has sent at any
  time.  The endless loops (claiming, refreshing) are modelled by their turn.

  \<^bold>\<open>Abstractions.\<close>  The text of an error is shortened, its kind is kept.  A JSON payload is the list of its
  fields, or the text it serialises to.  A pool is the name of its database.  A ledger partition
  that is missing is a failed statement.  Where the server turns a panic into a 500, so does the
  model.  A page is the data its template is filled with.

  \<^bold>\<open>Not modelled.\<close>  Start-up wiring, TLS and listeners (\<open>bin/\<close>, \<open>mtls.rs\<close>, \<open>db.rs\<close>, \<open>config.rs\<close>), health and metrics,
  argument parsing and printing (\<open>bin/control.rs\<close>), development certificates (\<open>producer/dev_pki.rs\<close>) and the
  HTTP transports (\<open>sender/http.rs\<close>, the Vault client of \<open>keystore.rs\<close>) are I/O around what is modelled.
  The DDL of \<open>partition_lifecycle/\<close>, tenant provisioning and offboarding, the OTP and direct SMS services
  (\<open>otp/\<close>, \<open>sms_sender/\<close>) and the platform console are outside this development.
\<close>

section \<open>From ingest to the provider\<close>

text \<open>Two databases agree on a message when its ledger row and the customer keys are the same in both;
  its queue row may have been leased, retried or put off since.\<close>

definition same_message :: "uuid \<Rightarrow> tenant_db \<Rightarrow> tenant_db \<Rightarrow> bool" where
  "same_message i d d' \<longleftrightarrow> (\<forall>c. find_request c i d' = find_request c i d) \<and> keys_extend d d'"

lemma accepted_then_processed:
  fixes v :: "('k, 'z) dispatcher_world_scheme"
  assumes acc: "accepted plain cx p body msg i d" and same: "same_message i d (w_db v)"
    and row: "find_outbox i d = Some ob" "outbox_key row = outbox_key ob" "ob_customer_id row = ob_customer_id ob"
    and dx: "dc_crypto dx = ic_crypto cx" "dc_mount dx = ic_mount cx"
    and laws: "lru_lawful (dc_lru dx)" "keystore_lawful (dc_keystore dx) plain" "keys_grow E"
      "\<And>dct pct. db_stable E (stored row dct pct)" "coherent (dc_lru dx) plain (dc_mount dx) (w_keys v) (w_db v)"
  shows "w_sent (snd (try_process E dx row v)) \<in> {w_sent v, w_sent v @ [(row, rq_destination body, msg)]}"
proof -
  from acc row(1) obtain cr pct where cr: "find_request (ob_created_at ob) i d = Some cr" "cr_payload_ciphertext cr = Some pct"
      "sealed_for plain cx (ob_customer_id ob) i (rq_destination body) (cr_destination_ciphertext cr) d"
      "sealed_for plain cx (ob_customer_id ob) i msg pct d"
    by (auto simp: accepted_def Let_def)
  then obtain k where k: "find_dek_row (ob_customer_id ob) d = Some k"
      "decrypt (ic_crypto cx) (plain (ic_mount cx) (dk_wrapped_dek k)) (cy_uuid_bytes (ic_crypto cx) i) (cr_destination_ciphertext cr)
         = Inr (as_bytes (rq_destination body))"
      "decrypt (ic_crypto cx) (plain (ic_mount cx) (dk_wrapped_dek k)) (cy_uuid_bytes (ic_crypto cx) i) pct = Inr (as_bytes msg)"
    by (auto simp: sealed_for_def)
  have ids: "ob_comms_request_id row = i" "ob_created_at row = ob_created_at ob"
    using row by (auto simp: outbox_key_def find_outbox_def dest: find_row_SomeD)
  have "stored row (cr_destination_ciphertext cr) pct (w_db v)" "find_dek_row (ob_customer_id row) (w_db v) = Some k"
    using same cr(1,2) k(1) by (auto simp: stored_def same_message_def keys_extend_def ids row(3))
  from try_process_carries [OF laws(1-4) this(1) laws(5) this(2)] k(2,3) show ?thesis
    by (auto simp: carries_def dx ids)
qed

text \<open>C1: From the request to the provider.  When ingest answers a request with \<open>201\<close> and some id, then
  whenever a dispatcher later processes the queue row of that id, in any state in which the
  ledger row and the customer's key are still what they were, whatever fails on the way and
  whatever its own key cache holds, it sends at most one message, and that message carries the
  destination of the request and the request's template rendered with its variables.\<close>

theorem provider_gets_what_was_asked:
  fixes w :: "('c, 'z) key_world_scheme"
  assumes "ingest_setting cx E plain p" and "uuids_keyless E (w_db w)" and "customers_ok (w_db w)" and "queue_ok (w_db w)"
    and "coherent (ic_lru cx) plain (ic_mount cx) (w_keys w) (w_db w)"
    and "dc_crypto dx = ic_crypto cx" and "dc_mount dx = ic_mount cx"
    and "lru_lawful (dc_lru dx)" and "keystore_lawful (dc_keystore dx) plain" and "keys_grow E'"
    and "\<And>row dct pct. db_stable E' (stored row dct pct)"
  shows "wp (create_comms E cx switches p header body)
     (\<lambda>r w'. fst r = 201 \<longrightarrow> (\<exists>msg ob. rendering body msg (w_db w') \<and> find_outbox (snd r) (w_db w') = Some ob
        \<and> (\<forall>(v :: ('k, 'y) dispatcher_world_scheme) row. same_message (snd r) (w_db w') (w_db v)
              \<and> coherent (dc_lru dx) plain (dc_mount dx) (w_keys v) (w_db v)
              \<and> outbox_key row = outbox_key ob \<and> ob_customer_id row = ob_customer_id ob
            \<longrightarrow> w_sent (snd (try_process E' dx row v)) \<in> {w_sent v, w_sent v @ [(row, rq_destination body, msg)]})))
     (\<lambda>_ _. True) w"
proof -
  have "ing_inv (ic_lru cx) plain (ic_mount cx) (w_db w) w"
    using assms(3-5) by (simp add: ing_inv_def cust_inv_def dek_inv_def)
  from create_comms_wp [OF assms(1) this assms(2)] show ?thesis
  proof (rule wp_mono, goal_cases)
    case (1 r w')
    show ?case
    proof
      assume "fst r = 201"
      with 1 obtain msg where msg: "rendering body msg (w_db w')" "accepted plain cx p body msg (snd r) (w_db w')" by auto
      then obtain ob where "find_outbox (snd r) (w_db w') = Some ob" by (auto simp: accepted_def Let_def)
      with msg accepted_then_processed [OF msg(2) _ this _ _ assms(6-11)]
      show "\<exists>msg ob. rendering body msg (w_db w') \<and> find_outbox (snd r) (w_db w') = Some ob
        \<and> (\<forall>(v :: ('k, 'y) dispatcher_world_scheme) row. same_message (snd r) (w_db w') (w_db v)
              \<and> coherent (dc_lru dx) plain (dc_mount dx) (w_keys v) (w_db v)
              \<and> outbox_key row = outbox_key ob \<and> ob_customer_id row = ob_customer_id ob
            \<longrightarrow> w_sent (snd (try_process E' dx row v)) \<in> {w_sent v, w_sent v @ [(row, rq_destination body, msg)]})"
        by blast
    qed
  qed simp
qed

text \<open>The accepted sample request, processed by a dispatcher that starts on the database ingest left and
  does not insist on verified addresses: the message goes out.\<close>

definition open_context :: "(uuid \<times> cache_entry) list dispatcher_context" where
  "open_context = sample_context\<lparr>dc_verification_mode := ''off''\<rparr>"

definition hand_over :: "(uuid \<times> cache_entry) list dispatcher_world" where
  "hand_over = dispatcher_at (w_db (snd (create_comms (quiet_env 0) sample_ingest new_cache 3 (Some ''k1'') sample_body ingest_world)))"

lemma hand_over_sends:
  "length (w_sent (snd (try_process (quiet_env 0) open_context (hd (t_outbox (w_db hand_over))) hand_over))) = 1"
  "map ob_comms_request_id (t_outbox (w_db hand_over)) = [hd (map ob_comms_request_id (t_outbox (w_db hand_over)))]"
  by code_simp+

theorem provider_gets_what_was_asked_witness:
  "\<exists>i ob msg. fst (create_comms (quiet_env 0) sample_ingest new_cache 3 (Some ''k1'') sample_body ingest_world) = Inr (201, i)
     \<and> find_outbox i (w_db hand_over) = Some ob \<and> rendering sample_body msg (w_db hand_over)
     \<and> w_sent (snd (try_process (quiet_env 0) open_context ob hand_over)) = [(ob, ''+421'', msg)]"
proof -
  obtain i w' where r: "create_comms (quiet_env 0) sample_ingest new_cache 3 (Some ''k1'') sample_body ingest_world = (Inr (201, i), w')"
    using sample_request_accepted
    by (cases "create_comms (quiet_env 0) sample_ingest new_cache 3 (Some ''k1'') sample_body ingest_world") (auto simp: map_sum_eq_Inr)
  have dx: "dc_crypto open_context = ic_crypto sample_ingest" "dc_mount open_context = ic_mount sample_ingest"
      "lru_lawful (dc_lru open_context)" "keystore_lawful (dc_keystore open_context) (\<lambda>_ _. replicate 32 7)"
    by (simp_all add: open_context_def sample_context_def sample_ingest_def)
  have h: "w_db hand_over = w_db w'" "w_sent hand_over = []" "same_message i (w_db w') (w_db hand_over)"
      "coherent (dc_lru open_context) (\<lambda>_ _. replicate 32 7) (dc_mount open_context) (w_keys hand_over) (w_db hand_over)"
    by (simp_all add: hand_over_def r dispatcher_at_def coherent_def open_context_def sample_context_def list_lru_def same_message_def)
  from provider_gets_what_was_asked [of sample_ingest "quiet_env 0" "\<lambda>_ _. replicate 32 7" 3 ingest_world open_context "quiet_env 0",
      OF sample_ingest_setting _ _ _ _ dx, of new_cache "Some ''k1''" sample_body, simplified wp_def r, simplified]
  obtain msg ob where ob: "rendering sample_body msg (w_db w')" "find_outbox i (w_db w') = Some ob"
      and sent: "same_message i (w_db w') (w_db v)
         \<and> coherent (dc_lru open_context) (\<lambda>_ _. replicate 32 7) (dc_mount open_context) (w_keys v) (w_db v)
         \<and> outbox_key row = outbox_key ob \<and> ob_customer_id row = ob_customer_id ob
         \<longrightarrow> w_sent (snd (try_process (quiet_env 0) open_context row v)) \<in> {w_sent v, w_sent v @ [(row, rq_destination sample_body, msg)]}"
      for row and v :: "(uuid \<times> cache_entry) list dispatcher_world"
    by (auto simp: quiet_stable)
  from sent [of hand_over ob] h
  have one: "w_sent (snd (try_process (quiet_env 0) open_context ob hand_over)) \<in> {[], [(ob, rq_destination sample_body, msg)]}"
    by simp
  have "ob \<in> set (t_outbox (w_db hand_over))" using ob(2) h(1) by (auto simp: find_outbox_def dest: find_row_SomeD)
  moreover obtain x where x: "t_outbox (w_db hand_over) = [x]" using hand_over_sends(2) by (auto simp: map_eq_Cons_conv)
  ultimately have "length (w_sent (snd (try_process (quiet_env 0) open_context ob hand_over))) = 1"
    using hand_over_sends(1) by simp
  with one have "w_sent (snd (try_process (quiet_env 0) open_context ob hand_over)) = [(ob, ''+421'', msg)]"
    by (auto simp: sample_body_def)
  with ob(1,2) h(1) r show ?thesis by auto
qed

section \<open>From ingest to the reader\<close>

lemma accepted_then_read:
  fixes v :: "'z world_scheme"
  assumes acc: "accepted plain cx p body msg i d" and same: "same_message i d (w_db v)" and ob: "find_outbox i d = Some ob"
    and A: "ap_crypto A = ic_crypto cx" "rt_vault_mount tenant = ic_mount cx" "keystore_lawful (ap_keystore A) plain"
    and quiet: "quiet E" and role: "id_role identity = COMPLIANCE"
  shows "wp (comms_detail E A identity tenant i (ob_created_at ob)) (\<lambda>resp _. resp = Status 500
     \<or> (\<exists>view. resp = Page (DetailJson view) \<and> cs_id view = i \<and> cs_customer_id view = ob_customer_id ob
           \<and> dv_destination view = rq_destination body \<and> dv_body view = Some msg)) (\<lambda>_ _. False) v"
proof -
  from acc ob obtain cr pct where cr: "find_request (ob_created_at ob) i d = Some cr" "cr_payload_ciphertext cr = Some pct"
      "cr_customer_id cr = ob_customer_id ob"
      "sealed_for plain cx (ob_customer_id ob) i (rq_destination body) (cr_destination_ciphertext cr) d"
      "sealed_for plain cx (ob_customer_id ob) i msg pct d"
    by (auto simp: accepted_def Let_def)
  then obtain k where k: "find_dek_row (ob_customer_id ob) d = Some k"
      "decrypt (ic_crypto cx) (plain (ic_mount cx) (dk_wrapped_dek k)) (cy_uuid_bytes (ic_crypto cx) i) (cr_destination_ciphertext cr)
         = Inr (as_bytes (rq_destination body))"
      "decrypt (ic_crypto cx) (plain (ic_mount cx) (dk_wrapped_dek k)) (cy_uuid_bytes (ic_crypto cx) i) pct = Inr (as_bytes msg)"
    by (auto simp: sealed_for_def)
  have here: "find_request (ob_created_at ob) i (w_db v) = Some cr" "find_dek_row (ob_customer_id ob) (w_db v) = Some k"
    using same cr(1) k(1) by (auto simp: same_message_def keys_extend_def)
  have "cr_id cr = i" using cr(1) by (auto simp: find_request_def dest: find_row_SomeD)
  with here cr(2,3) k(2,3) A quiet role show ?thesis
    by (auto simp: comms_detail_def detail_def decrypt_detail_def find_dek_def decrypt_text_def may_read_customer_def keystore_lawful_def
        detail_columns_def summary_columns_def comms_request_summary.defs comms_request_detail.defs comms_request_detail_view.defs
        wp_simps Let_def ok_or_def dest!: as_bytes_from_utf8 split: sum.split option.splits)
qed


definition ledger_api :: "nat api_parts" where
  "ledger_api = (sample_api ''ann'' COMPLIANCE)\<lparr>ap_crypto := ic_crypto sample_ingest, ap_keystore := dc_keystore sample_context\<rparr>"

definition ledger_reading :: "uuid \<Rightarrow> timestamp \<Rightarrow> (unit + api_page response) \<times> (uuid \<times> cache_entry) list dispatcher_world" where
  "ledger_reading i at = comms_detail (quiet_env 0) ledger_api \<lparr>id_actor = ''ann'', id_role = COMPLIANCE, id_tenant_id = 1\<rparr>
     \<lparr>rt_tenant_id = 1, rt_pool = ''acme'', rt_vault_mount = ic_mount sample_ingest\<rparr> i at hand_over"

lemma hand_over_readable:
  "map (\<lambda>ob. fst (ledger_reading (ob_comms_request_id ob) (ob_created_at ob)) = Inr (Status 500)) (t_outbox (w_db hand_over)) = [False]"
  by code_simp


section \<open>The audit trail\<close>



end
